(* ===== verification/Prelude.thy ===== *)
theory Prelude
  imports Main
begin

text \<open>
  Shared vocabulary of the development: the identifiers of the database rows, the
  request's user, the Python and Django exceptions the views can raise (as values of
  \<open>py_error\<close>, the left side of a sum), a bind on the sum type that stops at the first
  exception as Python does, and the generic list lemmas the component theories share.
\<close>

section \<open>Identifiers, users and requests\<close>

type_synonym pk = nat
type_synonym uid = nat

text \<open>
  \<open>django.contrib.auth\<close>'s \<open>User\<close>, reduced to the fields the views read:
  \<open>request.user == notice.recipient\<close> compares primary keys, \<open>is_superuser\<close> lets
  \<open>archive\<close> and \<open>delete\<close> act on other users' notices, \<open>username\<close> names the feed.
\<close>

record user =
  user_id :: uid
  username :: string
  is_superuser :: bool

datatype http_method = GET | POST

text \<open>
  A \<open>QueryDict\<close> is a list of key/value pairs; \<open>QueryDict.get\<close> returns the last
  value given for the key.
\<close>

type_synonym query_dict = "(string \<times> string) list"

definition qd_get :: "query_dict \<Rightarrow> string \<Rightarrow> string option" where
  "qd_get q k = map_of (rev q) k"

definition qd_get_default :: "query_dict \<Rightarrow> string \<Rightarrow> string \<Rightarrow> string" where
  "qd_get_default q k d = (case qd_get q k of Some v \<Rightarrow> v | None \<Rightarrow> d)"

section \<open>Exceptions as values\<close>

datatype py_error =
    DoesNotExist
  | MultipleObjectsReturned
  | Http404
  | KeyError
  | TypeError
  | ValueError
  | ValidationError
  | AttributeError string
  | NameError string

text \<open>Python's sequencing of statements that may raise: the first exception wins.\<close>

definition sbind :: "'e + 'a \<Rightarrow> ('a \<Rightarrow> 'e + 'b) \<Rightarrow> 'e + 'b" where
  "sbind m f = (case m of Inl e \<Rightarrow> Inl e | Inr a \<Rightarrow> f a)"

named_theorems model_simps "characteristic equations of the model's operations"

text \<open>
  An exception raised by a read that writes nothing, inside a view that has already written:
  Django commits every \<open>save()\<close> and \<open>delete()\<close> at once, so the exception leaves the
  table as it is at that point, and carries it.
\<close>

definition raise_with :: "'s \<Rightarrow> 'e + 'a \<Rightarrow> 'e \<times> 's + 'a" where
  "raise_with st m = (case m of Inl e \<Rightarrow> Inl (e, st) | Inr a \<Rightarrow> Inr a)"

lemma sbind_Inl [simp, model_simps]: "sbind (Inl e) f = Inl e"
  by (simp add: sbind_def)

lemma sbind_Inr [simp, model_simps]: "sbind (Inr a) f = f a"
  by (simp add: sbind_def)

lemma sbind_eq_Inr_iff [simp]:
  "(sbind m f = Inr b) \<longleftrightarrow> (\<exists>a. m = Inr a \<and> f a = Inr b)"
  by (cases m) auto

lemma raise_with_Inl [simp, model_simps]: "raise_with st (Inl e) = Inl (e, st)"
  by (simp add: raise_with_def)

lemma raise_with_Inr [simp, model_simps]: "raise_with st (Inr a) = Inr a"
  by (simp add: raise_with_def)

lemma raise_with_eq_Inr_iff [simp]: "raise_with st m = Inr a \<longleftrightarrow> m = Inr a"
  by (cases m) auto

lemma raise_with_eq_Inl_iff [simp]: "raise_with st m = Inl (e, st') \<longleftrightarrow> m = Inl e \<and> st' = st"
  by (cases m) auto

section \<open>Lists\<close>

lemma filter_singleton_member:
  "filter P xs = [x] \<Longrightarrow> x \<in> set xs \<and> P x"
  by (metis filter_eq_ConsD in_set_conv_decomp Un_iff set_append list.set_intros(1))

lemma filter_cong_member:
  "(\<And>x. x \<in> set xs \<Longrightarrow> P x = Q x) \<Longrightarrow> filter P xs = filter Q xs"
  by (rule filter_cong) auto

lemma distinct_map_filter_keep [intro]:
  "distinct (map f xs) \<Longrightarrow> distinct (map f (filter P xs))"
  by (induction xs) auto

lemma fold_upd_other:
  "\<forall>x\<in>set xs. key x \<noteq> k \<Longrightarrow> fold (\<lambda>x m. m(key x \<mapsto> val x)) xs m k = m k"
  by (induction xs arbitrary: m) auto

lemma fold_upd_at:
  "\<forall>x\<in>set xs. key x = k \<longrightarrow> val x = v \<Longrightarrow> \<exists>x\<in>set xs. key x = k \<Longrightarrow>
   fold (\<lambda>x m. m(key x \<mapsto> val x)) xs m k = Some v"
proof (induction xs arbitrary: m)
  case Nil
  then show ?case by simp
next
  case (Cons a xs)
  show ?case
  proof (cases "\<exists>x\<in>set xs. key x = k")
    case True
    with Cons show ?thesis by simp
  next
    case False
    with Cons.prems have "key a = k" "val a = v" by auto
    have "fold (\<lambda>x m. m(key x \<mapsto> val x)) (a # xs) m k =
          fold (\<lambda>x m. m(key x \<mapsto> val x)) xs (m(key a \<mapsto> val a)) k" by simp
    also have "\<dots> = (m(key a \<mapsto> val a)) k"
      using False by (intro fold_upd_other) auto
    also have "\<dots> = Some v" using \<open>key a = k\<close> \<open>val a = v\<close> by simp
    finally show ?thesis .
  qed
qed

lemma map_le_upd_new: "m k = None \<Longrightarrow> m \<subseteq>\<^sub>m m(k \<mapsto> v)"
  by (auto simp: map_le_def)

text \<open>A separator that occurs in neither prefix splits two lists at the same place.\<close>

lemma append_Cons_sep_eq:
  "a \<notin> set xs \<Longrightarrow> a \<notin> set ys \<Longrightarrow> xs @ a # zs = ys @ a # ws \<Longrightarrow> xs = ys \<and> zs = ws"
proof (induction xs arbitrary: ys)
  case Nil
  then show ?case by (cases ys) auto
next
  case (Cons x xs)
  then show ?case by (cases ys) auto
qed

lemma map_idI:
  "(\<And>x. x \<in> set xs \<Longrightarrow> f x = x) \<Longrightarrow> map f xs = xs"
  by (induction xs) auto

end
