(* ===== verification/ORM.thy ===== *)
theory ORM
  imports Prelude
begin

text \<open>
  The part of Django's ORM the views and the form call, as operations on a table: a
  list of rows in insertion order, each with its primary key (read by \<open>key\<close>).
  \<open>Manager.get\<close> raises \<open>DoesNotExist\<close> when no row matches and
  \<open>MultipleObjectsReturned\<close> when more than one does; \<open>Model.save\<close> updates the row
  with the same primary key or inserts one; creating a row without a key takes the next
  key of the table; \<open>Model.delete\<close> removes the row with the key. The lemmas below are
  the interface the component theories use: they are stated for any row type.
\<close>

definition orm_get :: "('r \<Rightarrow> bool) \<Rightarrow> 'r list \<Rightarrow> py_error + 'r" where
  "orm_get P rows =
     (case filter P rows of
        [] \<Rightarrow> Inl DoesNotExist
      | [r] \<Rightarrow> Inr r
      | _ \<Rightarrow> Inl MultipleObjectsReturned)"

definition orm_next_pk :: "('r \<Rightarrow> pk) \<Rightarrow> 'r list \<Rightarrow> pk" where
  "orm_next_pk key rows = Suc (Max (insert 0 (key ` set rows)))"

definition orm_save :: "('r \<Rightarrow> pk) \<Rightarrow> 'r \<Rightarrow> 'r list \<Rightarrow> 'r list" where
  "orm_save key r rows =
     (if list_ex (\<lambda>x. key x = key r) rows
      then map (\<lambda>x. if key x = key r then r else x) rows
      else rows @ [r])"

definition orm_create :: "('r \<Rightarrow> pk) \<Rightarrow> (pk \<Rightarrow> 'r) \<Rightarrow> 'r list \<Rightarrow> 'r \<times> 'r list" where
  "orm_create key mk rows = (let r = mk (orm_next_pk key rows) in (r, rows @ [r]))"

definition orm_delete :: "('r \<Rightarrow> pk) \<Rightarrow> pk \<Rightarrow> 'r list \<Rightarrow> 'r list" where
  "orm_delete key k rows = filter (\<lambda>x. key x \<noteq> k) rows"

definition pk_distinct :: "('r \<Rightarrow> pk) \<Rightarrow> 'r list \<Rightarrow> bool" where
  "pk_distinct key rows \<longleftrightarrow> distinct (map key rows)"

text \<open>The contents of a table read as a map from a key of the rows to a field.\<close>

definition table_map :: "('r \<Rightarrow> 'k) \<Rightarrow> ('r \<Rightarrow> 'v) \<Rightarrow> 'r list \<Rightarrow> 'k \<Rightarrow> 'v option" where
  "table_map key val rows = map_of (map (\<lambda>r. (key r, val r)) rows)"

subsection \<open>get\<close>

lemma orm_get_Inr_iff [simp]: "orm_get P rows = Inr r \<longleftrightarrow> filter P rows = [r]"
  by (auto simp: orm_get_def split: list.splits)

lemma orm_get_DoesNotExist_filter:
  "orm_get P rows = Inl DoesNotExist \<longleftrightarrow> filter P rows = []"
  by (auto simp: orm_get_def split: list.splits)

lemma orm_get_DoesNotExist_iff:
  "orm_get P rows = Inl DoesNotExist \<longleftrightarrow> \<not> list_ex P rows"
  by (simp add: orm_get_DoesNotExist_filter filter_empty_conv list_ex_iff)

lemma orm_get_Multiple_iff:
  "orm_get P rows = Inl MultipleObjectsReturned \<longleftrightarrow> 2 \<le> length (filter P rows)"
proof (cases "filter P rows")
  case Nil
  then show ?thesis by (simp add: orm_get_def)
next
  case (Cons a t)
  then show ?thesis by (cases t) (simp_all add: orm_get_def)
qed

lemma orm_get_Inr_member: "orm_get P rows = Inr r \<Longrightarrow> r \<in> set rows \<and> P r"
  using filter_singleton_member [of P rows r] by simp

text \<open>On a table with distinct keys, a lookup by the key finds the row.\<close>

lemma filter_key_distinct:
  "distinct (map key rows) \<Longrightarrow> r \<in> set rows \<Longrightarrow> filter (\<lambda>x. key x = key r) rows = [r]"
proof (induction rows)
  case Nil
  then show ?case by simp
next
  case (Cons a rows)
  show ?case
  proof (cases "a = r")
    case True
    with Cons.prems have "\<forall>x\<in>set rows. key x \<noteq> key r" by (force simp: image_iff)
    with True show ?thesis by (simp add: filter_empty_conv)
  next
    case False
    with Cons.prems have "r \<in> set rows" "key a \<noteq> key r" by auto
    with Cons show ?thesis by simp
  qed
qed

lemma orm_get_by_key:
  "pk_distinct key rows \<Longrightarrow> r \<in> set rows \<Longrightarrow> orm_get (\<lambda>x. key x = key r) rows = Inr r"
  by (simp add: pk_distinct_def filter_key_distinct)

text \<open>A lookup by any condition that singles out one key of a table with distinct keys.\<close>

lemma orm_get_unique_by:
  assumes "distinct (map key rows)" "r \<in> set rows" "\<And>x. P x \<longleftrightarrow> key x = key r"
  shows "orm_get P rows = Inr r"
proof -
  have "filter P rows = filter (\<lambda>x. key x = key r) rows" using assms(3) by (simp cong: filter_cong)
  with filter_key_distinct [OF assms(1,2)] show ?thesis by simp
qed

subsection \<open>Fresh keys, save, create, delete\<close>

lemma orm_next_pk_fresh:
  assumes "r \<in> set rows"
  shows "key r < orm_next_pk key rows"
proof -
  have "key r \<le> Max (insert 0 (key ` set rows))"
    using assms by (intro Max_ge) auto
  then show ?thesis by (simp add: orm_next_pk_def)
qed

lemma orm_next_pk_not_used: "\<not> list_ex (\<lambda>x. key x = orm_next_pk key rows) rows"
proof
  assume "list_ex (\<lambda>x. key x = orm_next_pk key rows) rows"
  then obtain x where "x \<in> set rows" and "key x = orm_next_pk key rows"
    by (auto simp: list_ex_iff)
  with orm_next_pk_fresh [of x rows key] show False by simp
qed

lemma set_orm_delete [simp]: "set (orm_delete key k rows) = {x \<in> set rows. key x \<noteq> k}"
  by (auto simp: orm_delete_def)

lemma pk_distinct_orm_delete [intro]:
  "pk_distinct key rows \<Longrightarrow> pk_distinct key (orm_delete key k rows)"
  by (auto simp: pk_distinct_def orm_delete_def)

lemma orm_create_snd: "snd (orm_create key mk rows) = rows @ [mk (orm_next_pk key rows)]"
  by (simp add: orm_create_def Let_def)

lemma pk_distinct_orm_create [intro]:
  "pk_distinct key rows \<Longrightarrow> key (mk (orm_next_pk key rows)) = orm_next_pk key rows \<Longrightarrow>
   pk_distinct key (snd (orm_create key mk rows))"
  using orm_next_pk_not_used [of key rows]
  by (auto simp: pk_distinct_def orm_create_def Let_def list_ex_iff image_iff)

lemma map_key_orm_save_existing:
  "list_ex (\<lambda>x. key x = key r) rows \<Longrightarrow> map key (orm_save key r rows) = map key rows"
  by (induction rows) (auto simp: orm_save_def)

lemma pk_distinct_orm_save [intro]:
  "pk_distinct key rows \<Longrightarrow> pk_distinct key (orm_save key r rows)"
  by (cases "list_ex (\<lambda>x. key x = key r) rows")
    (auto simp: pk_distinct_def map_key_orm_save_existing, auto simp: orm_save_def list_ex_iff)

text \<open>Sizes: a save adds at most one row, none when the key is present.\<close>

subsection \<open>Tables as maps\<close>

lemma table_map_Some_iff:
  "distinct (map key rows) \<Longrightarrow>
   table_map key val rows k = Some v \<longleftrightarrow> (\<exists>r\<in>set rows. key r = k \<and> val r = v)"
  by (induction rows) (auto simp: table_map_def image_iff)

lemma table_map_None_iff:
  "table_map key val rows k = None \<longleftrightarrow> k \<notin> key ` set rows"
  by (induction rows) (auto simp: table_map_def)

lemma table_map_append_new:
  "key r \<notin> key ` set rows \<Longrightarrow>
   table_map key val (rows @ [r]) = (table_map key val rows)(key r \<mapsto> val r)"
  by (induction rows) (auto simp: table_map_def fun_eq_iff)

lemma table_map_replace_other:
  "\<forall>x\<in>set rows. P x \<longrightarrow> key x = key r \<Longrightarrow> k \<noteq> key r \<Longrightarrow>
   table_map key val (map (\<lambda>x. if P x then r else x) rows) k = table_map key val rows k"
  by (induction rows) (auto simp: table_map_def)

lemma table_map_replace_at:
  "\<forall>x\<in>set rows. P x \<longleftrightarrow> key x = key r \<Longrightarrow> \<exists>x\<in>set rows. P x \<Longrightarrow>
   table_map key val (map (\<lambda>x. if P x then r else x) rows) (key r) = Some (val r)"
  by (induction rows) (auto simp: table_map_def)

lemma table_map_replace:
  assumes "\<forall>x\<in>set rows. P x \<longleftrightarrow> key x = key r" and "\<exists>x\<in>set rows. P x"
  shows "table_map key val (map (\<lambda>x. if P x then r else x) rows) = (table_map key val rows)(key r \<mapsto> val r)"
proof
  fix k
  show "table_map key val (map (\<lambda>x. if P x then r else x) rows) k = ((table_map key val rows)(key r \<mapsto> val r)) k"
  proof (cases "k = key r")
    case True
    with table_map_replace_at [OF assms] show ?thesis by simp
  next
    case False
    with assms(1) table_map_replace_other [of rows P key r k val] show ?thesis by simp
  qed
qed

text \<open>Saving a row that replaces the row with its primary key, under distinct keys.\<close>

lemma table_map_orm_save_existing:
  assumes pk: "pk_distinct pkey rows" and kd: "distinct (map key rows)"
    and r0: "r0 \<in> set rows" and same_pk: "pkey r0 = pkey r" and same_key: "key r0 = key r"
  shows "table_map key val (orm_save pkey r rows) = (table_map key val rows)(key r \<mapsto> val r)"
proof -
  from pk have ipk: "inj_on pkey (set rows)" by (simp add: pk_distinct_def distinct_map)
  from kd have ik: "inj_on key (set rows)" by (simp add: distinct_map)
  have "\<forall>x\<in>set rows. pkey x = pkey r \<longleftrightarrow> key x = key r"
  proof
    fix x assume x: "x \<in> set rows"
    have "pkey x = pkey r \<longleftrightarrow> x = r0" using inj_onD [OF ipk _ x r0] same_pk by auto
    also have "\<dots> \<longleftrightarrow> key x = key r" using inj_onD [OF ik _ x r0] same_key by auto
    finally show "pkey x = pkey r \<longleftrightarrow> key x = key r" .
  qed
  moreover have "\<exists>x\<in>set rows. pkey x = pkey r" using r0 same_pk by blast
  ultimately have "table_map key val (map (\<lambda>x. if pkey x = pkey r then r else x) rows) =
      (table_map key val rows)(key r \<mapsto> val r)"
    by (rule table_map_replace)
  moreover have "orm_save pkey r rows = map (\<lambda>x. if pkey x = pkey r then r else x) rows"
    using r0 same_pk by (auto simp: orm_save_def list_ex_iff)
  ultimately show ?thesis by simp
qed

lemma map_key_orm_save_existing_key:
  assumes "pk_distinct pkey rows" "r0 \<in> set rows" "pkey r0 = pkey r" "key r0 = key r"
  shows "distinct (map key (orm_save pkey r rows)) = distinct (map key rows)"
proof -
  from assms(1) have ipk: "inj_on pkey (set rows)" by (simp add: pk_distinct_def distinct_map)
  have u: "\<And>x. x \<in> set rows \<Longrightarrow> pkey x = pkey r \<Longrightarrow> x = r0"
    using inj_onD [OF ipk] assms(2,3) by metis
  have "orm_save pkey r rows = map (\<lambda>x. if pkey x = pkey r then r else x) rows"
    using assms(2,3) by (auto simp: orm_save_def list_ex_iff)
  moreover have "\<forall>x\<in>set rows. key (if pkey x = pkey r then r else x) = key x"
    using u assms(4) by auto
  then have "map key (map (\<lambda>x. if pkey x = pkey r then r else x) rows) = map key rows"
    by (simp add: map_eq_conv)
  ultimately have "map key (orm_save pkey r rows) = map key rows" by simp
  then show ?thesis by simp
qed

end
