(* ===== verification/Observers.thy ===== *)
theory Observers
  imports ORM
begin

text \<open>
  The subscription form of src/notification/forms.py and the choice field of
  src/notification/fields.py. A user observes a notice type on a content object through
  an \<open>ObservedItem\<close> row (user, notice type, object id, signal). The form lists the
  notice types of one content type, marks those the user already observes, and on save
  reconciles the rows with the submitted selection: it creates a row for each newly
  checked notice type and deletes the row of each unchecked one. The theory proves that
  this reconciliation implements the set-level contract \<open>reconcile_spec\<close>, keeps the
  table's invariant, changes nothing when the initial selection is submitted, and raises
  exactly where the ORM lookup of the deleted row fails.
\<close>

section \<open>Data\<close>

record notice_type =
  nt_id :: pk
  nt_label :: string
  nt_display :: string
  nt_description :: string
  nt_default :: nat
  nt_content_type :: pk

record observed_item =
  oi_id :: pk
  oi_user :: uid
  oi_notice_type :: pk
  oi_object_id :: pk
  oi_signal :: string

text \<open>\<open>NoticeTypeMultipleChoiceField.label_from_instance\<close> (fields.py).\<close>

definition label_from_instance :: "notice_type \<Rightarrow> string" where
  "label_from_instance obj = nt_description obj"

text \<open>
  The choices the field renders: Django's \<open>ModelChoiceIterator\<close> pairs each row's
  primary key with the label the field gives it.
\<close>

definition notice_choices :: "notice_type list \<Rightarrow> (pk \<times> string) list" where
  "notice_choices qs = map (\<lambda>n. (nt_id n, label_from_instance n)) qs"

record notification_form =
  nf_content_type :: pk
  nf_object_id :: pk
  nf_user :: uid
  nf_queryset :: "notice_type list"
  nf_already_observed :: "notice_type list"
  nf_initial :: "pk list"

section \<open>Operations\<close>

text \<open>
  The join \<open>filter(observeditem__object_id=object_id, observeditem__user=user)\<close>:
  a notice type is listed once per matching row, as the SQL join lists it.
\<close>

definition observes :: "uid \<Rightarrow> pk \<Rightarrow> notice_type \<Rightarrow> observed_item \<Rightarrow> bool" where
  "observes u oid n oi \<longleftrightarrow>
     oi_notice_type oi = nt_id n \<and> oi_object_id oi = oid \<and> oi_user oi = u"

definition observed_join :: "uid \<Rightarrow> pk \<Rightarrow> notice_type list \<Rightarrow> observed_item list \<Rightarrow> notice_type list" where
  "observed_join u oid qs items = concat (map (\<lambda>n. map (\<lambda>_. n) (filter (observes u oid n) items)) qs)"

text \<open>\<open>NotificationForm.get_content_type\<close>: the content type stored by \<open>__init__\<close>.\<close>

definition form_get_content_type :: "notification_form \<Rightarrow> pk" where
  "form_get_content_type f = nf_content_type f"

text \<open>
  \<open>__init__\<close>: the three attributes are set first, then the queryset is filtered by
  \<open>self.get_content_type()\<close> of that form.
\<close>

definition notification_form_init ::
  "pk \<Rightarrow> pk \<Rightarrow> uid \<Rightarrow> notice_type list \<Rightarrow> observed_item list \<Rightarrow> notification_form" where
  "notification_form_init ct oid u nts items =
     (let f0 = \<lparr>nf_content_type = ct, nf_object_id = oid, nf_user = u, nf_queryset = [],
                nf_already_observed = [], nf_initial = []\<rparr>;
          qs = filter (\<lambda>n. nt_content_type n = form_get_content_type f0) nts;
          already = observed_join u oid qs items
      in f0\<lparr>nf_queryset := qs, nf_already_observed := already, nf_initial := map nt_id already\<rparr>)"

definition get_signal_for_notice_type :: "notice_type \<Rightarrow> string" where
  "get_signal_for_notice_type n = ''post_save''"

text \<open>\<open>notice in qs\<close>: Django model instances compare by primary key.\<close>

definition qs_contains :: "notice_type list \<Rightarrow> notice_type \<Rightarrow> bool" where
  "qs_contains qs n = list_ex (\<lambda>m. nt_id m = nt_id n) qs"

text \<open>
  \<open>ModelMultipleChoiceField.clean\<close> (Django) for the submitted primary keys: an empty
  selection is the empty queryset (the field is not required); a key outside the
  queryset is a validation error; otherwise the queryset restricted to the keys.
\<close>

definition notices_clean :: "notification_form \<Rightarrow> pk list \<Rightarrow> py_error + notice_type list" where
  "notices_clean f vals =
     (if vals = [] then Inr []
      else if list_all (\<lambda>v. list_ex (\<lambda>n. nt_id n = v) (nf_queryset f)) vals
      then Inr (filter (\<lambda>n. nt_id n \<in> set vals) (nf_queryset f))
      else Inl ValidationError)"

text \<open>
  One iteration of the loop of \<open>NotificationForm.save\<close>: the two \<open>if\<close>s in order;
  the first creates the row, the second looks the row up with \<open>objects.get\<close>
  (which may raise) and deletes it.
\<close>

definition observe_new :: "notification_form \<Rightarrow> notice_type \<Rightarrow> pk \<Rightarrow> observed_item" where
  "observe_new f n k =
     \<lparr>oi_id = k, oi_user = nf_user f, oi_notice_type = nt_id n,
      oi_object_id = nf_object_id f, oi_signal = get_signal_for_notice_type n\<rparr>"

definition delete_lookup :: "notification_form \<Rightarrow> notice_type \<Rightarrow> observed_item \<Rightarrow> bool" where
  "delete_lookup f n oi \<longleftrightarrow>
     observes (nf_user f) (nf_object_id f) n oi \<and> oi_signal oi = get_signal_for_notice_type n"

definition save_notice ::
  "notification_form \<Rightarrow> notice_type list \<Rightarrow> observed_item list \<Rightarrow> notice_type \<Rightarrow>
   py_error \<times> observed_item list + observed_item list" where
  "save_notice f now items n =
     (let items1 =
        (if qs_contains now n \<and> \<not> qs_contains (nf_already_observed f) n
         then snd (orm_create oi_id (observe_new f n) items) else items)
      in if \<not> qs_contains now n \<and> qs_contains (nf_already_observed f) n
         then sbind (raise_with items1 (orm_get (delete_lookup f n) items1))
                (\<lambda>oi. Inr (orm_delete oi_id (oi_id oi) items1))
         else Inr items1)"

fun save_loop ::
  "notification_form \<Rightarrow> notice_type list \<Rightarrow> notice_type list \<Rightarrow> observed_item list \<Rightarrow>
   py_error \<times> observed_item list + observed_item list" where
  "save_loop f now [] items = Inr items"
| "save_loop f now (n # ns) items = sbind (save_notice f now items n) (save_loop f now ns)"

text \<open>\<open>NotificationForm.save\<close>: the loop over the form's queryset.\<close>

definition notification_form_save ::
  "notification_form \<Rightarrow> notice_type list \<Rightarrow> observed_item list \<Rightarrow> py_error \<times> observed_item list + observed_item list" where
  "notification_form_save f now items = save_loop f now (nf_queryset f) items"

section \<open>Abstraction and contract\<close>

definition oi_key :: "observed_item \<Rightarrow> uid \<times> pk \<times> pk" where
  "oi_key oi = (oi_user oi, oi_notice_type oi, oi_object_id oi)"

definition obs_keys :: "observed_item list \<Rightarrow> (uid \<times> pk \<times> pk) set" where
  "obs_keys items = oi_key ` set items"

text \<open>
  The table's invariant: primary keys are distinct, a user observes a notice type on an
  object at most once, and every row carries the signal the form uses.
\<close>

definition observers_wf :: "observed_item list \<Rightarrow> bool" where
  "observers_wf items \<longleftrightarrow>
     pk_distinct oi_id items \<and> distinct (map oi_key items) \<and>
     list_all (\<lambda>oi. oi_signal oi = ''post_save'') items"

text \<open>
  The contract of the form: for the user and object of the form, the observed notice
  types among the listed ones \<open>Q\<close> become exactly the selected ones \<open>N\<close>; every other
  subscription is kept.
\<close>

definition reconcile_spec ::
  "uid \<Rightarrow> pk \<Rightarrow> pk set \<Rightarrow> pk set \<Rightarrow> (uid \<times> pk \<times> pk) set \<Rightarrow> (uid \<times> pk \<times> pk) set" where
  "reconcile_spec u oid Q N K =
     {k \<in> K. \<not> (fst k = u \<and> fst (snd k) \<in> Q \<and> snd (snd k) = oid)} \<union> (\<lambda>t. (u, t, oid)) ` (Q \<inter> N)"

section \<open>Example data for the witnesses\<close>

definition ex_nt :: "pk \<Rightarrow> pk \<Rightarrow> notice_type" where
  "ex_nt k ct = \<lparr>nt_id = k, nt_label = (if k = 1 then ''a'' else if k = 2 then ''b'' else ''c''), nt_display = ''d'',
     nt_description = ''desc'', nt_default = 2, nt_content_type = ct\<rparr>"

definition ex_nts :: "notice_type list" where
  "ex_nts = [ex_nt 1 7, ex_nt 2 7, ex_nt 3 8]"

definition ex_oi :: "pk \<Rightarrow> pk \<Rightarrow> string \<Rightarrow> observed_item" where
  "ex_oi k t sig = \<lparr>oi_id = k, oi_user = 3, oi_notice_type = t, oi_object_id = 9, oi_signal = sig\<rparr>"

section \<open>Lemmas\<close>

fun_cases save_loop_Cons_Inr: "save_loop f now (n # ns) items = Inr items'"

lemmas observers_eval = notification_form_init_def form_get_content_type_def observed_join_def observes_def qs_contains_def
  notices_clean_def delete_lookup_def get_signal_for_notice_type_def observers_wf_def
  pk_distinct_def oi_key_def ex_nt_def ex_nts_def ex_oi_def

lemma set_observed_join:
  "set (observed_join u oid qs items) = {n \<in> set qs. list_ex (observes u oid n) items}"
  by (auto simp: observed_join_def list_ex_iff)

lemma list_ex_observes_keys:
  "list_ex (observes u oid n) items \<longleftrightarrow> (u, nt_id n, oid) \<in> obs_keys items"
  by (force simp: list_ex_iff observes_def obs_keys_def oi_key_def)

lemma qs_contains_observed_join:
  "qs_contains (observed_join u oid qs items) n \<longleftrightarrow>
   qs_contains qs n \<and> (u, nt_id n, oid) \<in> obs_keys items"
proof -
  have eq: "\<And>m. nt_id m = nt_id n \<Longrightarrow> list_ex (observes u oid m) items = list_ex (observes u oid n) items"
    by (simp add: list_ex_iff observes_def)
  have "qs_contains (observed_join u oid qs items) n \<longleftrightarrow>
        (\<exists>m\<in>set qs. list_ex (observes u oid m) items \<and> nt_id m = nt_id n)"
    unfolding qs_contains_def list_ex_iff [of _ "observed_join u oid qs items"] set_observed_join
    by blast
  also have "\<dots> \<longleftrightarrow> qs_contains qs n \<and> list_ex (observes u oid n) items"
    unfolding qs_contains_def list_ex_iff [of _ qs] using eq by blast
  finally show ?thesis by (simp only: list_ex_observes_keys)
qed

lemma observed_join_init:
  "nf_already_observed (notification_form_init ct oid u nts items) =
   observed_join u oid (nf_queryset (notification_form_init ct oid u nts items)) items"
  by (simp add: notification_form_init_def form_get_content_type_def Let_def)

lemma notification_form_init_fields [simp]:
  "nf_user (notification_form_init ct oid u nts items) = u"
  "nf_object_id (notification_form_init ct oid u nts items) = oid"
  "nf_content_type (notification_form_init ct oid u nts items) = ct"
  "nf_queryset (notification_form_init ct oid u nts items) = filter (\<lambda>n. nt_content_type n = ct) nts"
  by (simp_all add: notification_form_init_def form_get_content_type_def Let_def)

lemma qs_contains_self: "n \<in> set qs \<Longrightarrow> qs_contains qs n"
  by (auto simp: qs_contains_def list_ex_iff)

lemma qs_contains_iff_ids: "qs_contains qs n \<longleftrightarrow> nt_id n \<in> nt_id ` set qs"
proof
  assume "qs_contains qs n"
  then obtain m where "m \<in> set qs" "nt_id m = nt_id n" by (auto simp: qs_contains_def list_ex_iff)
  then show "nt_id n \<in> nt_id ` set qs" by (metis image_eqI)
next
  assume "nt_id n \<in> nt_id ` set qs"
  then obtain m where "m \<in> set qs" "nt_id n = nt_id m" by blast
  then show "qs_contains qs n" by (auto simp: qs_contains_def list_ex_iff)
qed

lemma obs_keys_append [simp]: "obs_keys (xs @ [x]) = insert (oi_key x) (obs_keys xs)"
  by (auto simp: obs_keys_def)

lemma oi_key_observe_new [simp]:
  "oi_key (observe_new f n k) = (nf_user f, nt_id n, nf_object_id f)"
  by (simp add: oi_key_def observe_new_def)

lemma delete_lookup_key:
  "list_all (\<lambda>oi. oi_signal oi = ''post_save'') items \<Longrightarrow> oi \<in> set items \<Longrightarrow>
   delete_lookup f n oi \<longleftrightarrow> oi_key oi = (nf_user f, nt_id n, nf_object_id f)"
  by (auto simp: delete_lookup_def observes_def oi_key_def get_signal_for_notice_type_def list_all_iff)

lemma observers_wf_create:
  assumes "observers_wf items" "(nf_user f, nt_id n, nf_object_id f) \<notin> obs_keys items"
  shows "observers_wf (snd (orm_create oi_id (observe_new f n) items))"
proof -
  have "pk_distinct oi_id (snd (orm_create oi_id (observe_new f n) items))"
    using assms(1) by (intro pk_distinct_orm_create) (simp_all add: observers_wf_def observe_new_def)
  with assms show ?thesis
    by (auto simp: observers_wf_def orm_create_snd obs_keys_def observe_new_def
        get_signal_for_notice_type_def oi_key_def)
qed

lemma delete_lookup_unique:
  assumes wf: "observers_wf items" and oi0: "oi0 \<in> set items"
    and k: "oi_key oi0 = (nf_user f, nt_id n, nf_object_id f)"
  shows "orm_get (delete_lookup f n) items = Inr oi0"
proof -
  from wf have sig: "list_all (\<lambda>oi. oi_signal oi = ''post_save'') items"
    and d: "distinct (map oi_key items)" by (simp_all add: observers_wf_def)
  have "filter (delete_lookup f n) items = filter (\<lambda>x. oi_key x = oi_key oi0) items"
    using delete_lookup_key [OF sig] k by (intro filter_cong_member) simp
  also have "\<dots> = [oi0]" using d oi0 by (rule filter_key_distinct)
  finally show ?thesis by simp
qed

lemma observers_wf_delete: "observers_wf items \<Longrightarrow> observers_wf (orm_delete oi_id k items)"
  using pk_distinct_orm_delete [of oi_id items k]
  by (auto simp: observers_wf_def orm_delete_def list_all_iff)

lemma obs_keys_delete:
  assumes wf: "observers_wf items" and oi0: "oi0 \<in> set items"
  shows "obs_keys (orm_delete oi_id (oi_id oi0) items) = obs_keys items - {oi_key oi0}"
proof -
  from wf have "inj_on oi_id (set items)" "inj_on oi_key (set items)"
    by (simp_all add: observers_wf_def pk_distinct_def distinct_map)
  then have "set (orm_delete oi_id (oi_id oi0) items) = set items - {oi0}"
    using oi0 by (auto dest: inj_onD)
  then show ?thesis
    using \<open>inj_on oi_key (set items)\<close> oi0 by (simp add: obs_keys_def inj_on_image_set_diff)
qed

lemma save_notice_spec:
  assumes wf: "observers_wf items"
    and obs: "qs_contains (nf_already_observed f) n \<longleftrightarrow>
              (nf_user f, nt_id n, nf_object_id f) \<in> obs_keys items"
  shows "\<exists>items'. save_notice f now items n = Inr items' \<and> observers_wf items' \<and>
           obs_keys items' =
             (if qs_contains now n then insert (nf_user f, nt_id n, nf_object_id f) (obs_keys items)
              else obs_keys items - {(nf_user f, nt_id n, nf_object_id f)})"
proof (cases "qs_contains now n")
  case want: True
  show ?thesis
  proof (cases "qs_contains (nf_already_observed f) n")
    case True
    with want obs show ?thesis using wf by (auto simp: save_notice_def)
  next
    case False
    with obs have "(nf_user f, nt_id n, nf_object_id f) \<notin> obs_keys items" by simp
    with wf have "observers_wf (snd (orm_create oi_id (observe_new f n) items))"
      by (rule observers_wf_create)
    with want False show ?thesis by (simp add: save_notice_def orm_create_snd)
  qed
next
  case want: False
  show ?thesis
  proof (cases "qs_contains (nf_already_observed f) n")
    case True
    with obs obtain oi0 where oi0: "oi0 \<in> set items"
      and k: "oi_key oi0 = (nf_user f, nt_id n, nf_object_id f)"
      by (auto simp: obs_keys_def)
    have "save_notice f now items n = Inr (orm_delete oi_id (oi_id oi0) items)"
      using want True delete_lookup_unique [OF wf oi0 k] by (simp add: save_notice_def)
    then show ?thesis
      using want observers_wf_delete [OF wf] obs_keys_delete [OF wf oi0] k by simp
  next
    case False
    with want obs show ?thesis using wf by (auto simp: save_notice_def)
  qed
qed

lemma reconcile_spec_empty [simp]: "reconcile_spec u oid {} N K = K"
  by (auto simp: reconcile_spec_def)

lemma reconcile_spec_insert:
  "t \<notin> Q \<Longrightarrow>
   reconcile_spec u oid (insert t Q) N K =
   reconcile_spec u oid Q N (if t \<in> N then insert (u, t, oid) K else K - {(u, t, oid)})"
  by (auto simp: reconcile_spec_def)

lemma save_loop_spec:
  assumes "observers_wf items" and "distinct (map nt_id ns)"
    and "\<forall>n\<in>set ns. qs_contains (nf_already_observed f) n \<longleftrightarrow>
                     (nf_user f, nt_id n, nf_object_id f) \<in> obs_keys items"
  shows "\<exists>items'. save_loop f now ns items = Inr items' \<and> observers_wf items' \<and>
           obs_keys items' =
             reconcile_spec (nf_user f) (nf_object_id f) (nt_id ` set ns) (nt_id ` set now)
               (obs_keys items)"
  using assms
proof (induction ns arbitrary: items)
  case Nil
  then show ?case by simp
next
  case (Cons n ns)
  let ?k = "\<lambda>m. (nf_user f, nt_id m, nf_object_id f)"
  let ?K1 = "if nt_id n \<in> nt_id ` set now then insert (?k n) (obs_keys items)
             else obs_keys items - {?k n}"
  from Cons.prems obtain items1 where s1: "save_notice f now items n = Inr items1"
    and wf1: "observers_wf items1" and K1: "obs_keys items1 = ?K1"
    using save_notice_spec [of items f n now] by (auto simp: qs_contains_iff_ids [of now])
  from Cons.prems(2) have fresh: "nt_id n \<notin> nt_id ` set ns" and dist: "distinct (map nt_id ns)"
    by auto
  have "\<forall>m\<in>set ns. qs_contains (nf_already_observed f) m \<longleftrightarrow> ?k m \<in> obs_keys items1"
  proof
    fix m assume m: "m \<in> set ns"
    with fresh have "?k m \<noteq> ?k n" by (auto simp: image_iff)
    with m Cons.prems(3) K1 show "qs_contains (nf_already_observed f) m \<longleftrightarrow> ?k m \<in> obs_keys items1"
      by auto
  qed
  with Cons.IH [OF wf1 dist] obtain items' where
    "save_loop f now ns items1 = Inr items'" "observers_wf items'"
    "obs_keys items' = reconcile_spec (nf_user f) (nf_object_id f) (nt_id ` set ns) (nt_id ` set now) ?K1"
    using K1 by auto
  with s1 fresh show ?case by (simp add: reconcile_spec_insert)
qed

lemma notices_clean_ids:
  "notices_clean f vals = Inr now \<Longrightarrow>
   nt_id ` set now = nt_id ` set (nf_queryset f) \<inter> set vals"
  by (auto simp: notices_clean_def split: if_splits)

lemma notification_form_save_effect:
  assumes wf: "observers_wf items" and nts: "pk_distinct nt_id nts"
    and f: "f = notification_form_init ct oid u nts items"
    and clean: "notices_clean f vals = Inr now"
  shows "\<exists>items'. notification_form_save f now items = Inr items' \<and> observers_wf items' \<and>
           obs_keys items' =
             reconcile_spec u oid (nt_id ` {n \<in> set nts. nt_content_type n = ct}) (set vals)
               (obs_keys items)"
proof -
  let ?qs = "nf_queryset f"
  have dist: "distinct (map nt_id ?qs)"
    using nts f by (simp add: pk_distinct_def distinct_map_filter_keep)
  have obs: "\<forall>n\<in>set ?qs. qs_contains (nf_already_observed f) n \<longleftrightarrow>
                 (nf_user f, nt_id n, nf_object_id f) \<in> obs_keys items"
    using f by (simp add: observed_join_init qs_contains_observed_join qs_contains_self)
  have "reconcile_spec u oid (nt_id ` set ?qs) (nt_id ` set now) (obs_keys items) =
        reconcile_spec u oid (nt_id ` set ?qs) (set vals) (obs_keys items)"
    using notices_clean_ids [OF clean] by (auto simp: reconcile_spec_def)
  with save_loop_spec [OF wf dist obs, of now] f show ?thesis
    by (simp add: notification_form_save_def)
qed

text \<open>
  C1: on a table satisfying the invariant, with a validly cleaned selection, the form's
  save succeeds, keeps the invariant, and leaves exactly the subscriptions the contract
  prescribes: the user's subscriptions on the object among the form's notice types become
  the selected ones, every other subscription is unchanged.
\<close>

theorem notification_form_save_refines:
  assumes wf: "observers_wf items" and nts: "pk_distinct nt_id nts"
    and f: "f = notification_form_init ct oid u nts items"
    and clean: "notices_clean f vals = Inr now"
  shows "\<exists>items'. notification_form_save f now items = Inr items' \<and> observers_wf items' \<and>
           obs_keys items' =
             reconcile_spec u oid (nt_id ` {n \<in> set nts. nt_content_type n = ct}) (set vals)
               (obs_keys items)"
  using assms by (rule notification_form_save_effect)

lemma save_loop_noop:
  "\<forall>n\<in>set ns. qs_contains now n = qs_contains (nf_already_observed f) n \<Longrightarrow>
   save_loop f now ns items = Inr items"
  by (induction ns) (auto simp: save_notice_def)

lemma notices_clean_initial_contains:
  assumes f: "f = notification_form_init ct oid u nts items"
    and clean: "notices_clean f (nf_initial f) = Inr now" and n: "n \<in> set (nf_queryset f)"
  shows "qs_contains now n = qs_contains (nf_already_observed f) n"
proof (cases "nf_initial f = []")
  case True
  then have "nf_already_observed f = []" using f by (simp add: notification_form_init_def form_get_content_type_def Let_def)
  with True clean show ?thesis by (simp add: notices_clean_def qs_contains_def)
next
  case False
  have init: "nf_initial f = map nt_id (nf_already_observed f)"
    using f by (simp add: notification_form_init_def form_get_content_type_def Let_def)
  from False clean have now: "now = filter (\<lambda>m. nt_id m \<in> set (nf_initial f)) (nf_queryset f)"
    by (simp add: notices_clean_def split: if_splits)
  have "qs_contains now n \<longleftrightarrow> nt_id n \<in> nt_id ` set (nf_already_observed f)"
    unfolding now qs_contains_iff_ids init using n by auto
  then show ?thesis by (simp add: qs_contains_iff_ids)
qed

text \<open>
  C2: submitting the form with its initial selection (the notice types the user already
  observes) changes no row of the table.
\<close>

theorem notification_form_save_initial_noop:
  assumes "f = notification_form_init ct oid u nts items"
    and "notices_clean f (nf_initial f) = Inr now"
  shows "notification_form_save f now items = Inr items"
  unfolding notification_form_save_def
  using notices_clean_initial_contains [OF assms] by (intro save_loop_noop) blast

text \<open>
  C3: unchecking a notice type that the form lists as observed raises DoesNotExist when no
  row for it carries the signal \<open>post_save\<close>: the form's "already observed" query
  ignores the signal, the lookup before the delete does not.
\<close>

theorem save_notice_missing_row:
  assumes "\<not> qs_contains now n" and "qs_contains (nf_already_observed f) n"
    and "\<not> list_ex (delete_lookup f n) items"
  shows "save_notice f now items n = Inl (DoesNotExist, items)"
  using assms orm_get_DoesNotExist_iff [of "delete_lookup f n" items]
  by (simp add: save_notice_def)

text \<open>
  C4: unchecking a notice type raises MultipleObjectsReturned when the user has two or more
  \<open>post_save\<close> rows for it on the object.
\<close>

theorem save_notice_duplicate_rows:
  assumes "\<not> qs_contains now n" and "qs_contains (nf_already_observed f) n"
    and "2 \<le> length (filter (delete_lookup f n) items)"
  shows "save_notice f now items n = Inl (MultipleObjectsReturned, items)"
  using assms orm_get_Multiple_iff [of "delete_lookup f n" items]
  by (simp add: save_notice_def)

subsection \<open>Bounds\<close>

text \<open>The notice types for which the loop body creates a row: checked and not already observed.\<close>

lemma save_notice_length:
  "save_notice f now items n = Inr items' \<Longrightarrow>
   length items' \<le> length items + (if qs_contains now n \<and> \<not> qs_contains (nf_already_observed f) n then 1 else 0)"
  by (auto simp: save_notice_def Let_def orm_create_snd orm_delete_def split: if_splits
           intro: le_trans [OF length_filter_le])

lemma save_loop_length:
  "save_loop f now ns items = Inr items' \<Longrightarrow>
   length items' \<le> length items +
     length (filter (\<lambda>n. qs_contains now n \<and> \<not> qs_contains (nf_already_observed f) n) ns)"
proof (induction ns arbitrary: items)
  case (Cons n ns)
  from Cons.prems obtain items1 where s: "save_notice f now items n = Inr items1"
    and l: "save_loop f now ns items1 = Inr items'" by (auto elim: save_loop_Cons_Inr)
  from save_notice_length [OF s] Cons.IH [OF l] show ?case by (simp split: if_splits)
qed simp

text \<open>
  C30: On any table, saving the subscription form adds at most one ObservedItem row per
  notice type of the form's queryset that is checked and not already observed; a type the
  user already observes never gets a second row.
\<close>

theorem notification_form_save_bounds:
  "notification_form_save f now items = Inr items' \<Longrightarrow>
   length items' \<le> length items +
     length (filter (\<lambda>n. qs_contains now n \<and> \<not> qs_contains (nf_already_observed f) n) (nf_queryset f))"
  unfolding notification_form_save_def by (rule save_loop_length)

subsection \<open>Witnesses\<close>

theorem notification_form_save_refines_witness:
  "observers_wf [ex_oi 5 1 ''post_save''] \<and> pk_distinct nt_id ex_nts \<and>
   notices_clean (notification_form_init 7 9 3 ex_nts [ex_oi 5 1 ''post_save'']) [2] = Inr [ex_nt 2 7] \<and>
   (\<exists>items'. notification_form_save (notification_form_init 7 9 3 ex_nts [ex_oi 5 1 ''post_save''])
       [ex_nt 2 7] [ex_oi 5 1 ''post_save''] = Inr items' \<and> observers_wf items' \<and>
     obs_keys items' = reconcile_spec 3 9 (nt_id ` {n \<in> set ex_nts. nt_content_type n = 7}) (set [2])
       (obs_keys [ex_oi 5 1 ''post_save'']))"
proof -
  have h1: "observers_wf [ex_oi 5 1 ''post_save'']" by (simp add: observers_eval)
  have h2: "pk_distinct nt_id ex_nts" by (simp add: observers_eval)
  have h3: "notices_clean (notification_form_init 7 9 3 ex_nts [ex_oi 5 1 ''post_save'']) [2] = Inr [ex_nt 2 7]"
    by (simp add: observers_eval)
  show ?thesis using h1 h2 h3 notification_form_save_refines [OF h1 h2 refl h3] by blast
qed

theorem notification_form_save_initial_noop_witness:
  "notices_clean (notification_form_init 7 9 3 ex_nts [ex_oi 5 1 ''post_save''])
     (nf_initial (notification_form_init 7 9 3 ex_nts [ex_oi 5 1 ''post_save''])) = Inr [ex_nt 1 7] \<and>
   notification_form_save (notification_form_init 7 9 3 ex_nts [ex_oi 5 1 ''post_save'']) [ex_nt 1 7]
     [ex_oi 5 1 ''post_save''] = Inr [ex_oi 5 1 ''post_save'']"
proof -
  have h: "notices_clean (notification_form_init 7 9 3 ex_nts [ex_oi 5 1 ''post_save''])
     (nf_initial (notification_form_init 7 9 3 ex_nts [ex_oi 5 1 ''post_save''])) = Inr [ex_nt 1 7]"
    by (simp add: observers_eval)
  show ?thesis using h notification_form_save_initial_noop [OF refl h] by blast
qed

theorem save_notice_missing_row_witness:
  "\<not> qs_contains [] (ex_nt 1 7) \<and>
   qs_contains (nf_already_observed (notification_form_init 7 9 3 ex_nts [ex_oi 5 1 ''pre_save''])) (ex_nt 1 7) \<and>
   \<not> list_ex (delete_lookup (notification_form_init 7 9 3 ex_nts [ex_oi 5 1 ''pre_save'']) (ex_nt 1 7))
       [ex_oi 5 1 ''pre_save''] \<and>
   save_notice (notification_form_init 7 9 3 ex_nts [ex_oi 5 1 ''pre_save'']) [] [ex_oi 5 1 ''pre_save'']
     (ex_nt 1 7) = Inl (DoesNotExist, [ex_oi 5 1 ''pre_save''])"
proof -
  let ?f = "notification_form_init 7 9 3 ex_nts [ex_oi 5 1 ''pre_save'']"
  have h1: "\<not> qs_contains [] (ex_nt 1 7)" by (simp add: observers_eval)
  have h2: "qs_contains (nf_already_observed ?f) (ex_nt 1 7)" by (simp add: observers_eval)
  have h3: "\<not> list_ex (delete_lookup ?f (ex_nt 1 7)) [ex_oi 5 1 ''pre_save'']"
    by (simp add: observers_eval)
  show ?thesis using h1 h2 h3 save_notice_missing_row [OF h1 h2 h3] by blast
qed

theorem save_notice_duplicate_rows_witness:
  "\<not> qs_contains [] (ex_nt 1 7) \<and>
   qs_contains (nf_already_observed (notification_form_init 7 9 3 ex_nts
       [ex_oi 5 1 ''post_save'', ex_oi 6 1 ''post_save''])) (ex_nt 1 7) \<and>
   2 \<le> length (filter (delete_lookup (notification_form_init 7 9 3 ex_nts
       [ex_oi 5 1 ''post_save'', ex_oi 6 1 ''post_save'']) (ex_nt 1 7))
       [ex_oi 5 1 ''post_save'', ex_oi 6 1 ''post_save'']) \<and>
   save_notice (notification_form_init 7 9 3 ex_nts [ex_oi 5 1 ''post_save'', ex_oi 6 1 ''post_save''])
     [] [ex_oi 5 1 ''post_save'', ex_oi 6 1 ''post_save''] (ex_nt 1 7) =
     Inl (MultipleObjectsReturned, [ex_oi 5 1 ''post_save'', ex_oi 6 1 ''post_save''])"
proof -
  let ?items = "[ex_oi 5 1 ''post_save'', ex_oi 6 1 ''post_save'']"
  let ?f = "notification_form_init 7 9 3 ex_nts ?items"
  have h1: "\<not> qs_contains [] (ex_nt 1 7)" by (simp add: observers_eval)
  have h2: "qs_contains (nf_already_observed ?f) (ex_nt 1 7)" by (simp add: observers_eval)
  have h3: "2 \<le> length (filter (delete_lookup ?f (ex_nt 1 7)) ?items)"
    by (simp add: observers_eval)
  show ?thesis using h1 h2 h3 save_notice_duplicate_rows [OF h1 h2 h3] by blast
qed

theorem notification_form_save_bounds_witness:
  "notification_form_save (notification_form_init 7 9 3 ex_nts [ex_oi 5 1 ''post_save'']) [ex_nt 1 7, ex_nt 2 7]
     [ex_oi 5 1 ''post_save''] = Inr [ex_oi 5 1 ''post_save'', ex_oi 6 2 ''post_save''] \<and>
   length [ex_oi 5 1 ''post_save'', ex_oi 6 2 ''post_save''] \<le>
     length [ex_oi 5 1 ''post_save''] +
     length (filter (\<lambda>n. qs_contains [ex_nt 1 7, ex_nt 2 7] n \<and>
         \<not> qs_contains (nf_already_observed (notification_form_init 7 9 3 ex_nts [ex_oi 5 1 ''post_save''])) n)
       (nf_queryset (notification_form_init 7 9 3 ex_nts [ex_oi 5 1 ''post_save''])))"
proof -
  have run: "notification_form_save (notification_form_init 7 9 3 ex_nts [ex_oi 5 1 ''post_save'']) [ex_nt 1 7, ex_nt 2 7]
     [ex_oi 5 1 ''post_save''] = Inr [ex_oi 5 1 ''post_save'', ex_oi 6 2 ''post_save'']"
    by (simp add: observers_eval notification_form_save_def save_notice_def orm_create_def orm_next_pk_def
                  observe_new_def get_signal_for_notice_type_def ex_oi_def Let_def)
  show ?thesis using run notification_form_save_bounds [OF run] by simp
qed

end
