(* ===== verification/Settings.thy ===== *)
theory Settings
  imports Observers
begin

text \<open>
  The delivery-preference matrix of \<open>notice_settings\<close> (src/notification/views.py):
  one row per notice type, one cell per delivery medium of \<open>NOTICE_MEDIA\<close>, each cell
  backed by a \<open>NoticeSetting\<close> row that \<open>get_notification_setting\<close> (models.py)
  fetches or creates with its default. A POST sets each cell to whether its form field
  was \<open>on\<close>, saving a setting only when its value changes, and redirects; a GET renders
  the matrix. The table of settings is kept with the log of \<open>save()\<close> calls, since
  each save emits Django's \<open>post_save\<close> signal. The theory proves what a POST stores,
  that no save is redundant, that a GET changes no stored value, that a repeated POST
  writes nothing, and when two cells share a form field. The error paths: the view
  raises exactly when a missing setting has no default (\<open>cell_fails\<close>), and then with
  \<open>KeyError\<close>.
\<close>

section \<open>Data\<close>

record notice_setting =
  ns_id :: pk
  ns_user :: uid
  ns_notice_type :: pk
  ns_medium :: string
  ns_send :: bool

record settings_db =
  sdb_rows :: "notice_setting list"
  sdb_saved :: "notice_setting list"

text \<open>\<open>NOTICE_MEDIA\<close> (medium id, display name) and \<open>NOTICE_MEDIA_DEFAULTS\<close>.\<close>

type_synonym notice_media = "(string \<times> string) list"
type_synonym media_defaults = "string \<Rightarrow> nat option"

datatype settings_response =
    SettingsRedirect string
  | SettingsPage "notice_type list" "string list" "(notice_type \<times> (string \<times> bool) list) list"

section \<open>Operations\<close>

definition setting_save :: "notice_setting \<Rightarrow> settings_db \<Rightarrow> settings_db" where
  "setting_save s db = db\<lparr>sdb_rows := orm_save ns_id s (sdb_rows db), sdb_saved := sdb_saved db @ [s]\<rparr>"

definition setting_key :: "notice_setting \<Rightarrow> uid \<times> pk \<times> string" where
  "setting_key s = (ns_user s, ns_notice_type s, ns_medium s)"

text \<open>
  \<open>get_notification_setting\<close> of notification/models.py: the setting of the user,
  notice type and medium, or a new one whose \<open>send\<close> is
  \<open>NOTICE_MEDIA_DEFAULTS[medium] <= notice_type.default\<close>, saved at once.
\<close>

definition get_notification_setting ::
  "media_defaults \<Rightarrow> uid \<Rightarrow> notice_type \<Rightarrow> string \<Rightarrow> settings_db \<Rightarrow>
   py_error \<times> settings_db + notice_setting \<times> settings_db" where
  "get_notification_setting defs u nt m db =
     (case orm_get (\<lambda>s. setting_key s = (u, nt_id nt, m)) (sdb_rows db) of
        Inr s \<Rightarrow> Inr (s, db)
      | Inl DoesNotExist \<Rightarrow>
          (case defs m of
             None \<Rightarrow> Inl (KeyError, db)
           | Some d \<Rightarrow>
               (let s = \<lparr>ns_id = orm_next_pk ns_id (sdb_rows db), ns_user = u,
                         ns_notice_type = nt_id nt, ns_medium = m, ns_send = (d \<le> nt_default nt)\<rparr>
                in Inr (s, setting_save s db)))
      | Inl e \<Rightarrow> Inl (e, db))"

text \<open>\<open>"%s_%s" % (notice_type.label, medium_id)\<close>.\<close>

definition form_label :: "notice_type \<Rightarrow> string \<Rightarrow> string" where
  "form_label nt m = nt_label nt @ ''_'' @ m"

text \<open>The POST branch of one cell: set \<open>send\<close> from the form field, saving only a change.\<close>

definition settings_cell_post ::
  "query_dict \<Rightarrow> string \<Rightarrow> notice_setting \<Rightarrow> settings_db \<Rightarrow> bool \<times> settings_db" where
  "settings_cell_post post label s db =
     (if qd_get post label = Some ''on'' then
        (if \<not> ns_send s then (True, setting_save (s\<lparr>ns_send := True\<rparr>) db) else (ns_send s, db))
      else
        (if ns_send s then (False, setting_save (s\<lparr>ns_send := False\<rparr>) db) else (ns_send s, db)))"

text \<open>One cell of the inner loop of \<open>notice_settings\<close>.\<close>

definition settings_cell ::
  "media_defaults \<Rightarrow> uid \<Rightarrow> http_method \<Rightarrow> query_dict \<Rightarrow> notice_type \<Rightarrow> string \<Rightarrow>
   settings_db \<Rightarrow> py_error \<times> settings_db + (string \<times> bool) \<times> settings_db" where
  "settings_cell defs u meth post nt m db =
     (let label = form_label nt m in
      sbind (get_notification_setting defs u nt m db) (\<lambda>(s, db1).
        if meth = POST then
          (case settings_cell_post post label s db1 of (b, db2) \<Rightarrow> Inr ((label, b), db2))
        else Inr ((label, ns_send s), db1)))"

fun settings_row ::
  "media_defaults \<Rightarrow> uid \<Rightarrow> http_method \<Rightarrow> query_dict \<Rightarrow> notice_type \<Rightarrow> notice_media \<Rightarrow>
   settings_db \<Rightarrow> py_error \<times> settings_db + (string \<times> bool) list \<times> settings_db" where
  "settings_row defs u meth post nt [] db = Inr ([], db)"
| "settings_row defs u meth post nt ((m, disp) # ms) db =
     sbind (settings_cell defs u meth post nt m db) (\<lambda>(c, db1).
       sbind (settings_row defs u meth post nt ms db1) (\<lambda>(cs, db2). Inr (c # cs, db2)))"

fun settings_table ::
  "media_defaults \<Rightarrow> notice_media \<Rightarrow> uid \<Rightarrow> http_method \<Rightarrow> query_dict \<Rightarrow> notice_type list \<Rightarrow>
   settings_db \<Rightarrow> py_error \<times> settings_db + (notice_type \<times> (string \<times> bool) list) list \<times> settings_db" where
  "settings_table defs media u meth post [] db = Inr ([], db)"
| "settings_table defs media u meth post (nt # nts) db =
     sbind (settings_row defs u meth post nt media db) (\<lambda>(cs, db1).
       sbind (settings_table defs media u meth post nts db1) (\<lambda>(rows, db2). Inr ((nt, cs) # rows, db2)))"

text \<open>The view \<open>notice_settings\<close> (after \<open>login_required\<close>).\<close>

definition notice_settings ::
  "media_defaults \<Rightarrow> notice_media \<Rightarrow> user \<Rightarrow> http_method \<Rightarrow> query_dict \<Rightarrow> notice_type list \<Rightarrow>
   settings_db \<Rightarrow> py_error \<times> settings_db + settings_response \<times> settings_db" where
  "notice_settings defs media usr meth post nts db =
     sbind (settings_table defs media (user_id usr) meth post nts db) (\<lambda>(table, db1).
       if meth = POST then Inr (SettingsRedirect (qd_get_default post ''next_page'' ''.''), db1)
       else Inr (SettingsPage nts (map snd media) table, db1))"

section \<open>Abstraction and contract\<close>

definition send_map :: "settings_db \<Rightarrow> uid \<times> pk \<times> string \<Rightarrow> bool option" where
  "send_map db = table_map setting_key ns_send (sdb_rows db)"

definition settings_wf :: "settings_db \<Rightarrow> bool" where
  "settings_wf db \<longleftrightarrow> pk_distinct ns_id (sdb_rows db) \<and> distinct (map setting_key (sdb_rows db))"

text \<open>The cells of the matrix in the order the view visits them.\<close>

definition settings_cells :: "notice_media \<Rightarrow> notice_type list \<Rightarrow> (notice_type \<times> string) list" where
  "settings_cells media nts = concat (map (\<lambda>nt. map (\<lambda>md. (nt, fst md)) media) nts)"

definition cell_key :: "uid \<Rightarrow> notice_type \<times> string \<Rightarrow> uid \<times> pk \<times> string" where
  "cell_key u c = (u, nt_id (fst c), snd c)"

definition cell_post_value :: "query_dict \<Rightarrow> notice_type \<times> string \<Rightarrow> bool" where
  "cell_post_value post c \<longleftrightarrow> qd_get post (form_label (fst c) (snd c)) = Some ''on''"

text \<open>
  The contract of a POST: the stored preferences are the old ones with each cell of the
  matrix set to whether its form field was \<open>on\<close>.
\<close>

definition settings_post_spec ::
  "uid \<Rightarrow> query_dict \<Rightarrow> (notice_type \<times> string) list \<Rightarrow>
   (uid \<times> pk \<times> string \<Rightarrow> bool option) \<Rightarrow> uid \<times> pk \<times> string \<Rightarrow> bool option" where
  "settings_post_spec u post cells K = fold (\<lambda>c K. K(cell_key u c \<mapsto> cell_post_value post c)) cells K"

text \<open>Every \<open>save()\<close> logged from \<open>db\<close> to \<open>db'\<close> wrote one of the keys \<open>ks\<close> with a value that differed from the one stored in \<open>db\<close>.\<close>

definition saves_needed :: "settings_db \<Rightarrow> settings_db \<Rightarrow> (uid \<times> pk \<times> string) set \<Rightarrow> bool" where
  "saves_needed db db' ks \<longleftrightarrow>
     (\<exists>new. sdb_saved db' = sdb_saved db @ new \<and>
        list_all (\<lambda>s. setting_key s \<in> ks \<and> send_map db (setting_key s) \<noteq> Some (ns_send s)) new)"

text \<open>A cell whose setting is missing and whose medium has no default: \<open>get_notification_setting\<close> raises \<open>KeyError\<close> there.\<close>

definition cell_fails :: "media_defaults \<Rightarrow> settings_db \<Rightarrow> uid \<Rightarrow> notice_type \<times> string \<Rightarrow> bool" where
  "cell_fails defs db u c \<longleftrightarrow> send_map db (cell_key u c) = None \<and> defs (snd c) = None"


section \<open>Example data for the witnesses\<close>

definition ex_defaults :: media_defaults where
  "ex_defaults m = (if m = ''1'' then Some 2 else None)"

definition ex_media :: notice_media where
  "ex_media = [(''1'', ''Email'')]"

definition ex_user :: user where
  "ex_user = \<lparr>user_id = 3, username = ''bob'', is_superuser = False\<rparr>"

definition ex_settings_db :: settings_db where
  "ex_settings_db = \<lparr>sdb_rows = [\<lparr>ns_id = 1, ns_user = 3, ns_notice_type = 1, ns_medium = ''1'', ns_send = True\<rparr>],
                     sdb_saved = []\<rparr>"

section \<open>Lemmas\<close>

lemmas settings_eval = ex_defaults_def ex_media_def ex_user_def ex_settings_db_def settings_wf_def
  pk_distinct_def setting_key_def ex_nt_def form_label_def


lemma settings_wf_keys: "settings_wf db \<Longrightarrow> distinct (map setting_key (sdb_rows db))"
  by (simp add: settings_wf_def)

lemma send_map_member:
  "settings_wf db \<Longrightarrow> s \<in> set (sdb_rows db) \<Longrightarrow> send_map db (setting_key s) = Some (ns_send s)"
  by (auto simp: send_map_def table_map_Some_iff settings_wf_keys)

lemma send_map_None_iff: "send_map db k = None \<longleftrightarrow> k \<notin> setting_key ` set (sdb_rows db)"
  by (simp add: send_map_def table_map_None_iff)

lemma get_setting_existing:
  assumes wf: "settings_wf db" and s0: "s0 \<in> set (sdb_rows db)" and k: "setting_key s0 = (u, nt_id nt, m)"
  shows "get_notification_setting defs u nt m db = Inr (s0, db)"
proof -
  have "filter (\<lambda>s. setting_key s = setting_key s0) (sdb_rows db) = [s0]"
    using settings_wf_keys [OF wf] s0 by (rule filter_key_distinct)
  with k have g: "orm_get (\<lambda>s. setting_key s = (u, nt_id nt, m)) (sdb_rows db) = Inr s0" by simp
  show ?thesis unfolding get_notification_setting_def g by simp
qed

lemma get_setting_missing:
  assumes "(u, nt_id nt, m) \<notin> setting_key ` set (sdb_rows db)" and "defs m = Some d"
  shows "\<exists>s. get_notification_setting defs u nt m db = Inr (s, setting_save s db) \<and>
             ns_id s = orm_next_pk ns_id (sdb_rows db) \<and> setting_key s = (u, nt_id nt, m)"
proof -
  have "orm_get (\<lambda>s. setting_key s = (u, nt_id nt, m)) (sdb_rows db) = Inl DoesNotExist"
    using assms(1) by (force simp: orm_get_DoesNotExist_iff list_ex_iff image_iff)
  with assms(2) show ?thesis
    by (simp add: get_notification_setting_def setting_key_def Let_def)
qed

lemma get_setting_KeyError:
  assumes "(u, nt_id nt, m) \<notin> setting_key ` set (sdb_rows db)" and "defs m = None"
  shows "get_notification_setting defs u nt m db = Inl (KeyError, db)"
proof -
  have "orm_get (\<lambda>s. setting_key s = (u, nt_id nt, m)) (sdb_rows db) = Inl DoesNotExist"
    using assms(1) by (force simp: orm_get_DoesNotExist_iff list_ex_iff image_iff)
  with assms(2) show ?thesis by (simp add: get_notification_setting_def)
qed

lemma setting_save_new:
  assumes wf: "settings_wf db" and pk: "ns_id s = orm_next_pk ns_id (sdb_rows db)"
    and k: "setting_key s \<notin> setting_key ` set (sdb_rows db)"
  shows "settings_wf (setting_save s db) \<and>
         send_map (setting_save s db) = (send_map db)(setting_key s \<mapsto> ns_send s) \<and>
         sdb_saved (setting_save s db) = sdb_saved db @ [s] \<and> s \<in> set (sdb_rows (setting_save s db))"
proof -
  have nu: "\<not> list_ex (\<lambda>x. ns_id x = ns_id s) (sdb_rows db)"
    using orm_next_pk_not_used [of ns_id "sdb_rows db"] pk by simp
  then have rows: "sdb_rows (setting_save s db) = sdb_rows db @ [s]"
    by (simp add: setting_save_def orm_save_def)
  have "pk_distinct ns_id (sdb_rows db @ [s])"
    using wf nu by (auto simp: settings_wf_def pk_distinct_def list_ex_iff)
  moreover have "distinct (map setting_key (sdb_rows db @ [s]))"
    using settings_wf_keys [OF wf] k by simp
  ultimately show ?thesis
    using k rows by (simp add: settings_wf_def send_map_def table_map_append_new setting_save_def)
qed

lemma setting_save_existing:
  assumes wf: "settings_wf db" and s0: "s0 \<in> set (sdb_rows db)"
  shows "settings_wf (setting_save (s0\<lparr>ns_send := b\<rparr>) db) \<and>
         send_map (setting_save (s0\<lparr>ns_send := b\<rparr>) db) = (send_map db)(setting_key s0 \<mapsto> b) \<and>
         sdb_saved (setting_save (s0\<lparr>ns_send := b\<rparr>) db) = sdb_saved db @ [s0\<lparr>ns_send := b\<rparr>]"
proof -
  let ?s = "s0\<lparr>ns_send := b\<rparr>"
  have pk: "pk_distinct ns_id (sdb_rows db)" using wf by (simp add: settings_wf_def)
  have same: "ns_id s0 = ns_id ?s" "setting_key s0 = setting_key ?s"
    by (simp_all add: setting_key_def)
  have "table_map setting_key ns_send (orm_save ns_id ?s (sdb_rows db)) =
        (table_map setting_key ns_send (sdb_rows db))(setting_key ?s \<mapsto> ns_send ?s)"
    by (rule table_map_orm_save_existing [OF pk settings_wf_keys [OF wf] s0 same])
  moreover have "distinct (map setting_key (orm_save ns_id ?s (sdb_rows db)))"
    using map_key_orm_save_existing_key [OF pk s0 same] settings_wf_keys [OF wf] by simp
  moreover have "pk_distinct ns_id (orm_save ns_id ?s (sdb_rows db))"
    using pk by (rule pk_distinct_orm_save)
  ultimately show ?thesis
    using same(2) by (simp add: settings_wf_def send_map_def setting_save_def)
qed

lemma settings_cell_post_spec:
  assumes wf: "settings_wf db" and s: "s \<in> set (sdb_rows db)"
  shows "\<exists>db'. settings_cell_post post label s db = (qd_get post label = Some ''on'', db') \<and>
           settings_wf db' \<and>
           send_map db' = (send_map db)(setting_key s \<mapsto> qd_get post label = Some ''on'') \<and>
           (\<exists>new. sdb_saved db' = sdb_saved db @ new \<and>
              list_all (\<lambda>s'. setting_key s' = setting_key s \<and> ns_send s' \<noteq> ns_send s) new)"
proof -
  have sm: "send_map db (setting_key s) = Some (ns_send s)" using send_map_member [OF wf s] .
  show ?thesis
  proof (cases "qd_get post label = Some ''on'' \<longleftrightarrow> ns_send s")
    case True
    then have "settings_cell_post post label s db = (ns_send s, db)"
      by (auto simp: settings_cell_post_def)
    with True wf sm show ?thesis by (auto simp: fun_upd_idem)
  next
    case False
    then have "settings_cell_post post label s db =
       (qd_get post label = Some ''on'', setting_save (s\<lparr>ns_send := qd_get post label = Some ''on''\<rparr>) db)"
      by (auto simp: settings_cell_post_def)
    with False setting_save_existing [OF wf s, of "qd_get post label = Some ''on''"] show ?thesis
      by (auto simp: setting_key_def)
  qed
qed

lemma saves_needed_refl [simp]: "saves_needed db db ks"
  by (simp add: saves_needed_def)

lemma saves_needed_trans:
  assumes "saves_needed db db1 A" and "saves_needed db1 db2 B"
    and "\<forall>k\<in>B. send_map db1 k = send_map db k"
  shows "saves_needed db db2 (A \<union> B)"
  using assms by (fastforce simp: saves_needed_def list_all_iff)

lemma settings_cell_POST:
  assumes wf: "settings_wf db" and d: "defs m \<noteq> None"
  shows "\<exists>db'. settings_cell defs u POST post nt m db =
             Inr ((form_label nt m, cell_post_value post (nt, m)), db') \<and>
           settings_wf db' \<and>
           send_map db' = (send_map db)(cell_key u (nt, m) \<mapsto> cell_post_value post (nt, m)) \<and>
           saves_needed db db' {cell_key u (nt, m)}"
proof (cases "cell_key u (nt, m) \<in> setting_key ` set (sdb_rows db)")
  case True
  then obtain s0 where s0: "s0 \<in> set (sdb_rows db)" and k: "setting_key s0 = (u, nt_id nt, m)"
    by (auto simp: cell_key_def)
  have g: "get_notification_setting defs u nt m db = Inr (s0, db)"
    using wf s0 k by (rule get_setting_existing)
  obtain db' new where c: "settings_cell_post post (form_label nt m) s0 db =
         (qd_get post (form_label nt m) = Some ''on'', db')"
    and wf': "settings_wf db'"
    and sm: "send_map db' = (send_map db)(setting_key s0 \<mapsto> qd_get post (form_label nt m) = Some ''on'')"
    and sv: "sdb_saved db' = sdb_saved db @ new"
    and nw: "list_all (\<lambda>s'. setting_key s' = setting_key s0 \<and> ns_send s' \<noteq> ns_send s0) new"
    using settings_cell_post_spec [OF wf s0, of post "form_label nt m"] by blast
  have "saves_needed db db' {cell_key u (nt, m)}"
    using sv nw send_map_member [OF wf s0] k
    by (auto simp: saves_needed_def list_all_iff cell_key_def)
  with g c wf' sm k show ?thesis
    by (simp add: settings_cell_def cell_post_value_def cell_key_def Let_def)
next
  case False
  from d obtain dd where dd: "defs m = Some dd" by auto
  from False have nk: "(u, nt_id nt, m) \<notin> setting_key ` set (sdb_rows db)"
    by (simp add: cell_key_def)
  obtain s where g: "get_notification_setting defs u nt m db = Inr (s, setting_save s db)"
    and pk: "ns_id s = orm_next_pk ns_id (sdb_rows db)" and k: "setting_key s = (u, nt_id nt, m)"
    using get_setting_missing [of u nt m db defs dd, OF nk dd] by blast
  let ?db1 = "setting_save s db"
  have wf1: "settings_wf ?db1" and sm1: "send_map ?db1 = (send_map db)(setting_key s \<mapsto> ns_send s)"
    and sv1: "sdb_saved ?db1 = sdb_saved db @ [s]" and s1: "s \<in> set (sdb_rows ?db1)"
    using setting_save_new [OF wf pk] k nk by simp_all
  obtain db' new where c: "settings_cell_post post (form_label nt m) s ?db1 =
         (qd_get post (form_label nt m) = Some ''on'', db')"
    and wf': "settings_wf db'"
    and sm: "send_map db' = (send_map ?db1)(setting_key s \<mapsto> qd_get post (form_label nt m) = Some ''on'')"
    and sv: "sdb_saved db' = sdb_saved ?db1 @ new"
    and nw: "list_all (\<lambda>s'. setting_key s' = setting_key s \<and> ns_send s' \<noteq> ns_send s) new"
    using settings_cell_post_spec [OF wf1 s1, of post "form_label nt m"] by blast
  have none: "send_map db (u, nt_id nt, m) = None" using nk by (simp add: send_map_None_iff)
  have "saves_needed db db' {cell_key u (nt, m)}"
    unfolding saves_needed_def
    by (rule exI [of _ "s # new"]) (use sv sv1 nw k none in \<open>auto simp: list_all_iff cell_key_def\<close>)
  with g c wf' sm sm1 k show ?thesis
    by (simp add: settings_cell_def cell_post_value_def cell_key_def Let_def)
qed

lemma settings_post_spec_Nil [simp]: "settings_post_spec u post [] K = K"
  by (simp add: settings_post_spec_def)

lemma settings_post_spec_Cons [simp]:
  "settings_post_spec u post (c # cs) K =
   settings_post_spec u post cs (K(cell_key u c \<mapsto> cell_post_value post c))"
  by (simp add: settings_post_spec_def)

lemma settings_post_spec_append:
  "settings_post_spec u post (cs @ ds) K = settings_post_spec u post ds (settings_post_spec u post cs K)"
  by (simp add: settings_post_spec_def)

lemma settings_post_spec_other:
  "k \<notin> cell_key u ` set cs \<Longrightarrow> settings_post_spec u post cs K k = K k"
  unfolding settings_post_spec_def by (rule fold_upd_other) auto

lemma settings_row_POST:
  assumes "settings_wf db" and "list_all (\<lambda>(m, disp). defs m \<noteq> None) ms"
    and "distinct (map fst ms)"
  shows "\<exists>db'. settings_row defs u POST post nt ms db =
             Inr (map (\<lambda>(m, disp). (form_label nt m, cell_post_value post (nt, m))) ms, db') \<and>
           settings_wf db' \<and>
           send_map db' = settings_post_spec u post (map (\<lambda>md. (nt, fst md)) ms) (send_map db) \<and>
           saves_needed db db' (cell_key u ` set (map (\<lambda>md. (nt, fst md)) ms))"
  using assms
proof (induction ms arbitrary: db)
  case Nil
  then show ?case by simp
next
  case (Cons p ms)
  obtain m disp where p: "p = (m, disp)" by (cases p)
  from Cons.prems p have wf: "settings_wf db" and d: "defs m \<noteq> None"
    and ds: "list_all (\<lambda>(m, disp). defs m \<noteq> None) ms" and dm: "distinct (map fst ms)"
    and fresh: "m \<notin> fst ` set ms" by auto
  obtain db1 where c: "settings_cell defs u POST post nt m db =
        Inr ((form_label nt m, cell_post_value post (nt, m)), db1)"
    and wf1: "settings_wf db1"
    and sm1: "send_map db1 = (send_map db)(cell_key u (nt, m) \<mapsto> cell_post_value post (nt, m))"
    and sn1: "saves_needed db db1 {cell_key u (nt, m)}"
    using settings_cell_POST [of db defs m u post nt, OF wf d] by blast
  obtain db' where r: "settings_row defs u POST post nt ms db1 =
        Inr (map (\<lambda>(m, disp). (form_label nt m, cell_post_value post (nt, m))) ms, db')"
    and wf': "settings_wf db'"
    and sm': "send_map db' = settings_post_spec u post (map (\<lambda>md. (nt, fst md)) ms) (send_map db1)"
    and sn': "saves_needed db1 db' (cell_key u ` set (map (\<lambda>md. (nt, fst md)) ms))"
    using Cons.IH [OF wf1 ds dm] by blast
  have "\<forall>k\<in>cell_key u ` set (map (\<lambda>md. (nt, fst md)) ms). send_map db1 k = send_map db k"
    using fresh sm1 by (force simp: cell_key_def)
  with sn1 sn' have "saves_needed db db'
      ({cell_key u (nt, m)} \<union> cell_key u ` set (map (\<lambda>md. (nt, fst md)) ms))"
    by (rule saves_needed_trans)
  with c r wf' sm' sm1 p show ?case by simp
qed

lemma settings_table_POST:
  assumes "settings_wf db" and "list_all (\<lambda>(m, disp). defs m \<noteq> None) media"
    and "distinct (map fst media)" and "distinct (map nt_id nts)"
  shows "\<exists>rows db'. settings_table defs media u POST post nts db = Inr (rows, db') \<and>
           settings_wf db' \<and>
           send_map db' = settings_post_spec u post (settings_cells media nts) (send_map db) \<and>
           saves_needed db db' (cell_key u ` set (settings_cells media nts))"
  using assms
proof (induction nts arbitrary: db)
  case Nil
  then show ?case by (simp add: settings_cells_def)
next
  case (Cons nt nts)
  let ?cs = "map (\<lambda>md. (nt, fst md)) media"
  from Cons.prems have wf: "settings_wf db" and dn: "distinct (map nt_id nts)"
    and fresh: "nt_id nt \<notin> nt_id ` set nts" by auto
  obtain db1 where r: "settings_row defs u POST post nt media db =
        Inr (map (\<lambda>(m, disp). (form_label nt m, cell_post_value post (nt, m))) media, db1)"
    and wf1: "settings_wf db1"
    and sm1: "send_map db1 = settings_post_spec u post ?cs (send_map db)"
    and sn1: "saves_needed db db1 (cell_key u ` set ?cs)"
    using settings_row_POST [OF wf Cons.prems(2,3)] by blast
  obtain rows db' where t: "settings_table defs media u POST post nts db1 = Inr (rows, db')"
    and wf': "settings_wf db'"
    and sm': "send_map db' = settings_post_spec u post (settings_cells media nts) (send_map db1)"
    and sn': "saves_needed db1 db' (cell_key u ` set (settings_cells media nts))"
    using Cons.IH [OF wf1 Cons.prems(2,3) dn] by blast
  have "\<forall>k\<in>cell_key u ` set (settings_cells media nts). send_map db1 k = send_map db k"
  proof
    fix k assume "k \<in> cell_key u ` set (settings_cells media nts)"
    with fresh have "k \<notin> cell_key u ` set ?cs"
      by (auto simp: settings_cells_def cell_key_def image_iff)
    then show "send_map db1 k = send_map db k" using sm1 by (simp add: settings_post_spec_other)
  qed
  with sn1 sn' have "saves_needed db db' (cell_key u ` set ?cs \<union> cell_key u ` set (settings_cells media nts))"
    by (rule saves_needed_trans)
  moreover have "settings_cells media (nt # nts) = ?cs @ settings_cells media nts"
    by (simp add: settings_cells_def)
  ultimately show ?case
    using r t wf' sm' sm1 by (simp add: settings_post_spec_append image_Un)
qed

lemma mem_settings_cells:
  "c \<in> set (settings_cells media nts) \<longleftrightarrow> fst c \<in> set nts \<and> snd c \<in> fst ` set media"
  by (cases c) (auto simp: settings_cells_def)

lemma settings_post_spec_at:
  assumes dn: "distinct (map nt_id nts)" and c: "c \<in> set (settings_cells media nts)"
  shows "settings_post_spec u post (settings_cells media nts) K (cell_key u c) = Some (cell_post_value post c)"
proof -
  have inj: "inj_on nt_id (set nts)" using dn by (simp add: distinct_map)
  have "\<forall>x\<in>set (settings_cells media nts). cell_key u x = cell_key u c \<longrightarrow>
          cell_post_value post x = cell_post_value post c"
  proof
    fix x assume x: "x \<in> set (settings_cells media nts)"
    show "cell_key u x = cell_key u c \<longrightarrow> cell_post_value post x = cell_post_value post c"
    proof
      assume k: "cell_key u x = cell_key u c"
      from x c have "fst x \<in> set nts" "fst c \<in> set nts" by (simp_all add: mem_settings_cells)
      moreover from k have "nt_id (fst x) = nt_id (fst c)" "snd x = snd c"
        by (simp_all add: cell_key_def)
      ultimately have "fst x = fst c" using inj_onD [OF inj] by blast
      with \<open>snd x = snd c\<close> have "x = c" by (simp add: prod_eq_iff)
      then show "cell_post_value post x = cell_post_value post c" by simp
    qed
  qed
  then show ?thesis
    unfolding settings_post_spec_def
    using fold_upd_at [of "settings_cells media nts" "cell_key u" "cell_key u c"
        "cell_post_value post" "cell_post_value post c" K] c
    by blast
qed

lemma settings_cell_POST_stable:
  assumes wf: "settings_wf db"
    and v: "send_map db (cell_key u (nt, m)) = Some (cell_post_value post (nt, m))"
  shows "settings_cell defs u POST post nt m db = Inr ((form_label nt m, cell_post_value post (nt, m)), db)"
proof -
  from v obtain s0 where s0: "s0 \<in> set (sdb_rows db)" and k: "setting_key s0 = (u, nt_id nt, m)"
    and sv: "ns_send s0 = cell_post_value post (nt, m)"
    using settings_wf_keys [OF wf]
    by (auto simp: send_map_def table_map_Some_iff cell_key_def)
  have g: "get_notification_setting defs u nt m db = Inr (s0, db)"
    using wf s0 k by (rule get_setting_existing)
  have "settings_cell_post post (form_label nt m) s0 db = (ns_send s0, db)"
    using sv by (auto simp: settings_cell_post_def cell_post_value_def)
  with g sv show ?thesis by (simp add: settings_cell_def Let_def)
qed

lemma settings_row_POST_stable:
  "settings_wf db \<Longrightarrow>
   \<forall>(m, disp)\<in>set ms. send_map db (cell_key u (nt, m)) = Some (cell_post_value post (nt, m)) \<Longrightarrow>
   settings_row defs u POST post nt ms db =
     Inr (map (\<lambda>(m, disp). (form_label nt m, cell_post_value post (nt, m))) ms, db)"
  by (induction ms) (auto simp: settings_cell_POST_stable)

lemma settings_table_POST_stable:
  "settings_wf db \<Longrightarrow>
   \<forall>c\<in>set (settings_cells media nts). send_map db (cell_key u c) = Some (cell_post_value post c) \<Longrightarrow>
   settings_table defs media u POST post nts db =
     Inr (map (\<lambda>nt. (nt, map (\<lambda>(m, disp). (form_label nt m, cell_post_value post (nt, m))) media)) nts, db)"
proof (induction nts)
  case Nil
  then show ?case by simp
next
  case (Cons nt nts)
  have "\<forall>(m, disp)\<in>set media. send_map db (cell_key u (nt, m)) = Some (cell_post_value post (nt, m))"
    using Cons.prems(2) by (force simp: settings_cells_def)
  with Cons.prems(1) have "settings_row defs u POST post nt media db =
     Inr (map (\<lambda>(m, disp). (form_label nt m, cell_post_value post (nt, m))) media, db)"
    by (rule settings_row_POST_stable)
  moreover have "\<forall>c\<in>set (settings_cells media nts). send_map db (cell_key u c) = Some (cell_post_value post c)"
    using Cons.prems(2) by (simp add: settings_cells_def)
  ultimately show ?case using Cons by simp
qed

lemma settings_cell_GET:
  assumes wf: "settings_wf db" and d: "defs m \<noteq> None"
  shows "\<exists>db'. settings_cell defs u GET post nt m db =
             Inr ((form_label nt m, the (send_map db' (cell_key u (nt, m)))), db') \<and>
           settings_wf db' \<and> send_map db \<subseteq>\<^sub>m send_map db' \<and>
           cell_key u (nt, m) \<in> dom (send_map db')"
proof (cases "cell_key u (nt, m) \<in> setting_key ` set (sdb_rows db)")
  case True
  then obtain s0 where s0: "s0 \<in> set (sdb_rows db)" and k: "setting_key s0 = (u, nt_id nt, m)"
    by (auto simp: cell_key_def)
  have g: "get_notification_setting defs u nt m db = Inr (s0, db)"
    using wf s0 k by (rule get_setting_existing)
  have "send_map db (cell_key u (nt, m)) = Some (ns_send s0)"
    using send_map_member [OF wf s0] k by (simp add: cell_key_def)
  with g wf show ?thesis by (simp add: settings_cell_def Let_def domI)
next
  case False
  from d obtain dd where dd: "defs m = Some dd" by auto
  from False have nk: "(u, nt_id nt, m) \<notin> setting_key ` set (sdb_rows db)"
    by (simp add: cell_key_def)
  obtain s where g: "get_notification_setting defs u nt m db = Inr (s, setting_save s db)"
    and pk: "ns_id s = orm_next_pk ns_id (sdb_rows db)" and k: "setting_key s = (u, nt_id nt, m)"
    using get_setting_missing [of u nt m db defs dd, OF nk dd] by blast
  have wf1: "settings_wf (setting_save s db)"
    and sm1: "send_map (setting_save s db) = (send_map db)(setting_key s \<mapsto> ns_send s)"
    using setting_save_new [OF wf pk] k nk by simp_all
  have "send_map db (setting_key s) = None" using nk k by (simp add: send_map_None_iff)
  then have "send_map db \<subseteq>\<^sub>m send_map (setting_save s db)"
    using sm1 by (simp add: map_le_upd_new)
  with g wf1 sm1 k show ?thesis by (simp add: settings_cell_def Let_def cell_key_def)
qed

lemma settings_row_GET:
  assumes "settings_wf db" and "list_all (\<lambda>(m, disp). defs m \<noteq> None) ms"
  shows "\<exists>db'. settings_row defs u GET post nt ms db =
             Inr (map (\<lambda>md. (form_label nt (fst md), the (send_map db' (cell_key u (nt, fst md))))) ms, db') \<and>
           settings_wf db' \<and> send_map db \<subseteq>\<^sub>m send_map db' \<and>
           (\<forall>md\<in>set ms. cell_key u (nt, fst md) \<in> dom (send_map db'))"
  using assms
proof (induction ms arbitrary: db)
  case Nil
  then show ?case by simp
next
  case (Cons p ms)
  obtain m disp where p: "p = (m, disp)" by (cases p)
  from Cons.prems p have wf: "settings_wf db" and d: "defs m \<noteq> None"
    and ds: "list_all (\<lambda>(m, disp). defs m \<noteq> None) ms" by auto
  obtain db1 where c: "settings_cell defs u GET post nt m db =
        Inr ((form_label nt m, the (send_map db1 (cell_key u (nt, m)))), db1)"
    and wf1: "settings_wf db1" and le1: "send_map db \<subseteq>\<^sub>m send_map db1"
    and in1: "cell_key u (nt, m) \<in> dom (send_map db1)"
    using settings_cell_GET [of db defs m u post nt, OF wf d] by blast
  obtain db' where r: "settings_row defs u GET post nt ms db1 =
        Inr (map (\<lambda>md. (form_label nt (fst md), the (send_map db' (cell_key u (nt, fst md))))) ms, db')"
    and wf': "settings_wf db'" and le': "send_map db1 \<subseteq>\<^sub>m send_map db'"
    and in': "\<forall>md\<in>set ms. cell_key u (nt, fst md) \<in> dom (send_map db')"
    using Cons.IH [OF wf1 ds] by blast
  have same: "send_map db1 (cell_key u (nt, m)) = send_map db' (cell_key u (nt, m))"
    using le' in1 by (simp add: map_le_def)
  have "send_map db \<subseteq>\<^sub>m send_map db'" using le1 le' by (rule map_le_trans)
  moreover have "cell_key u (nt, m) \<in> dom (send_map db')"
    using in1 map_le_implies_dom_le [OF le'] by blast
  ultimately show ?case using c r wf' in' same p by simp
qed

lemma settings_table_GET:
  assumes "settings_wf db" and "list_all (\<lambda>(m, disp). defs m \<noteq> None) media"
  shows "\<exists>db'. settings_table defs media u GET post nts db =
             Inr (map (\<lambda>nt. (nt, map (\<lambda>md. (form_label nt (fst md),
                    the (send_map db' (cell_key u (nt, fst md))))) media)) nts, db') \<and>
           settings_wf db' \<and> send_map db \<subseteq>\<^sub>m send_map db' \<and>
           (\<forall>c\<in>set (settings_cells media nts). cell_key u c \<in> dom (send_map db'))"
  using assms
proof (induction nts arbitrary: db)
  case Nil
  then show ?case by (simp add: settings_cells_def)
next
  case (Cons nt nts)
  obtain db1 where r: "settings_row defs u GET post nt media db =
        Inr (map (\<lambda>md. (form_label nt (fst md), the (send_map db1 (cell_key u (nt, fst md))))) media, db1)"
    and wf1: "settings_wf db1" and le1: "send_map db \<subseteq>\<^sub>m send_map db1"
    and in1: "\<forall>md\<in>set media. cell_key u (nt, fst md) \<in> dom (send_map db1)"
    using settings_row_GET [OF Cons.prems] by blast
  obtain db' where t: "settings_table defs media u GET post nts db1 =
        Inr (map (\<lambda>nt. (nt, map (\<lambda>md. (form_label nt (fst md),
                    the (send_map db' (cell_key u (nt, fst md))))) media)) nts, db')"
    and wf': "settings_wf db'" and le': "send_map db1 \<subseteq>\<^sub>m send_map db'"
    and in': "\<forall>c\<in>set (settings_cells media nts). cell_key u c \<in> dom (send_map db')"
    using Cons.IH [OF wf1 Cons.prems(2)] by blast
  have same: "\<forall>md\<in>set media. send_map db1 (cell_key u (nt, fst md)) = send_map db' (cell_key u (nt, fst md))"
    using le' in1 by (simp add: map_le_def)
  have "send_map db \<subseteq>\<^sub>m send_map db'" using le1 le' by (rule map_le_trans)
  moreover have "\<forall>md\<in>set media. cell_key u (nt, fst md) \<in> dom (send_map db')"
    using in1 map_le_implies_dom_le [OF le'] by blast
  ultimately show ?case using r t wf' in' same by (auto simp: settings_cells_def)
qed

lemma notice_settings_post_run:
  assumes "settings_wf db" and "list_all (\<lambda>(m, disp). defs m \<noteq> None) media"
    and "distinct (map fst media)" and "distinct (map nt_id nts)"
  shows "\<exists>db'. notice_settings defs media usr POST post nts db =
             Inr (SettingsRedirect (qd_get_default post ''next_page'' ''.''), db') \<and>
           settings_wf db' \<and>
           send_map db' = settings_post_spec (user_id usr) post (settings_cells media nts) (send_map db) \<and>
           saves_needed db db' (cell_key (user_id usr) ` set (settings_cells media nts))"
  using settings_table_POST [OF assms, of "user_id usr" post] by (auto simp: notice_settings_def)

text \<open>
  C5: on a well-formed settings table, when every medium has a default and the media and
  notice types are distinct, a POST to \<open>notice_settings\<close> succeeds, redirects to
  \<open>next_page\<close> (default \<open>.\<close>), keeps the invariant, and stores exactly the old
  preferences with every cell of the matrix set from its form field (contract
  \<open>settings_post_spec\<close>).
\<close>

theorem notice_settings_post_refines:
  assumes "settings_wf db" and "list_all (\<lambda>(m, disp). defs m \<noteq> None) media"
    and "distinct (map fst media)" and "distinct (map nt_id nts)"
  shows "\<exists>db'. notice_settings defs media usr POST post nts db =
             Inr (SettingsRedirect (qd_get_default post ''next_page'' ''.''), db') \<and>
           settings_wf db' \<and>
           send_map db' = settings_post_spec (user_id usr) post (settings_cells media nts) (send_map db)"
  using notice_settings_post_run [OF assms] by blast

text \<open>
  C6: every \<open>save()\<close> a POST performs writes a setting of a cell of the matrix that was
  missing or whose stored value differs from the value written: no save (and no
  \<open>post_save\<close> signal) is redundant.
\<close>

theorem notice_settings_post_saves_needed:
  assumes "settings_wf db" and "list_all (\<lambda>(m, disp). defs m \<noteq> None) media"
    and "distinct (map fst media)" and "distinct (map nt_id nts)"
  shows "\<exists>r db'. notice_settings defs media usr POST post nts db = Inr (r, db') \<and>
           saves_needed db db' (cell_key (user_id usr) ` set (settings_cells media nts))"
  using notice_settings_post_run [OF assms] by blast

text \<open>
  C7: submitting the same settings form a second time changes no setting and saves nothing.
\<close>

theorem notice_settings_repost_noop:
  assumes "settings_wf db" and "list_all (\<lambda>(m, disp). defs m \<noteq> None) media"
    and "distinct (map fst media)" and "distinct (map nt_id nts)"
  shows "\<exists>r db'. notice_settings defs media usr POST post nts db = Inr (r, db') \<and>
           notice_settings defs media usr POST post nts db' = Inr (r, db')"
proof -
  obtain db' where run: "notice_settings defs media usr POST post nts db =
        Inr (SettingsRedirect (qd_get_default post ''next_page'' ''.''), db')"
    and wf': "settings_wf db'"
    and sm: "send_map db' = settings_post_spec (user_id usr) post (settings_cells media nts) (send_map db)"
    using notice_settings_post_run [OF assms] by blast
  have "\<forall>c\<in>set (settings_cells media nts).
          send_map db' (cell_key (user_id usr) c) = Some (cell_post_value post c)"
    using settings_post_spec_at [OF assms(4)] sm by simp
  with wf' have "settings_table defs media (user_id usr) POST post nts db' =
     Inr (map (\<lambda>nt. (nt, map (\<lambda>(m, disp). (form_label nt m, cell_post_value post (nt, m))) media)) nts, db')"
    by (rule settings_table_POST_stable)
  then have "notice_settings defs media usr POST post nts db' =
       Inr (SettingsRedirect (qd_get_default post ''next_page'' ''.''), db')"
    by (simp add: notice_settings_def)
  with run show ?thesis by blast
qed

text \<open>
  C8: a GET renders one row per notice type and one cell per medium, labelled
  \<open>label_medium\<close> and showing the stored value; it creates missing settings with their
  defaults and changes no stored value.
\<close>

theorem notice_settings_get_renders:
  assumes "settings_wf db" and "list_all (\<lambda>(m, disp). defs m \<noteq> None) media"
  shows "\<exists>db'. notice_settings defs media usr GET q nts db =
             Inr (SettingsPage nts (map snd media)
                    (map (\<lambda>nt. (nt, map (\<lambda>md. (form_label nt (fst md),
                       the (send_map db' (user_id usr, nt_id nt, fst md)))) media)) nts), db') \<and>
           settings_wf db' \<and> send_map db \<subseteq>\<^sub>m send_map db' \<and>
           (\<forall>nt\<in>set nts. \<forall>md\<in>set media. (user_id usr, nt_id nt, fst md) \<in> dom (send_map db'))"
proof -
  obtain db' where t: "settings_table defs media (user_id usr) GET q nts db =
        Inr (map (\<lambda>nt. (nt, map (\<lambda>md. (form_label nt (fst md),
                    the (send_map db' (cell_key (user_id usr) (nt, fst md))))) media)) nts, db')"
    and wf': "settings_wf db'" and le: "send_map db \<subseteq>\<^sub>m send_map db'"
    and dom': "\<forall>c\<in>set (settings_cells media nts). cell_key (user_id usr) c \<in> dom (send_map db')"
    using settings_table_GET [OF assms] by blast
  have "\<forall>nt\<in>set nts. \<forall>md\<in>set media. (user_id usr, nt_id nt, fst md) \<in> dom (send_map db')"
  proof (intro ballI)
    fix nt md assume "nt \<in> set nts" "md \<in> set media"
    then have "(nt, fst md) \<in> set (settings_cells media nts)" by (simp add: mem_settings_cells)
    with dom' show "(user_id usr, nt_id nt, fst md) \<in> dom (send_map db')" by (force simp: cell_key_def)
  qed
  with t wf' le show ?thesis by (simp add: notice_settings_def cell_key_def)
qed

text \<open>
  C32: What a POST stores is what the next GET shows: after a POST to \<open>notice_settings\<close>,
  a GET renders every cell of the matrix checked exactly when its field was \<open>on\<close> in the
  POST.
\<close>

theorem notice_settings_post_then_get:
  assumes wf: "settings_wf db" and defs: "list_all (\<lambda>(m, disp). defs m \<noteq> None) media"
    and dm: "distinct (map fst media)" and dn: "distinct (map nt_id nts)"
    and post: "notice_settings defs media usr POST post nts db = Inr (r, db1)"
  shows "\<exists>db2. notice_settings defs media usr GET q nts db1 =
           Inr (SettingsPage nts (map snd media)
                  (map (\<lambda>nt. (nt, map (\<lambda>md. (form_label nt (fst md),
                                             qd_get post (form_label nt (fst md)) = Some ''on'')) media)) nts),
                db2)"
proof -
  obtain db' where run: "notice_settings defs media usr POST post nts db =
        Inr (SettingsRedirect (qd_get_default post ''next_page'' ''.''), db')"
    and wf': "settings_wf db'"
    and sm: "send_map db' = settings_post_spec (user_id usr) post (settings_cells media nts) (send_map db)"
    using notice_settings_post_run [OF wf defs dm dn, of usr post] by blast
  from run post have db1: "db1 = db'" by simp
  obtain db2 where t: "settings_table defs media (user_id usr) GET q nts db1 =
        Inr (map (\<lambda>nt. (nt, map (\<lambda>md. (form_label nt (fst md),
               the (send_map db2 (cell_key (user_id usr) (nt, fst md))))) media)) nts, db2)"
    and le: "send_map db1 \<subseteq>\<^sub>m send_map db2"
    using settings_table_GET [OF wf' [folded db1] defs, of "user_id usr" q nts] by blast
  have cell: "the (send_map db2 (cell_key (user_id usr) (nt, fst md))) =
                (qd_get post (form_label nt (fst md)) = Some ''on'')"
    if "nt \<in> set nts" "md \<in> set media" for nt md
  proof -
    have c: "(nt, fst md) \<in> set (settings_cells media nts)" using that by (simp add: mem_settings_cells)
    have "send_map db1 (cell_key (user_id usr) (nt, fst md)) = Some (cell_post_value post (nt, fst md))"
      using settings_post_spec_at [OF dn c] sm db1 by simp
    with le have "send_map db2 (cell_key (user_id usr) (nt, fst md)) = Some (cell_post_value post (nt, fst md))"
      by (metis domI map_le_def)
    then show ?thesis by (simp add: cell_post_value_def)
  qed
  have "map (\<lambda>nt. (nt, map (\<lambda>md. (form_label nt (fst md),
               the (send_map db2 (cell_key (user_id usr) (nt, fst md))))) media)) nts =
        map (\<lambda>nt. (nt, map (\<lambda>md. (form_label nt (fst md),
               qd_get post (form_label nt (fst md)) = Some ''on'')) media)) nts"
    using cell by simp
  with t show ?thesis by (simp add: notice_settings_def)
qed

text \<open>
  C9: when medium ids contain no underscore, the form field names \<open>label_medium\<close> of two
  cells are equal only for the same notice-type label and medium.
\<close>

theorem form_label_injective:
  assumes "CHR ''_'' \<notin> set m1" and "CHR ''_'' \<notin> set m2"
    and "form_label n1 m1 = form_label n2 m2"
  shows "nt_label n1 = nt_label n2 \<and> m1 = m2"
proof -
  from assms(3) have e: "nt_label n1 @ CHR ''_'' # m1 = nt_label n2 @ CHR ''_'' # m2"
    by (simp add: form_label_def)
  have "rev (nt_label n1 @ CHR ''_'' # m1) = rev (nt_label n2 @ CHR ''_'' # m2)"
    using e by (rule arg_cong)
  then have "rev m1 @ CHR ''_'' # rev (nt_label n1) = rev m2 @ CHR ''_'' # rev (nt_label n2)"
    by simp
  then have "rev m1 = rev m2 \<and> rev (nt_label n1) = rev (nt_label n2)"
    using assms(1,2) by (intro append_Cons_sep_eq) simp_all
  then show ?thesis by simp
qed

lemma form_label_collision:
  "form_label (ex_nt 1 7) ''b_1'' = form_label ((ex_nt 2 7)\<lparr>nt_label := ''a_b''\<rparr>) ''1''"
  by (simp add: form_label_def ex_nt_def)

subsection \<open>Error paths\<close>

lemma settings_cell_fails:
  "cell_fails defs db u (nt, m) \<Longrightarrow> settings_cell defs u meth post nt m db = Inl (KeyError, db)"
  by (simp add: cell_fails_def send_map_None_iff cell_key_def get_setting_KeyError settings_cell_def Let_def)

lemma settings_cell_ok:
  assumes wf: "settings_wf db" and nf: "\<not> cell_fails defs db u (nt, m)"
  shows "\<exists>c db' b. settings_cell defs u meth post nt m db = Inr (c, db') \<and> settings_wf db' \<and>
           send_map db' = (send_map db)(cell_key u (nt, m) \<mapsto> b)"
proof -
  obtain s db1 where g: "get_notification_setting defs u nt m db = Inr (s, db1)"
    and s1: "s \<in> set (sdb_rows db1)" and wf1: "settings_wf db1" and k: "setting_key s = cell_key u (nt, m)"
    and sm1: "send_map db1 = (send_map db)(cell_key u (nt, m) \<mapsto> ns_send s)"
  proof (cases "cell_key u (nt, m) \<in> setting_key ` set (sdb_rows db)")
    case True
    then obtain s0 where s0: "s0 \<in> set (sdb_rows db)" and k: "setting_key s0 = (u, nt_id nt, m)"
      by (auto simp: cell_key_def)
    have "send_map db = (send_map db)(cell_key u (nt, m) \<mapsto> ns_send s0)"
      using send_map_member [OF wf s0] k by (simp add: cell_key_def fun_upd_idem)
    with get_setting_existing [OF wf s0 k] s0 wf k that show ?thesis by (simp add: cell_key_def)
  next
    case False
    with nf obtain dd where dd: "defs m = Some dd"
      by (auto simp: cell_fails_def send_map_None_iff)
    from False have nk: "(u, nt_id nt, m) \<notin> setting_key ` set (sdb_rows db)"
      by (simp add: cell_key_def)
    obtain s where g: "get_notification_setting defs u nt m db = Inr (s, setting_save s db)"
      and pk: "ns_id s = orm_next_pk ns_id (sdb_rows db)" and k: "setting_key s = (u, nt_id nt, m)"
      using get_setting_missing [of u nt m db defs dd, OF nk dd] by blast
    from setting_save_new [OF wf pk] k nk g that show ?thesis by (simp add: cell_key_def)
  qed
  show ?thesis
  proof (cases "meth = POST")
    case True
    obtain db' where c: "settings_cell_post post (form_label nt m) s db1 =
           (qd_get post (form_label nt m) = Some ''on'', db')" and wf': "settings_wf db'"
      and sm: "send_map db' = (send_map db1)(setting_key s \<mapsto> qd_get post (form_label nt m) = Some ''on'')"
      using settings_cell_post_spec [OF wf1 s1, of post "form_label nt m"] by blast
    with g True k sm1 show ?thesis by (simp add: settings_cell_def Let_def) blast
  next
    case False
    with g wf1 sm1 show ?thesis by (simp add: settings_cell_def Let_def) blast
  qed
qed

lemma cell_fails_upd:
  assumes "\<not> cell_fails defs db u (nt, m)" and "send_map db' = (send_map db)(cell_key u (nt, m) \<mapsto> b)"
  shows "cell_fails defs db' u c = cell_fails defs db u c"
  using assms by (cases c) (auto simp: cell_fails_def cell_key_def)

lemma dom_send_map_upd: "send_map db' = (send_map db)(k \<mapsto> b) \<Longrightarrow> dom (send_map db') = insert k (dom (send_map db))"
  by simp

lemma settings_row_result:
  "settings_wf db \<Longrightarrow>
   (if list_ex (\<lambda>md. cell_fails defs db u (nt, fst md)) ms
    then \<exists>db'. settings_row defs u meth post nt ms db = Inl (KeyError, db') \<and> settings_wf db' \<and>
           dom (send_map db) \<subseteq> dom (send_map db') \<and>
           list_all (\<lambda>md. cell_key u (nt, fst md) \<in> dom (send_map db'))
             (takeWhile (\<lambda>md. \<not> cell_fails defs db u (nt, fst md)) ms)
    else \<exists>cs db'. settings_row defs u meth post nt ms db = Inr (cs, db') \<and> settings_wf db' \<and>
           (\<forall>c. cell_fails defs db' u c = cell_fails defs db u c) \<and>
           dom (send_map db) \<subseteq> dom (send_map db') \<and>
           list_all (\<lambda>md. cell_key u (nt, fst md) \<in> dom (send_map db')) ms)"
proof (induction ms arbitrary: db)
  case (Cons md ms)
  obtain m disp where md: "md = (m, disp)" by fastforce
  show ?case
  proof (cases "cell_fails defs db u (nt, m)")
    case True
    with md Cons.prems show ?thesis by (simp add: settings_cell_fails)
  next
    case False
    obtain c db1 b where c: "settings_cell defs u meth post nt m db = Inr (c, db1)"
      and wf1: "settings_wf db1" and sm: "send_map db1 = (send_map db)(cell_key u (nt, m) \<mapsto> b)"
      using settings_cell_ok [OF Cons.prems False] by blast
    have same: "cell_fails defs db1 u x = cell_fails defs db u x" for x
      using False sm by (rule cell_fails_upd)
    have d1: "dom (send_map db1) = insert (cell_key u (nt, m)) (dom (send_map db))"
      using sm by (rule dom_send_map_upd)
    from Cons.IH [OF wf1] d1 show ?thesis
      by (auto simp: md c False same list_all_iff split: if_splits)
  qed
qed simp

lemma list_ex_cells_Cons:
  "list_ex P (settings_cells media (nt # nts)) \<longleftrightarrow>
   list_ex (\<lambda>md. P (nt, fst md)) media \<or> list_ex P (settings_cells media nts)"
  by (auto simp: settings_cells_def list_ex_iff)

lemma takeWhile_cells_Cons:
  "takeWhile P (settings_cells media (nt # nts)) =
     (if list_ex (\<lambda>md. \<not> P (nt, fst md)) media
      then map (\<lambda>md. (nt, fst md)) (takeWhile (\<lambda>md. P (nt, fst md)) media)
      else map (\<lambda>md. (nt, fst md)) media @ takeWhile P (settings_cells media nts))"
proof -
  have c: "settings_cells media (nt # nts) = map (\<lambda>md. (nt, fst md)) media @ settings_cells media nts"
    by (simp add: settings_cells_def)
  show ?thesis
  proof (cases "list_ex (\<lambda>md. \<not> P (nt, fst md)) media")
    case True
    then obtain md where "md \<in> set media" "\<not> P (nt, fst md)" by (auto simp: list_ex_iff)
    then have "takeWhile P (settings_cells media (nt # nts)) = takeWhile P (map (\<lambda>md. (nt, fst md)) media)"
      unfolding c by (intro takeWhile_append1 [of "(nt, fst md)"]) auto
    with True show ?thesis by (simp add: takeWhile_map comp_def)
  next
    case False
    then show ?thesis unfolding c by (subst takeWhile_append2) (auto simp: list_ex_iff)
  qed
qed

lemma settings_table_result:
  "settings_wf db \<Longrightarrow>
   (if list_ex (cell_fails defs db u) (settings_cells media nts)
    then \<exists>db'. settings_table defs media u meth post nts db = Inl (KeyError, db') \<and> settings_wf db' \<and>
           dom (send_map db) \<subseteq> dom (send_map db') \<and>
           list_all (\<lambda>c. cell_key u c \<in> dom (send_map db'))
             (takeWhile (\<lambda>c. \<not> cell_fails defs db u c) (settings_cells media nts))
    else \<exists>rows db'. settings_table defs media u meth post nts db = Inr (rows, db') \<and> settings_wf db')"
proof (induction nts arbitrary: db)
  case (Cons nt nts)
  note row = settings_row_result [OF Cons.prems, of defs u nt media meth post]
  show ?case
  proof (cases "list_ex (\<lambda>md. cell_fails defs db u (nt, fst md)) media")
    case True
    with row show ?thesis by (auto simp: list_ex_cells_Cons takeWhile_cells_Cons list_all_iff)
  next
    case False
    with row obtain cs db1 where r: "settings_row defs u meth post nt media db = Inr (cs, db1)"
      and wf1: "settings_wf db1" and same: "\<And>c. cell_fails defs db1 u c = cell_fails defs db u c"
      and d1: "dom (send_map db) \<subseteq> dom (send_map db1)"
      and all1: "list_all (\<lambda>md. cell_key u (nt, fst md) \<in> dom (send_map db1)) media"
      by auto
    have cf: "cell_fails defs db1 u = cell_fails defs db u" using same by (rule ext)
    note ih = Cons.IH [OF wf1, unfolded cf]
    show ?thesis
    proof (cases "list_ex (cell_fails defs db u) (settings_cells media nts)")
      case True
      with ih obtain db' where t: "settings_table defs media u meth post nts db1 = Inl (KeyError, db')"
        and wf': "settings_wf db'" and d': "dom (send_map db1) \<subseteq> dom (send_map db')"
        and all': "list_all (\<lambda>c. cell_key u c \<in> dom (send_map db'))
                     (takeWhile (\<lambda>c. \<not> cell_fails defs db u c) (settings_cells media nts))"
        by auto
      have "list_all (\<lambda>md. cell_key u (nt, fst md) \<in> dom (send_map db')) media"
        using all1 d' by (auto simp: list_all_iff)
      with False True r t wf' d1 d' all' show ?thesis
        by (auto simp: list_ex_cells_Cons takeWhile_cells_Cons list_all_iff)
    next
      case False': False
      with ih False r show ?thesis by (auto simp: list_ex_cells_Cons)
    qed
  qed
qed (simp add: settings_cells_def)

lemma notice_settings_Inl_wf:
  assumes "settings_wf db" and "notice_settings defs media usr meth post nts db = Inl (e, db')"
  shows "settings_wf db'"
  using settings_table_result [OF assms(1), of defs "user_id usr" media nts meth post] assms(2)
  by (auto simp: notice_settings_def split: if_splits)

text \<open>
  C33: On a table with one setting per key, a request to \<open>notice_settings\<close> raises
  exactly when some cell of the matrix has no stored setting and its medium has no entry
  in \<open>NOTICE_MEDIA_DEFAULTS\<close>, and then the exception is \<open>KeyError\<close>; no other
  exception can escape the view. The exception carries the table as the cells visited
  before it left it, since Django has committed their saves: it is well formed, keeps
  every stored setting's key, and holds a setting for every cell of the matrix before
  the first failing one.
\<close>

theorem notice_settings_raises_iff:
  assumes "settings_wf db"
  shows "((\<exists>db'. notice_settings defs media usr meth post nts db = Inl (e, db')) \<longleftrightarrow>
          e = KeyError \<and> list_ex (cell_fails defs db (user_id usr)) (settings_cells media nts)) \<and>
         (\<forall>db'. notice_settings defs media usr meth post nts db = Inl (e, db') \<longrightarrow>
            settings_wf db' \<and> dom (send_map db) \<subseteq> dom (send_map db') \<and>
            list_all (\<lambda>c. send_map db' (cell_key (user_id usr) c) \<noteq> None)
              (takeWhile (\<lambda>c. \<not> cell_fails defs db (user_id usr) c) (settings_cells media nts)))"
  using settings_table_result [OF assms, of defs "user_id usr" media nts meth post]
  by (auto simp: notice_settings_def list_all_iff split: if_splits)

subsection \<open>Witnesses\<close>

lemma ex_settings_post_run:
  "notice_settings ex_defaults ex_media ex_user POST [] [ex_nt 2 7] ex_settings_db =
     Inr (SettingsRedirect ''.'', \<lparr>sdb_rows = [\<lparr>ns_id = 1, ns_user = 3, ns_notice_type = 1, ns_medium = ''1'', ns_send = True\<rparr>,
                                      \<lparr>ns_id = 2, ns_user = 3, ns_notice_type = 2, ns_medium = ''1'', ns_send = False\<rparr>],
            sdb_saved = [\<lparr>ns_id = 2, ns_user = 3, ns_notice_type = 2, ns_medium = ''1'', ns_send = True\<rparr>,
                         \<lparr>ns_id = 2, ns_user = 3, ns_notice_type = 2, ns_medium = ''1'', ns_send = False\<rparr>]\<rparr>)"
  by (simp add: settings_eval notice_settings_def settings_cell_def get_notification_setting_def orm_get_def
    setting_key_def orm_next_pk_def setting_save_def orm_save_def settings_cell_post_def form_label_def
    qd_get_default_def qd_get_def ex_nt_def Let_def)

theorem notice_settings_post_refines_witness:
  "settings_wf ex_settings_db \<and> list_all (\<lambda>(m, disp). ex_defaults m \<noteq> None) ex_media \<and>
   distinct (map fst ex_media) \<and> distinct (map nt_id [ex_nt 1 7, ex_nt 2 7]) \<and>
   (\<exists>db'. notice_settings ex_defaults ex_media ex_user POST [(''a_1'', ''on'')] [ex_nt 1 7, ex_nt 2 7] ex_settings_db =
       Inr (SettingsRedirect (qd_get_default [(''a_1'', ''on'')] ''next_page'' ''.''), db') \<and>
     settings_wf db' \<and>
     send_map db' = settings_post_spec (user_id ex_user) [(''a_1'', ''on'')]
       (settings_cells ex_media [ex_nt 1 7, ex_nt 2 7]) (send_map ex_settings_db))"
proof -
  have h1: "settings_wf ex_settings_db" by (simp add: settings_eval)
  have h2: "list_all (\<lambda>(m, disp). ex_defaults m \<noteq> None) ex_media" by (simp add: settings_eval)
  have h3: "distinct (map fst ex_media)" by (simp add: settings_eval)
  have h4: "distinct (map nt_id [ex_nt 1 7, ex_nt 2 7])" by (simp add: settings_eval)
  show ?thesis using h1 h2 h3 h4 notice_settings_post_refines [OF h1 h2 h3 h4] by blast
qed

theorem notice_settings_post_saves_needed_witness:
  "settings_wf ex_settings_db \<and> list_all (\<lambda>(m, disp). ex_defaults m \<noteq> None) ex_media \<and>
   distinct (map fst ex_media) \<and> distinct (map nt_id [ex_nt 1 7, ex_nt 2 7]) \<and>
   (\<exists>r db'. notice_settings ex_defaults ex_media ex_user POST [(''a_1'', ''on'')] [ex_nt 1 7, ex_nt 2 7] ex_settings_db =
       Inr (r, db') \<and>
     saves_needed ex_settings_db db' (cell_key (user_id ex_user) ` set (settings_cells ex_media [ex_nt 1 7, ex_nt 2 7])))"
proof -
  have h1: "settings_wf ex_settings_db" by (simp add: settings_eval)
  have h2: "list_all (\<lambda>(m, disp). ex_defaults m \<noteq> None) ex_media" by (simp add: settings_eval)
  have h3: "distinct (map fst ex_media)" by (simp add: settings_eval)
  have h4: "distinct (map nt_id [ex_nt 1 7, ex_nt 2 7])" by (simp add: settings_eval)
  show ?thesis using h1 h2 h3 h4 notice_settings_post_saves_needed [OF h1 h2 h3 h4] by blast
qed

theorem notice_settings_repost_noop_witness:
  "settings_wf ex_settings_db \<and> list_all (\<lambda>(m, disp). ex_defaults m \<noteq> None) ex_media \<and>
   distinct (map fst ex_media) \<and> distinct (map nt_id [ex_nt 1 7, ex_nt 2 7]) \<and>
   (\<exists>r db'. notice_settings ex_defaults ex_media ex_user POST [(''a_1'', ''on'')] [ex_nt 1 7, ex_nt 2 7] ex_settings_db =
       Inr (r, db') \<and>
     notice_settings ex_defaults ex_media ex_user POST [(''a_1'', ''on'')] [ex_nt 1 7, ex_nt 2 7] db' = Inr (r, db'))"
proof -
  have h1: "settings_wf ex_settings_db" by (simp add: settings_eval)
  have h2: "list_all (\<lambda>(m, disp). ex_defaults m \<noteq> None) ex_media" by (simp add: settings_eval)
  have h3: "distinct (map fst ex_media)" by (simp add: settings_eval)
  have h4: "distinct (map nt_id [ex_nt 1 7, ex_nt 2 7])" by (simp add: settings_eval)
  show ?thesis using h1 h2 h3 h4 notice_settings_repost_noop [OF h1 h2 h3 h4] by blast
qed

theorem notice_settings_get_renders_witness:
  "settings_wf ex_settings_db \<and> list_all (\<lambda>(m, disp). ex_defaults m \<noteq> None) ex_media \<and>
   (\<exists>db'. notice_settings ex_defaults ex_media ex_user GET [] [ex_nt 1 7, ex_nt 2 7] ex_settings_db =
      Inr (SettingsPage [ex_nt 1 7, ex_nt 2 7] [''Email'']
        [(ex_nt 1 7, [(''a_1'', the (send_map db' (3, 1, ''1'')))]),
         (ex_nt 2 7, [(''b_1'', the (send_map db' (3, 2, ''1'')))])], db') \<and>
      send_map ex_settings_db \<subseteq>\<^sub>m send_map db')"
proof -
  have h1: "settings_wf ex_settings_db" by (simp add: settings_eval)
  have h2: "list_all (\<lambda>(m, disp). ex_defaults m \<noteq> None) ex_media" by (simp add: settings_eval)
  obtain db' where
    run: "notice_settings ex_defaults ex_media ex_user GET [] [ex_nt 1 7, ex_nt 2 7] ex_settings_db =
      Inr (SettingsPage [ex_nt 1 7, ex_nt 2 7] (map snd ex_media)
        (map (\<lambda>nt. (nt, map (\<lambda>md. (form_label nt (fst md),
           the (send_map db' (user_id ex_user, nt_id nt, fst md)))) ex_media)) [ex_nt 1 7, ex_nt 2 7]), db')"
    and le: "send_map ex_settings_db \<subseteq>\<^sub>m send_map db'"
    using notice_settings_get_renders [OF h1 h2, of ex_user "[]" "[ex_nt 1 7, ex_nt 2 7]"] by blast
  from run have "notice_settings ex_defaults ex_media ex_user GET [] [ex_nt 1 7, ex_nt 2 7] ex_settings_db =
      Inr (SettingsPage [ex_nt 1 7, ex_nt 2 7] [''Email'']
        [(ex_nt 1 7, [(''a_1'', the (send_map db' (3, 1, ''1'')))]),
         (ex_nt 2 7, [(''b_1'', the (send_map db' (3, 2, ''1'')))])], db')"
    by (simp add: settings_eval)
  with h1 h2 le show ?thesis by blast
qed

theorem form_label_injective_witness:
  "CHR ''_'' \<notin> set ''1'' \<and> CHR ''_'' \<notin> set ''2'' \<and>
   form_label (ex_nt 1 7) ''1'' = form_label (ex_nt 1 8) ''1'' \<and>
   nt_label (ex_nt 1 7) = nt_label (ex_nt 1 8) \<and> ''1'' = ''1''"
proof -
  have h1: "CHR ''_'' \<notin> set ''1''" by simp
  have h3: "form_label (ex_nt 1 7) ''1'' = form_label (ex_nt 1 8) ''1''" by (simp add: settings_eval)
  show ?thesis using h1 h3 form_label_injective [OF h1 h1 h3] by simp
qed

theorem notice_settings_post_then_get_witness:
  "settings_wf ex_settings_db \<and> list_all (\<lambda>(m, disp). ex_defaults m \<noteq> None) ex_media \<and>
   distinct (map fst ex_media) \<and> distinct (map nt_id [ex_nt 2 7]) \<and>
   (\<exists>db2. notice_settings ex_defaults ex_media ex_user GET []  [ex_nt 2 7]
            (snd (projr (notice_settings ex_defaults ex_media ex_user POST [] [ex_nt 2 7] ex_settings_db))) =
          Inr (SettingsPage [ex_nt 2 7] [''Email''] [(ex_nt 2 7, [(''b_1'', False)])], db2))"
proof -
  have h1: "settings_wf ex_settings_db" and h2: "list_all (\<lambda>(m, disp). ex_defaults m \<noteq> None) ex_media"
    and h3: "distinct (map fst ex_media)" and h4: "distinct (map nt_id [ex_nt 2 7])"
    by (simp_all add: settings_eval ex_nt_def)
  show ?thesis
    using notice_settings_post_then_get [OF h1 h2 h3 h4 ex_settings_post_run, of "[]"] h1 h2 h3 h4 ex_settings_post_run
    by (simp add: settings_eval form_label_def qd_get_def ex_nt_def)
qed

theorem notice_settings_raises_iff_witness:
  "notice_settings ex_defaults [(''1'', ''Email''), (''2'', ''SMS'')] ex_user GET [] [ex_nt 2 7] ex_settings_db =
     Inl (KeyError,
          \<lparr>sdb_rows = [\<lparr>ns_id = 1, ns_user = 3, ns_notice_type = 1, ns_medium = ''1'', ns_send = True\<rparr>,
                        \<lparr>ns_id = 2, ns_user = 3, ns_notice_type = 2, ns_medium = ''1'', ns_send = True\<rparr>],
           sdb_saved = [\<lparr>ns_id = 2, ns_user = 3, ns_notice_type = 2, ns_medium = ''1'', ns_send = True\<rparr>]\<rparr>) \<and>
   list_ex (cell_fails ex_defaults ex_settings_db 3) (settings_cells [(''1'', ''Email''), (''2'', ''SMS'')] [ex_nt 2 7])"
  using notice_settings_raises_iff [of ex_settings_db ex_defaults "[(''1'', ''Email''), (''2'', ''SMS'')]" ex_user GET "[]"
      "[ex_nt 2 7]" KeyError]
  by (simp add: settings_eval cell_fails_def send_map_def table_map_def settings_cells_def cell_key_def
    notice_settings_def settings_cell_def get_notification_setting_def orm_get_def orm_next_pk_def
    setting_save_def orm_save_def qd_get_default_def qd_get_def Let_def)

end
