(* ===== verification/Notices.thy ===== *)
theory Notices
  imports Settings
begin

text \<open>
  The views of src/notification/views.py that read and change \<open>Notice\<close> rows:
  \<open>notices\<close> (the index), \<open>single\<close> (detail, marking the notice seen),
  \<open>archive\<close> and \<open>delete\<close> (by the recipient or a superuser, always redirecting), and
  \<open>mark_all_seen\<close>. The manager method \<open>Notice.objects.notices_for\<close> and
  \<open>Notice.archive\<close> live in models.py, which is not part of the sources; they are
  modelled from the views' documentation: \<open>notices_for\<close> lists the user's unarchived
  notices, optionally filtered by \<open>unseen\<close> and \<open>on_site\<close>. The theory proves each
  view's effect on the table on every branch, the authorization of \<open>archive\<close> and
  \<open>delete\<close>, and that the table's primary keys stay distinct.
\<close>

section \<open>Data\<close>

record notice =
  n_id :: pk
  n_recipient :: uid
  n_sender :: "uid option"
  n_message :: string
  n_notice_type :: pk
  n_added :: nat
  n_unseen :: bool
  n_archived :: bool
  n_on_site :: bool

datatype notices_response =
    NoticesPage "notice list"
  | SinglePage notice
  | NoticeRedirect "string option"

section \<open>Operations\<close>

definition opt_match :: "bool option \<Rightarrow> bool \<Rightarrow> bool" where
  "opt_match f v \<longleftrightarrow> (case f of None \<Rightarrow> True | Some b \<Rightarrow> v = b)"

definition notices_for :: "uid \<Rightarrow> bool option \<Rightarrow> bool option \<Rightarrow> notice list \<Rightarrow> notice list" where
  "notices_for u unseen on_site tbl =
     filter (\<lambda>n. n_recipient n = u \<and> \<not> n_archived n \<and>
                 opt_match unseen (n_unseen n) \<and> opt_match on_site (n_on_site n)) tbl"

definition notice_archive :: "notice \<Rightarrow> notice list \<Rightarrow> notice list" where
  "notice_archive n tbl = orm_save n_id (n\<lparr>n_archived := True\<rparr>) tbl"

text \<open>\<open>notices\<close>: the index of the user's notices shown on the site.\<close>

definition notices_view :: "user \<Rightarrow> notice list \<Rightarrow> notices_response" where
  "notices_view usr tbl = NoticesPage (notices_for (user_id usr) None (Some True) tbl)"

text \<open>
  \<open>single\<close>: \<open>get_object_or_404\<close> turns \<open>DoesNotExist\<close> into \<open>Http404\<close> (any
  other exception of \<open>get\<close> propagates); a notice of another user is also a 404.
\<close>

definition single :: "user \<Rightarrow> pk \<Rightarrow> bool \<Rightarrow> notice list \<Rightarrow> py_error + notices_response \<times> notice list" where
  "single usr nid mark_seen tbl =
     (case orm_get (\<lambda>n. n_id n = nid) tbl of
        Inl DoesNotExist \<Rightarrow> Inl Http404
      | Inl e \<Rightarrow> Inl e
      | Inr n \<Rightarrow>
          (if user_id usr = n_recipient n then
             (if mark_seen \<and> n_unseen n
              then Inr (SinglePage (n\<lparr>n_unseen := False\<rparr>), orm_save n_id (n\<lparr>n_unseen := False\<rparr>) tbl)
              else Inr (SinglePage n, tbl))
           else Inl Http404))"

text \<open>
  \<open>archive\<close> and \<open>delete\<close>: \<open>noticeid\<close> is \<open>None\<close> when the URL gives none;
  every path ends in a redirect to \<open>next_page\<close>.
\<close>

definition archive ::
  "user \<Rightarrow> pk option \<Rightarrow> string option \<Rightarrow> notice list \<Rightarrow> py_error + notices_response \<times> notice list" where
  "archive usr noticeid next_page tbl =
     (case noticeid of
        None \<Rightarrow> Inr (NoticeRedirect next_page, tbl)
      | Some nid \<Rightarrow>
          (case orm_get (\<lambda>n. n_id n = nid) tbl of
             Inl DoesNotExist \<Rightarrow> Inr (NoticeRedirect next_page, tbl)
           | Inl e \<Rightarrow> Inl e
           | Inr n \<Rightarrow>
               (if user_id usr = n_recipient n \<or> is_superuser usr
                then Inr (NoticeRedirect next_page, notice_archive n tbl)
                else Inr (NoticeRedirect next_page, tbl))))"

definition delete ::
  "user \<Rightarrow> pk option \<Rightarrow> string option \<Rightarrow> notice list \<Rightarrow> py_error + notices_response \<times> notice list" where
  "delete usr noticeid next_page tbl =
     (case noticeid of
        None \<Rightarrow> Inr (NoticeRedirect next_page, tbl)
      | Some nid \<Rightarrow>
          (case orm_get (\<lambda>n. n_id n = nid) tbl of
             Inl DoesNotExist \<Rightarrow> Inr (NoticeRedirect next_page, tbl)
           | Inl e \<Rightarrow> Inl e
           | Inr n \<Rightarrow>
               (if user_id usr = n_recipient n \<or> is_superuser usr
                then Inr (NoticeRedirect next_page, orm_delete n_id (n_id n) tbl)
                else Inr (NoticeRedirect next_page, tbl))))"

text \<open>\<open>mark_all_seen\<close>: the loop over the queryset, evaluated once when the loop starts.\<close>

fun mark_seen_loop :: "notice list \<Rightarrow> notice list \<Rightarrow> notice list" where
  "mark_seen_loop [] tbl = tbl"
| "mark_seen_loop (n # ns) tbl = mark_seen_loop ns (orm_save n_id (n\<lparr>n_unseen := False\<rparr>) tbl)"

definition notices_url :: string where
  "notices_url = ''notification_notices''"

definition mark_all_seen :: "user \<Rightarrow> notice list \<Rightarrow> notices_response \<times> notice list" where
  "mark_all_seen usr tbl =
     (NoticeRedirect (Some notices_url),
      mark_seen_loop (notices_for (user_id usr) (Some True) None tbl) tbl)"

section \<open>Example data for the witnesses\<close>

definition ex_notice :: "pk \<Rightarrow> uid \<Rightarrow> bool \<Rightarrow> bool \<Rightarrow> notice" where
  "ex_notice k u unseen archived =
     \<lparr>n_id = k, n_recipient = u, n_sender = None, n_message = ''m'', n_notice_type = 1,
      n_added = k, n_unseen = unseen, n_archived = archived, n_on_site = True\<rparr>"

definition ex_bob :: user where
  "ex_bob = \<lparr>user_id = 3, username = ''bob'', is_superuser = False\<rparr>"

definition ex_admin :: user where
  "ex_admin = \<lparr>user_id = 1, username = ''admin'', is_superuser = True\<rparr>"

definition ex_notices :: "notice list" where
  "ex_notices = [ex_notice 1 3 True False, ex_notice 2 4 True False, ex_notice 3 3 True True]"


section \<open>Lemmas\<close>

lemmas notices_eval = ex_notice_def ex_bob_def ex_admin_def ex_notices_def pk_distinct_def

lemma orm_save_existing_map:
  "list_ex (\<lambda>x. key x = key r) rows \<Longrightarrow> orm_save key r rows = map (\<lambda>x. if key x = key r then r else x) rows"
  by (simp add: orm_save_def)

lemma notice_get_found:
  "pk_distinct n_id tbl \<Longrightarrow> n \<in> set tbl \<Longrightarrow> orm_get (\<lambda>x. n_id x = n_id n) tbl = Inr n"
  by (rule orm_get_by_key)

lemma notice_get_cases:
  assumes "pk_distinct n_id tbl"
  obtains (found) n where "n \<in> set tbl" "n_id n = nid" "orm_get (\<lambda>x. n_id x = nid) tbl = Inr n"
  | (missing) "\<forall>x\<in>set tbl. n_id x \<noteq> nid" "orm_get (\<lambda>x. n_id x = nid) tbl = Inl DoesNotExist"
proof (cases "\<exists>x\<in>set tbl. n_id x = nid")
  case True
  then obtain n where n: "n \<in> set tbl" "n_id n = nid" by blast
  with notice_get_found [OF assms n(1)] show ?thesis using found by blast
next
  case False
  then have "orm_get (\<lambda>x. n_id x = nid) tbl = Inl DoesNotExist"
    by (simp add: orm_get_DoesNotExist_iff list_ex_iff)
  with False show ?thesis using missing by blast
qed

lemma map_update_unique:
  assumes "pk_distinct n_id tbl" "n \<in> set tbl"
  shows "map (\<lambda>x. if n_id x = n_id n then f n else x) tbl = map (\<lambda>x. if n_id x = n_id n then f x else x) tbl"
proof -
  have "inj_on n_id (set tbl)" using assms(1) by (simp add: pk_distinct_def distinct_map)
  then have "\<And>x. x \<in> set tbl \<Longrightarrow> n_id x = n_id n \<Longrightarrow> x = n" using assms(2) by (auto dest: inj_onD)
  then show ?thesis by (auto simp: map_eq_conv)
qed

lemma orm_save_update_field:
  assumes "pk_distinct n_id tbl" "n \<in> set tbl" "n_id (f n) = n_id n"
  shows "orm_save n_id (f n) tbl = map (\<lambda>x. if n_id x = n_id n then f x else x) tbl"
proof -
  have "list_ex (\<lambda>x. n_id x = n_id (f n)) tbl" using assms(2,3) by (auto simp: list_ex_iff)
  then have "orm_save n_id (f n) tbl = map (\<lambda>x. if n_id x = n_id n then f n else x) tbl"
    using assms(3) by (simp add: orm_save_existing_map)
  also have "\<dots> = map (\<lambda>x. if n_id x = n_id n then f x else x) tbl"
    using assms(1,2) by (rule map_update_unique)
  finally show ?thesis .
qed

lemma archive_effect:
  assumes "pk_distinct n_id tbl"
  shows "archive usr (Some nid) next_page tbl =
    Inr (NoticeRedirect next_page,
         map (\<lambda>x. if n_id x = nid \<and> (user_id usr = n_recipient x \<or> is_superuser usr)
                  then x\<lparr>n_archived := True\<rparr> else x) tbl)"
  using assms
proof (cases rule: notice_get_cases [of tbl nid])
  case (found n)
  have "inj_on n_id (set tbl)" using assms by (simp add: pk_distinct_def distinct_map)
  then have uniq: "\<forall>x\<in>set tbl. n_id x = nid \<longrightarrow> x = n"
    using found(1,2) by (auto dest: inj_onD)
  have same: "map (\<lambda>x. if n_id x = nid \<and> (user_id usr = n_recipient x \<or> is_superuser usr)
                  then x\<lparr>n_archived := True\<rparr> else x) tbl =
     (if user_id usr = n_recipient n \<or> is_superuser usr
      then map (\<lambda>x. if n_id x = n_id n then x\<lparr>n_archived := True\<rparr> else x) tbl else tbl)"
  proof (cases "user_id usr = n_recipient n \<or> is_superuser usr")
    case True
    then show ?thesis using uniq found(2) by auto
  next
    case False
    then show ?thesis using uniq by (auto intro!: map_idI)
  qed
  have "notice_archive n tbl = map (\<lambda>x. if n_id x = n_id n then x\<lparr>n_archived := True\<rparr> else x) tbl"
    unfolding notice_archive_def using orm_save_update_field [OF assms found(1), of "\<lambda>x. x\<lparr>n_archived := True\<rparr>"]
    by simp
  with same found(2,3) show ?thesis by (simp add: archive_def del: orm_get_Inr_iff)
next
  case missing
  then show ?thesis by (auto simp: archive_def intro!: map_idI [symmetric])
qed

text \<open>C10: \<open>archive\<close> with a notice id archives exactly the notice with that id, and only when the requesting user is its recipient or a superuser; every other row is unchanged, and the view always redirects to \<open>next_page\<close>.\<close>

theorem archive_spec:
  assumes "pk_distinct n_id tbl"
  shows "archive usr (Some nid) next_page tbl =
    Inr (NoticeRedirect next_page,
         map (\<lambda>x. if n_id x = nid \<and> (user_id usr = n_recipient x \<or> is_superuser usr)
                  then x\<lparr>n_archived := True\<rparr> else x) tbl)"
  using assms by (rule archive_effect)

lemma notice_unique:
  "pk_distinct n_id tbl \<Longrightarrow> n \<in> set tbl \<Longrightarrow> \<forall>x\<in>set tbl. n_id x = n_id n \<longrightarrow> x = n"
  by (auto simp: pk_distinct_def distinct_map dest: inj_onD)

lemma delete_effect:
  assumes "pk_distinct n_id tbl"
  shows "delete usr (Some nid) next_page tbl =
    Inr (NoticeRedirect next_page,
         filter (\<lambda>x. \<not> (n_id x = nid \<and> (user_id usr = n_recipient x \<or> is_superuser usr))) tbl)"
  using assms
proof (cases rule: notice_get_cases [of tbl nid])
  case (found n)
  have uniq: "\<forall>x\<in>set tbl. n_id x = nid \<longrightarrow> x = n"
    using notice_unique [OF assms found(1)] found(2) by simp
  show ?thesis
  proof (cases "user_id usr = n_recipient n \<or> is_superuser usr")
    case True
    have "orm_delete n_id (n_id n) tbl =
          filter (\<lambda>x. \<not> (n_id x = nid \<and> (user_id usr = n_recipient x \<or> is_superuser usr))) tbl"
      unfolding orm_delete_def using uniq True found(2) by (intro filter_cong_member) auto
    with True found(2,3) show ?thesis by (simp add: delete_def del: orm_get_Inr_iff)
  next
    case False
    have "filter (\<lambda>x. \<not> (n_id x = nid \<and> (user_id usr = n_recipient x \<or> is_superuser usr))) tbl = tbl"
      using uniq False by (auto simp: filter_id_conv)
    with False found(2,3) show ?thesis by (simp add: delete_def del: orm_get_Inr_iff)
  qed
next
  case missing
  then show ?thesis by (simp add: delete_def filter_id_conv)
qed

text \<open>C11: \<open>delete\<close> with a notice id removes exactly the notice with that id, and only when the requesting user is its recipient or a superuser; all other rows are kept, and the view always redirects to \<open>next_page\<close>.\<close>

theorem delete_spec:
  assumes "pk_distinct n_id tbl"
  shows "delete usr (Some nid) next_page tbl =
    Inr (NoticeRedirect next_page,
         filter (\<lambda>x. \<not> (n_id x = nid \<and> (user_id usr = n_recipient x \<or> is_superuser usr))) tbl)"
  using assms by (rule delete_effect)

lemma find_unique_Some:
  "pk_distinct n_id tbl \<Longrightarrow> n \<in> set tbl \<Longrightarrow> find (\<lambda>x. n_id x = n_id n) tbl = Some n"
  by (induction tbl) (auto simp: pk_distinct_def)

lemma notice_unseen_same: "n_unseen n = b \<Longrightarrow> n\<lparr>n_unseen := b\<rparr> = n"
  by (cases n) simp

lemma single_effect:
  assumes "pk_distinct n_id tbl"
  shows "single usr nid mark_seen tbl =
    (case find (\<lambda>x. n_id x = nid) tbl of
       None \<Rightarrow> Inl Http404
     | Some n \<Rightarrow>
         if user_id usr = n_recipient n
         then Inr (SinglePage (n\<lparr>n_unseen := n_unseen n \<and> \<not> mark_seen\<rparr>),
                   map (\<lambda>x. if n_id x = nid \<and> mark_seen then x\<lparr>n_unseen := False\<rparr> else x) tbl)
         else Inl Http404)"
  using assms
proof (cases rule: notice_get_cases [of tbl nid])
  case (found n)
  have f: "find (\<lambda>x. n_id x = nid) tbl = Some n"
    using find_unique_Some [OF assms found(1)] found(2) by simp
  have uniq: "\<forall>x\<in>set tbl. n_id x = nid \<longrightarrow> x = n"
    using notice_unique [OF assms found(1)] found(2) by simp
  show ?thesis
  proof (cases "mark_seen \<and> n_unseen n")
    case True
    have "orm_save n_id (n\<lparr>n_unseen := False\<rparr>) tbl =
          map (\<lambda>x. if n_id x = n_id n then x\<lparr>n_unseen := False\<rparr> else x) tbl"
      using orm_save_update_field [OF assms found(1), of "\<lambda>x. x\<lparr>n_unseen := False\<rparr>"] by simp
    with True f found(2,3) show ?thesis by (simp add: single_def del: orm_get_Inr_iff)
  next
    case False
    have tb: "map (\<lambda>x. if n_id x = nid \<and> mark_seen then x\<lparr>n_unseen := False\<rparr> else x) tbl = tbl"
      using uniq False by (auto intro!: map_idI simp: notice_unseen_same)
    have pg: "n\<lparr>n_unseen := n_unseen n \<and> \<not> mark_seen\<rparr> = n"
      using False by (intro notice_unseen_same) auto
    have "(if mark_seen \<and> n_unseen n
               then Inr (SinglePage (n\<lparr>n_unseen := False\<rparr>), orm_save n_id (n\<lparr>n_unseen := False\<rparr>) tbl)
               else Inr (SinglePage n, tbl)) = (Inr (SinglePage n, tbl) :: py_error + notices_response \<times> notice list)"
      using False by auto
    with f found(2,3) tb pg show ?thesis by (simp add: single_def del: orm_get_Inr_iff)
  qed
next
  case missing
  then have "find (\<lambda>x. n_id x = nid) tbl = None" by (simp add: find_None_iff)
  with missing show ?thesis by (simp add: single_def)
qed

text \<open>C12: \<open>single\<close> answers 404 for a missing notice and for a notice of another user; for the recipient it shows the notice and, when \<open>mark_seen\<close> is set, marks just that notice seen.\<close>

theorem single_spec:
  assumes "pk_distinct n_id tbl"
  shows "single usr nid mark_seen tbl =
    (case find (\<lambda>x. n_id x = nid) tbl of
       None \<Rightarrow> Inl Http404
     | Some n \<Rightarrow>
         if user_id usr = n_recipient n
         then Inr (SinglePage (n\<lparr>n_unseen := n_unseen n \<and> \<not> mark_seen\<rparr>),
                   map (\<lambda>x. if n_id x = nid \<and> mark_seen then x\<lparr>n_unseen := False\<rparr> else x) tbl)
         else Inl Http404)"
  using assms by (rule single_effect)

lemma mark_seen_loop_spec:
  "pk_distinct n_id tbl \<Longrightarrow> distinct (map n_id ns) \<Longrightarrow> set ns \<subseteq> set tbl \<Longrightarrow>
   mark_seen_loop ns tbl = map (\<lambda>x. if n_id x \<in> n_id ` set ns then x\<lparr>n_unseen := False\<rparr> else x) tbl"
proof (induction ns arbitrary: tbl)
  case Nil
  then show ?case by (simp add: map_idI)
next
  case (Cons n ns)
  let ?f = "\<lambda>x. if n_id x = n_id n then x\<lparr>n_unseen := False\<rparr> else x"
  have n: "n \<in> set tbl" using Cons.prems(3) by simp
  have t1: "orm_save n_id (n\<lparr>n_unseen := False\<rparr>) tbl = map ?f tbl"
    using orm_save_update_field [OF Cons.prems(1) n, of "\<lambda>x. x\<lparr>n_unseen := False\<rparr>"] by simp
  have pk1: "pk_distinct n_id (map ?f tbl)"
    using Cons.prems(1) t1 pk_distinct_orm_save [of n_id tbl "n\<lparr>n_unseen := False\<rparr>"] by simp
  have fresh: "n_id n \<notin> n_id ` set ns" using Cons.prems(2) by simp
  have sub1: "set ns \<subseteq> set (map ?f tbl)"
  proof
    fix m assume m: "m \<in> set ns"
    with fresh have "n_id m \<noteq> n_id n" by (metis image_eqI)
    moreover from m Cons.prems(3) have "m \<in> set tbl" by auto
    ultimately show "m \<in> set (map ?f tbl)" by (force simp: image_iff)
  qed
  have "mark_seen_loop ns (map ?f tbl) =
        map (\<lambda>x. if n_id x \<in> n_id ` set ns then x\<lparr>n_unseen := False\<rparr> else x) (map ?f tbl)"
    using Cons.IH [OF pk1 _ sub1] Cons.prems(2) by simp
  also have "\<dots> = map (\<lambda>x. if n_id x \<in> n_id ` set (n # ns) then x\<lparr>n_unseen := False\<rparr> else x) tbl"
    using fresh by auto
  finally show ?case using t1 by simp
qed

lemma mark_all_seen_effect:
  assumes "pk_distinct n_id tbl"
  shows "mark_all_seen usr tbl =
    (NoticeRedirect (Some notices_url),
     map (\<lambda>x. if n_recipient x = user_id usr \<and> \<not> n_archived x \<and> n_unseen x
              then x\<lparr>n_unseen := False\<rparr> else x) tbl)"
proof -
  let ?P = "\<lambda>x. n_recipient x = user_id usr \<and> \<not> n_archived x \<and> n_unseen x"
  have qs: "notices_for (user_id usr) (Some True) None tbl = filter ?P tbl"
    by (simp add: notices_for_def opt_match_def)
  have d: "distinct (map n_id (filter ?P tbl))"
    using assms by (simp add: pk_distinct_def distinct_map_filter_keep)
  have "mark_seen_loop (filter ?P tbl) tbl =
        map (\<lambda>x. if n_id x \<in> n_id ` set (filter ?P tbl) then x\<lparr>n_unseen := False\<rparr> else x) tbl"
    using mark_seen_loop_spec [OF assms d] by auto
  also have "\<dots> = map (\<lambda>x. if ?P x then x\<lparr>n_unseen := False\<rparr> else x) tbl"
  proof -
    have "\<And>x. x \<in> set tbl \<Longrightarrow> n_id x \<in> n_id ` set (filter ?P tbl) \<longleftrightarrow> ?P x"
      using assms by (auto simp: pk_distinct_def distinct_map dest: inj_onD)
    then show ?thesis by simp
  qed
  finally show ?thesis by (simp add: mark_all_seen_def qs)
qed


section \<open>Witnesses\<close>

theorem archive_spec_witness:
  "pk_distinct n_id ex_notices \<and>
   archive ex_bob (Some 2) (Some ''/'') ex_notices = Inr (NoticeRedirect (Some ''/''), ex_notices) \<and>
   archive ex_bob (Some 1) (Some ''/'') ex_notices =
     Inr (NoticeRedirect (Some ''/''), [ex_notice 1 3 True True, ex_notice 2 4 True False, ex_notice 3 3 True True])"
proof -
  have h: "pk_distinct n_id ex_notices" by (simp add: notices_eval)
  show ?thesis
    using h archive_spec [OF h, of ex_bob 2 "Some ''/''"] archive_spec [OF h, of ex_bob 1 "Some ''/''"]
    by (simp add: notices_eval)
qed

theorem delete_spec_witness:
  "pk_distinct n_id ex_notices \<and>
   delete ex_admin (Some 2) None ex_notices =
     Inr (NoticeRedirect None, [ex_notice 1 3 True False, ex_notice 3 3 True True]) \<and>
   delete ex_bob (Some 2) None ex_notices = Inr (NoticeRedirect None, ex_notices)"
proof -
  have h: "pk_distinct n_id ex_notices" by (simp add: notices_eval)
  show ?thesis
    using h delete_spec [OF h, of ex_admin 2 None] delete_spec [OF h, of ex_bob 2 None]
    by (simp add: notices_eval)
qed

theorem single_spec_witness:
  "pk_distinct n_id ex_notices \<and>
   single ex_bob 1 True ex_notices =
     Inr (SinglePage (ex_notice 1 3 False False),
          [ex_notice 1 3 False False, ex_notice 2 4 True False, ex_notice 3 3 True True]) \<and>
   single ex_bob 2 True ex_notices = Inl Http404 \<and> single ex_bob 9 True ex_notices = Inl Http404"
proof -
  have h: "pk_distinct n_id ex_notices" by (simp add: notices_eval)
  show ?thesis
    using h single_spec [OF h, of ex_bob 1 True] single_spec [OF h, of ex_bob 2 True]
      single_spec [OF h, of ex_bob 9 True]
    by (simp add: notices_eval)
qed


end
