(* ===== verification/ContentJSON.thy ===== *)
theory ContentJSON
  imports ORM
begin

text \<open>
  src/notification/json.py: \<open>ContentTypeJSONEncoder\<close> writes a Django model instance as
  the reference \<open>{'__model__': ct.model, '__app_label__': ct.app_label, 'id': obj.id}\<close>,
  where \<open>ct = ContentType.objects.get_for_model(obj)\<close> (which inserts the content type
  when it is missing), and leaves every other value to \<open>DjangoJSONEncoder.default\<close>
  (decimals and dates become strings, anything else raises \<open>TypeError\<close>).
  \<open>ContentTypeJSONDecoder\<close> installs \<open>dict_to_object\<close> as the object hook: every JSON
  object, after its members are decoded, is looked up as a model reference and returned
  unchanged when any step raises (the bare \<open>except\<close>).

  Python values are the datatype \<open>pyval\<close>, JSON documents the datatype \<open>json\<close> (the text
  level of simplejson is not modelled). The encoder threads the content-type table, the
  decoder reads the content types and the model rows (\<open>ct_db\<close>). The encoder recurses on
  the result of \<open>default\<close>, so its termination is proved with a weight that \<open>default\<close>
  decreases. The lemmas show the round trip, the encoder's errors, the content type it
  registers, the decoder's lookup, and two behaviours the spec warns of: a plain dict shaped
  like a reference is turned into a model, and a reference to a missing object comes back as
  a plain dict. Further lemmas cover the one-level depth of the recursion through
  \<open>default\<close>, and that the content-type table stays well formed and only grows by the
  content types of the encoded models. An exception carries the content-type table as it
  was when it was raised, since the rows \<open>get_for_model\<close> inserted are committed: exactly
  the start table after \<open>get_for_model\<close> of the models met before the error
  (\<open>encode_scan\<close>, \<open>register_all\<close>). The theory also defines \<open>str\<close> of an integer
  (\<open>py_str_of_int\<close>), with which the request layer recognises canonical keys.
\<close>


section \<open>Data\<close>

record content_type =
  ct_id :: pk
  ct_app_label :: string
  ct_model :: string

record model_obj =
  mo_app_label :: string
  mo_model :: string
  mo_id :: int
  mo_fields :: string

record ct_db =
  ct_rows :: "content_type list"
  obj_rows :: "model_obj list"

datatype pyval =
    PNone
  | PBool bool
  | PInt int
  | PStr string
  | PList "pyval list"
  | PDict "(string \<times> pyval) list"
  | PModel model_obj
  | PDecimal string
  | PDate string
  | POpaque string

datatype json =
    JNull
  | JBool bool
  | JInt int
  | JStr string
  | JArr "json list"
  | JObj "(string \<times> json) list"

section \<open>Encoder\<close>

definition ct_get_for_model :: "string \<Rightarrow> string \<Rightarrow> content_type list \<Rightarrow> content_type \<times> content_type list" where
  "ct_get_for_model a m cts =
     (case find (\<lambda>c. ct_app_label c = a \<and> ct_model c = m) cts of
        Some c \<Rightarrow> (c, cts)
      | None \<Rightarrow> orm_create ct_id (\<lambda>k. \<lparr>ct_id = k, ct_app_label = a, ct_model = m\<rparr>) cts)"

definition django_default :: "pyval \<Rightarrow> py_error + pyval" where
  "django_default v =
     (case v of
        PDecimal s \<Rightarrow> Inr (PStr s)
      | PDate s \<Rightarrow> Inr (PStr s)
      | _ \<Rightarrow> Inl TypeError)"

definition ct_default :: "pyval \<Rightarrow> content_type list \<Rightarrow> py_error \<times> content_type list + pyval \<times> content_type list" where
  "ct_default obj cts =
     (case obj of
        PModel mo \<Rightarrow>
          (case ct_get_for_model (mo_app_label mo) (mo_model mo) cts of
             (ct, cts') \<Rightarrow>
               Inr (PDict [(''__model__'', PStr (ct_model ct)), (''__app_label__'', PStr (ct_app_label ct)),
                           (''id'', PInt (mo_id mo))], cts'))
      | _ \<Rightarrow> (case django_default obj of Inl e \<Rightarrow> Inl (e, cts) | Inr v \<Rightarrow> Inr (v, cts)))"

fun weight :: "pyval \<Rightarrow> nat" where
  "weight (PList xs) = 2 + sum_list (map (\<lambda>x. Suc (weight x)) xs)"
| "weight (PDict d) = 2 + sum_list (map (\<lambda>kv. Suc (weight (snd kv))) d)"
| "weight (PModel mo) = 9"
| "weight (PDecimal s) = 2"
| "weight (PDate s) = 2"
| "weight v = 1"

function encode :: "pyval \<Rightarrow> content_type list \<Rightarrow> py_error \<times> content_type list + json \<times> content_type list"
and encode_list :: "pyval list \<Rightarrow> content_type list \<Rightarrow> py_error \<times> content_type list + json list \<times> content_type list"
and encode_dict :: "(string \<times> pyval) list \<Rightarrow> content_type list \<Rightarrow> py_error \<times> content_type list + (string \<times> json) list \<times> content_type list"
where
  "encode PNone cts = Inr (JNull, cts)"
| "encode (PBool b) cts = Inr (JBool b, cts)"
| "encode (PInt i) cts = Inr (JInt i, cts)"
| "encode (PStr s) cts = Inr (JStr s, cts)"
| "encode (PList xs) cts = (case encode_list xs cts of Inl e \<Rightarrow> Inl e | Inr (js, cts') \<Rightarrow> Inr (JArr js, cts'))"
| "encode (PDict d) cts = (case encode_dict d cts of Inl e \<Rightarrow> Inl e | Inr (ps, cts') \<Rightarrow> Inr (JObj ps, cts'))"
| "encode (PModel mo) cts = (case ct_default (PModel mo) cts of Inl e \<Rightarrow> Inl e | Inr (v, cts') \<Rightarrow> encode v cts')"
| "encode (PDecimal s) cts = (case ct_default (PDecimal s) cts of Inl e \<Rightarrow> Inl e | Inr (v, cts') \<Rightarrow> encode v cts')"
| "encode (PDate s) cts = (case ct_default (PDate s) cts of Inl e \<Rightarrow> Inl e | Inr (v, cts') \<Rightarrow> encode v cts')"
| "encode (POpaque s) cts = (case ct_default (POpaque s) cts of Inl e \<Rightarrow> Inl e | Inr (v, cts') \<Rightarrow> encode v cts')"
| "encode_list [] cts = Inr ([], cts)"
| "encode_list (x # xs) cts =
     (case encode x cts of
        Inl e \<Rightarrow> Inl e
      | Inr (j, cts1) \<Rightarrow>
          (case encode_list xs cts1 of Inl e \<Rightarrow> Inl e | Inr (js, cts2) \<Rightarrow> Inr (j # js, cts2)))"
| "encode_dict [] cts = Inr ([], cts)"
| "encode_dict ((k, x) # d) cts =
     (case encode x cts of
        Inl e \<Rightarrow> Inl e
      | Inr (j, cts1) \<Rightarrow>
          (case encode_dict d cts1 of Inl e \<Rightarrow> Inl e | Inr (ps, cts2) \<Rightarrow> Inr ((k, j) # ps, cts2)))"
  by pat_completeness auto

termination
  by (relation "measure (case_sum (\<lambda>(v, c). weight v)
                  (case_sum (\<lambda>(xs, c). Suc (sum_list (map (\<lambda>x. Suc (weight x)) xs)))
                            (\<lambda>(d, c). Suc (sum_list (map (\<lambda>kv. Suc (weight (snd kv))) d)))))")
     (auto simp: ct_default_def django_default_def split: prod.splits)

section \<open>Decoder\<close>

text \<open>A JSON object becomes a Python dict: a later duplicate key replaces the value in place.\<close>

fun dict_set :: "(string \<times> 'v) list \<Rightarrow> string \<Rightarrow> 'v \<Rightarrow> (string \<times> 'v) list" where
  "dict_set [] k v = [(k, v)]"
| "dict_set ((k', v') # d) k v = (if k' = k then (k, v) # d else (k', v') # dict_set d k v)"

definition dict_of :: "(string \<times> 'v) list \<Rightarrow> (string \<times> 'v) list" where
  "dict_of ps = foldl (\<lambda>d (k, v). dict_set d k v) [] ps"

definition dict_get :: "(string \<times> pyval) list \<Rightarrow> string \<Rightarrow> pyval" where
  "dict_get d k = (case map_of d k of Some v \<Rightarrow> v | None \<Rightarrow> PNone)"

text \<open>
  Python's \<open>int(s)\<close> on a string: surrounding whitespace is stripped, an optional sign
  and at least one decimal digit follow; anything else raises \<open>ValueError\<close> (\<open>None\<close> here).
\<close>

definition py_int_of_string :: "string \<Rightarrow> int option" where
  "py_int_of_string s =
     (let ws = (\<lambda>c. c = CHR '' '' \<or> ((9::nat) \<le> of_char c \<and> of_char c \<le> (13::nat)));
          digit = (\<lambda>c. (48::nat) \<le> of_char c \<and> of_char c \<le> (57::nat));
          val = (\<lambda>ds. foldl (\<lambda>a c. 10 * a + int (of_char c - 48)) 0 ds);
          ok = (\<lambda>ds. ds \<noteq> [] \<and> list_all digit ds);
          t = rev (dropWhile ws (rev (dropWhile ws s)))
      in case t of
           [] \<Rightarrow> None
         | c # ds \<Rightarrow>
             if c = CHR ''-'' then (if ok ds then Some (- val ds) else None)
             else if c = CHR ''+'' then (if ok ds then Some (val ds) else None)
             else if ok t then Some (val t) else None)"

text \<open>The coercion of a lookup value for the integer primary key \<open>id\<close>: \<open>None\<close> is SQL NULL.\<close>

definition pk_lookup_value :: "pyval \<Rightarrow> py_error + int option" where
  "pk_lookup_value v =
     (case v of
        PNone \<Rightarrow> Inr None
      | PInt i \<Rightarrow> Inr (Some i)
      | PBool b \<Rightarrow> Inr (Some (if b then 1 else 0))
      | PStr s \<Rightarrow> (case py_int_of_string s of Some i \<Rightarrow> Inr (Some i) | None \<Rightarrow> Inl ValueError)
      | _ \<Rightarrow> Inl TypeError)"

definition ct_objects_get :: "ct_db \<Rightarrow> pyval \<Rightarrow> pyval \<Rightarrow> py_error + content_type" where
  "ct_objects_get db app_label model =
     (case (app_label, model) of
        (PStr a, PStr m) \<Rightarrow> orm_get (\<lambda>c. ct_app_label c = a \<and> ct_model c = m) (ct_rows db)
      | _ \<Rightarrow> Inl DoesNotExist)"

definition get_object_for_this_type :: "ct_db \<Rightarrow> content_type \<Rightarrow> pyval \<Rightarrow> py_error + model_obj" where
  "get_object_for_this_type db ct idv =
     sbind (pk_lookup_value idv)
       (\<lambda>k. case k of
              None \<Rightarrow> Inl DoesNotExist
            | Some i \<Rightarrow> orm_get (\<lambda>mo. mo_app_label mo = ct_app_label ct \<and> mo_model mo = ct_model ct \<and> mo_id mo = i)
                          (obj_rows db))"

definition dict_to_object :: "ct_db \<Rightarrow> (string \<times> pyval) list \<Rightarrow> pyval" where
  "dict_to_object db d =
     (let model = dict_get d ''__model__'';
          app_label = dict_get d ''__app_label__'';
          idv = dict_get d ''id''
      in case sbind (ct_objects_get db app_label model) (\<lambda>model_type. get_object_for_this_type db model_type idv) of
           Inr mo \<Rightarrow> PModel mo
         | Inl _ \<Rightarrow> PDict d)"

fun decode :: "ct_db \<Rightarrow> json \<Rightarrow> pyval"
and decode_list :: "ct_db \<Rightarrow> json list \<Rightarrow> pyval list"
and decode_pairs :: "ct_db \<Rightarrow> (string \<times> json) list \<Rightarrow> (string \<times> pyval) list"
where
  "decode db JNull = PNone"
| "decode db (JBool b) = PBool b"
| "decode db (JInt i) = PInt i"
| "decode db (JStr s) = PStr s"
| "decode db (JArr js) = PList (decode_list db js)"
| "decode db (JObj ps) = dict_to_object db (dict_of (decode_pairs db ps))"
| "decode_list db [] = []"
| "decode_list db (j # js) = decode db j # decode_list db js"
| "decode_pairs db [] = []"
| "decode_pairs db ((k, j) # ps) = (k, decode db j) # decode_pairs db ps"

section \<open>Specification predicates\<close>

text \<open>
  A well-formed database: one content type per (app label, model), one row per
  (app label, model, id), and a content type for the model of every row.
\<close>

definition ct_db_wf :: "ct_db \<Rightarrow> bool" where
  "ct_db_wf db \<longleftrightarrow>
     distinct (map (\<lambda>c. (ct_app_label c, ct_model c)) (ct_rows db)) \<and>
     distinct (map (\<lambda>mo. (mo_app_label mo, mo_model mo, mo_id mo)) (obj_rows db)) \<and>
     (\<forall>mo\<in>set (obj_rows db). \<exists>c\<in>set (ct_rows db). ct_app_label c = mo_app_label mo \<and> ct_model c = mo_model mo)"

fun json_plain :: "ct_db \<Rightarrow> pyval \<Rightarrow> bool" where
  "json_plain db (PList xs) = list_all (json_plain db) xs"
| "json_plain db (PDict d) =
     (distinct (map fst d) \<and> ''__model__'' \<notin> set (map fst d) \<and> list_all (\<lambda>kv. json_plain db (snd kv)) d)"
| "json_plain db (PModel mo) = (mo \<in> set (obj_rows db))"
| "json_plain db (PDecimal s) = False"
| "json_plain db (PDate s) = False"
| "json_plain db (POpaque s) = False"
| "json_plain db v = True"

text \<open>Python's \<open>str\<close> of an integer: the form an id takes in a URL.\<close>

fun py_digits :: "nat \<Rightarrow> string" where
  "py_digits n = (if n < 10 then [char_of (48 + n)] else py_digits (n div 10) @ [char_of (48 + n mod 10)])"

definition py_str_of_int :: "int \<Rightarrow> string" where
  "py_str_of_int i = (if i < 0 then CHR ''-'' # py_digits (nat (- i)) else py_digits (nat i))"

text \<open>Values the encoder writes itself, without calling \<open>default\<close>.\<close>

fun json_native :: "pyval \<Rightarrow> bool" where
  "json_native (PList xs) = list_all json_native xs"
| "json_native (PDict d) = list_all (\<lambda>kv. json_native (snd kv)) d"
| "json_native (PModel mo) = False"
| "json_native (PDecimal s) = False"
| "json_native (PDate s) = False"
| "json_native (POpaque s) = False"
| "json_native v = True"

fun has_opaque :: "pyval \<Rightarrow> bool" where
  "has_opaque (PList xs) = list_ex has_opaque xs"
| "has_opaque (PDict d) = list_ex (\<lambda>kv. has_opaque (snd kv)) d"
| "has_opaque (POpaque s) = True"
| "has_opaque v = False"

text \<open>
  The labels \<open>(app_label, model)\<close> of a content-type table, its well-formedness, and the
  labels of the model instances inside a value.
\<close>

definition ct_labels :: "content_type list \<Rightarrow> (string \<times> string) list" where
  "ct_labels cts = map (\<lambda>c. (ct_app_label c, ct_model c)) cts"

definition ct_table_wf :: "content_type list \<Rightarrow> bool" where
  "ct_table_wf cts \<longleftrightarrow> distinct (ct_labels cts) \<and> pk_distinct ct_id cts"

fun model_labels :: "pyval \<Rightarrow> (string \<times> string) list" where
  "model_labels (PList xs) = concat (map model_labels xs)"
| "model_labels (PDict d) = concat (map (\<lambda>kv. model_labels (snd kv)) d)"
| "model_labels (PModel mo) = [(mo_app_label mo, mo_model mo)]"
| "model_labels v = []"

text \<open>
  The order in which the encoder meets model instances: their labels up to the first
  unserialisable object, and whether there is one; and the content-type table after
  \<open>get_for_model\<close> of each label in turn.
\<close>

fun scan_seq :: "((string \<times> string) list \<times> bool) list \<Rightarrow> (string \<times> string) list \<times> bool" where
  "scan_seq [] = ([], False)"
| "scan_seq (p # ps) = (if snd p then p else (fst p @ fst (scan_seq ps), snd (scan_seq ps)))"

fun encode_scan :: "pyval \<Rightarrow> (string \<times> string) list \<times> bool" where
  "encode_scan (PList xs) = scan_seq (map encode_scan xs)"
| "encode_scan (PDict d) = scan_seq (map (\<lambda>kv. encode_scan (snd kv)) d)"
| "encode_scan (PModel mo) = ([(mo_app_label mo, mo_model mo)], False)"
| "encode_scan (POpaque s) = ([], True)"
| "encode_scan v = ([], False)"

definition register_all :: "(string \<times> string) list \<Rightarrow> content_type list \<Rightarrow> content_type list" where
  "register_all ls cts = fold (\<lambda>(a, m) c. snd (ct_get_for_model a m c)) ls cts"

section \<open>Example data\<close>


definition ex_ct :: content_type where
  "ex_ct = \<lparr>ct_id = 1, ct_app_label = ''auth'', ct_model = ''user''\<rparr>"

definition ex_obj :: "int \<Rightarrow> model_obj" where
  "ex_obj i = \<lparr>mo_app_label = ''auth'', mo_model = ''user'', mo_id = i, mo_fields = ''u''\<rparr>"

definition ex_db :: ct_db where
  "ex_db = \<lparr>ct_rows = [ex_ct], obj_rows = [ex_obj 5, ex_obj 7]\<rparr>"

definition ex_value :: pyval where
  "ex_value = PList [PModel (ex_obj 5), PDict [(''a'', PInt 1), (''b'', PList [PNone, PBool True])], PStr ''x'']"

definition ex_user_dict :: pyval where
  "ex_user_dict = PDict [(''__model__'', PStr ''user''), (''__app_label__'', PStr ''auth''), (''id'', PInt 5),
                         (''note'', PStr ''kept'')]"

section \<open>Lemmas\<close>

lemmas json_eval = ex_ct_def ex_obj_def ex_db_def ex_value_def ex_user_dict_def ct_db_wf_def

lemma ct_get_for_model_labels:
  "ct_get_for_model a m cts = (c, cts') \<Longrightarrow> ct_app_label c = a \<and> ct_model c = m"
  by (auto simp: ct_get_for_model_def orm_create_def Let_def dest: find_Some_iff [THEN iffD1]
           split: option.splits)

lemma ct_get_for_model_existing:
  assumes "\<exists>c\<in>set cts. ct_app_label c = a \<and> ct_model c = m"
  shows "snd (ct_get_for_model a m cts) = cts"
proof -
  from assms have "find (\<lambda>c. ct_app_label c = a \<and> ct_model c = m) cts \<noteq> None"
    by (simp add: find_None_iff) blast
  then show ?thesis by (auto simp: ct_get_for_model_def)
qed

lemma encode_model:
  "encode (PModel mo) cts =
     Inr (JObj [(''__model__'', JStr (mo_model mo)), (''__app_label__'', JStr (mo_app_label mo)),
                (''id'', JInt (mo_id mo))],
          snd (ct_get_for_model (mo_app_label mo) (mo_model mo) cts))"
  by (cases "ct_get_for_model (mo_app_label mo) (mo_model mo) cts")
     (auto simp: ct_default_def dest: ct_get_for_model_labels)

lemma decode_model_ref:
  assumes wf: "ct_db_wf db" and mo: "mo \<in> set (obj_rows db)"
  shows "decode db (JObj [(''__model__'', JStr (mo_model mo)), (''__app_label__'', JStr (mo_app_label mo)),
                          (''id'', JInt (mo_id mo))]) = PModel mo"
proof -
  from wf mo obtain c where c: "c \<in> set (ct_rows db)" "ct_app_label c = mo_app_label mo" "ct_model c = mo_model mo"
    by (auto simp: ct_db_wf_def)
  have ct: "orm_get (\<lambda>x. ct_app_label x = mo_app_label mo \<and> ct_model x = mo_model mo) (ct_rows db) = Inr c"
    using wf c by (intro orm_get_unique_by [where key = "\<lambda>c. (ct_app_label c, ct_model c)"]) (auto simp: ct_db_wf_def)
  have ob: "orm_get (\<lambda>x. mo_app_label x = ct_app_label c \<and> mo_model x = ct_model c \<and> mo_id x = mo_id mo) (obj_rows db) = Inr mo"
    using wf mo c by (intro orm_get_unique_by [where key = "\<lambda>mo. (mo_app_label mo, mo_model mo, mo_id mo)"])
                     (auto simp: ct_db_wf_def)
  show ?thesis
    using ct ob by (simp add: dict_of_def dict_to_object_def dict_get_def ct_objects_get_def
                             get_object_for_this_type_def pk_lookup_value_def del: orm_get_Inr_iff)
qed

lemma dict_set_new: "k \<notin> set (map fst d) \<Longrightarrow> dict_set d k v = d @ [(k, v)]"
  by (induction d) auto

lemma dict_of_distinct: "distinct (map fst d) \<Longrightarrow> dict_of d = d"
proof -
  have "distinct (map fst (acc @ d)) \<Longrightarrow> foldl (\<lambda>d (k, v). dict_set d k v) acc d = acc @ d" for acc
  proof (induction d arbitrary: acc)
    case (Cons kv d)
    then show ?case by (cases kv) (simp add: dict_set_new)
  qed simp
  from this [of "[]"] show "distinct (map fst d) \<Longrightarrow> dict_of d = d" by (simp add: dict_of_def)
qed

lemma ct_objects_get_None: "ct_objects_get db a PNone = Inl DoesNotExist"
  by (cases a) (simp_all add: ct_objects_get_def)

lemma dict_to_object_plain: "''__model__'' \<notin> set (map fst d) \<Longrightarrow> dict_to_object db d = PDict d"
proof -
  assume "''__model__'' \<notin> set (map fst d)"
  then have "map_of d ''__model__'' = None" by (simp add: map_of_eq_None_iff)
  then show ?thesis by (simp add: dict_to_object_def dict_get_def ct_objects_get_None)
qed

lemma encode_list_same:
  "(\<And>x. x \<in> set xs \<Longrightarrow> \<exists>j. encode x cts = Inr (j, cts) \<and> decode db j = x) \<Longrightarrow>
   \<exists>js. encode_list xs cts = Inr (js, cts) \<and> decode_list db js = xs"
  by (induction xs) force+

lemma encode_dict_same:
  "(\<And>k x. (k, x) \<in> set d \<Longrightarrow> \<exists>j. encode x cts = Inr (j, cts) \<and> decode db j = x) \<Longrightarrow>
   \<exists>ps. encode_dict d cts = Inr (ps, cts) \<and> decode_pairs db ps = d"
proof (induction d)
  case (Cons kx d)
  then show ?case by (cases kx) force
qed simp

lemma decode_encode_plain:
  "ct_db_wf db \<Longrightarrow> json_plain db v \<Longrightarrow>
   \<exists>j. encode v (ct_rows db) = Inr (j, ct_rows db) \<and> decode db j = v"
proof (induction v)
  case (PList xs)
  then obtain js where "encode_list xs (ct_rows db) = Inr (js, ct_rows db)" "decode_list db js = xs"
    using encode_list_same [of xs "ct_rows db" db] by (auto simp: list_all_iff)
  then show ?case by simp
next
  case (PDict d)
  then obtain ps where "encode_dict d (ct_rows db) = Inr (ps, ct_rows db)" "decode_pairs db ps = d"
    using encode_dict_same [of d "ct_rows db" db] by (fastforce simp: list_all_iff)
  with PDict.prems show ?case by (simp add: dict_of_distinct dict_to_object_plain)
next
  case (PModel mo)
  then have "\<exists>c\<in>set (ct_rows db). ct_app_label c = mo_app_label mo \<and> ct_model c = mo_model mo"
    by (auto simp: ct_db_wf_def)
  with PModel show ?case by (simp add: encode_model ct_get_for_model_existing decode_model_ref del: encode.simps decode.simps)
qed auto

lemma encode_Inl_iff:
  "(\<exists>c. encode v cts = Inl (e, c)) \<longleftrightarrow> e = TypeError \<and> has_opaque v"
  "(\<exists>c. encode_list xs cts = Inl (e, c)) \<longleftrightarrow> e = TypeError \<and> list_ex has_opaque xs"
  "(\<exists>c. encode_dict d cts = Inl (e, c)) \<longleftrightarrow> e = TypeError \<and> list_ex (\<lambda>kv. has_opaque (snd kv)) d"
proof (induction v cts and xs cts and d cts arbitrary: e and e and e rule: encode_encode_list_encode_dict.induct)
  case (5 xs cts)
  then show ?case by (cases "encode_list xs cts") auto
next
  case (6 d cts)
  then show ?case by (cases "encode_dict d cts") auto
next
  case (7 mo cts)
  show ?case by (simp add: encode_model del: encode.simps)
next
  case (8 s cts)
  show ?case by (simp add: ct_default_def django_default_def)
next
  case (9 s cts)
  show ?case by (simp add: ct_default_def django_default_def)
next
  case (10 s cts)
  show ?case by (auto simp: ct_default_def django_default_def)
next
  case (12 x xs cts)
  show ?case
  proof (cases "encode x cts")
    case (Inl p)
    obtain e0 c0 where p: "encode x cts = Inl (e0, c0)" using Inl by (cases p) auto
    with "12.IH"(1) [of e0] "12.IH"(1) [of e] show ?thesis by auto
  next
    case (Inr r)
    obtain j cts1 where r: "encode x cts = Inr (j, cts1)" using Inr by (cases r) auto
    have nx: "\<not> has_opaque x" using "12.IH"(1) [of TypeError] r by auto
    have ih: "(\<exists>c. encode_list xs cts1 = Inl (e, c)) \<longleftrightarrow> e = TypeError \<and> list_ex has_opaque xs"
      using "12.IH"(2) [OF r refl] .
    show ?thesis using r nx ih by (cases "encode_list xs cts1") auto
  qed
next
  case (14 k x d cts)
  show ?case
  proof (cases "encode x cts")
    case (Inl p)
    obtain e0 c0 where p: "encode x cts = Inl (e0, c0)" using Inl by (cases p) auto
    with "14.IH"(1) [of e0] "14.IH"(1) [of e] show ?thesis by auto
  next
    case (Inr r)
    obtain j cts1 where r: "encode x cts = Inr (j, cts1)" using Inr by (cases r) auto
    have nx: "\<not> has_opaque x" using "14.IH"(1) [of TypeError] r by auto
    have ih: "(\<exists>c. encode_dict d cts1 = Inl (e, c)) \<longleftrightarrow> e = TypeError \<and> list_ex (\<lambda>kv. has_opaque (snd kv)) d"
      using "14.IH"(2) [OF r refl] .
    show ?thesis using r nx ih by (cases "encode_dict d cts1") auto
  qed
qed simp_all

lemma register_all_simps [simp]:
  "register_all [] cts = cts"
  "register_all (l @ l') cts = register_all l' (register_all l cts)"
  by (simp_all add: register_all_def)

lemma snd_scan_seq: "snd (scan_seq ps) = list_ex snd ps"
  by (induction ps) auto

lemma list_ex_map: "list_ex P (map f xs) = list_ex (\<lambda>x. P (f x)) xs"
  by (induction xs) auto

lemma snd_encode_scan: "snd (encode_scan v) = has_opaque v"
proof (induction v rule: encode_scan.induct)
  case (2 d)
  then have "list_ex (\<lambda>kv. snd (encode_scan (snd kv))) d = list_ex (\<lambda>kv. has_opaque (snd kv)) d"
    by (simp add: list_ex_iff)
  then show ?case by (simp add: snd_scan_seq list_ex_map)
qed (simp_all add: snd_scan_seq list_ex_map list_ex_iff)

lemma encode_Inr_scan:
  "encode v cts = Inr (j, c) \<Longrightarrow> c = register_all (fst (encode_scan v)) cts"
  "encode_list xs cts = Inr (js, c) \<Longrightarrow> c = register_all (fst (scan_seq (map encode_scan xs))) cts"
  "encode_dict d cts = Inr (ps, c) \<Longrightarrow> c = register_all (fst (scan_seq (map (\<lambda>kv. encode_scan (snd kv)) d))) cts"
proof (induction v cts and xs cts and d cts arbitrary: j c and js c and ps c
       rule: encode_encode_list_encode_dict.induct)
  case (5 xs cts)
  from "5.prems" obtain js' where "encode_list xs cts = Inr (js', c)"
    by (auto split: sum.splits prod.splits)
  from "5.IH" [OF this] show ?case by simp
next
  case (6 d cts)
  from "6.prems" obtain ps' where "encode_dict d cts = Inr (ps', c)"
    by (auto split: sum.splits prod.splits)
  from "6.IH" [OF this] show ?case by simp
next
  case (7 mo cts)
  from "7.prems" show ?case by (simp add: encode_model register_all_def del: encode.simps)
next
  case (8 s cts)
  from "8.prems" show ?case by (simp add: ct_default_def django_default_def)
next
  case (9 s cts)
  from "9.prems" show ?case by (simp add: ct_default_def django_default_def)
next
  case (10 s cts)
  from "10.prems" show ?case by (simp add: ct_default_def django_default_def)
next
  case (12 x xs cts)
  obtain j1 c1 js1 where x: "encode x cts = Inr (j1, c1)" and r: "encode_list xs c1 = Inr (js1, c)"
    using "12.prems" by (auto split: sum.splits prod.splits)
  have n: "\<not> snd (encode_scan x)"
    using x encode_Inl_iff(1) [of x cts TypeError] by (auto simp: snd_encode_scan)
  from "12.IH"(1) [OF x] "12.IH"(2) [OF x refl r] n show ?case by simp
next
  case (14 k x d cts)
  obtain j1 c1 ps1 where x: "encode x cts = Inr (j1, c1)" and r: "encode_dict d c1 = Inr (ps1, c)"
    using "14.prems" by (auto split: sum.splits prod.splits)
  have n: "\<not> snd (encode_scan x)"
    using x encode_Inl_iff(1) [of x cts TypeError] by (auto simp: snd_encode_scan)
  from "14.IH"(1) [OF x] "14.IH"(2) [OF x refl r] n show ?case by simp
qed simp_all

lemma encode_Inl_scan:
  "encode v cts = Inl (e, c) \<Longrightarrow> c = register_all (fst (encode_scan v)) cts"
  "encode_list xs cts = Inl (e, c) \<Longrightarrow> c = register_all (fst (scan_seq (map encode_scan xs))) cts"
  "encode_dict d cts = Inl (e, c) \<Longrightarrow> c = register_all (fst (scan_seq (map (\<lambda>kv. encode_scan (snd kv)) d))) cts"
proof (induction v cts and xs cts and d cts arbitrary: e c and e c and e c
       rule: encode_encode_list_encode_dict.induct)
  case (5 xs cts)
  from "5.prems" have "encode_list xs cts = Inl (e, c)" by (auto split: sum.splits prod.splits)
  from "5.IH" [OF this] show ?case by simp
next
  case (6 d cts)
  from "6.prems" have "encode_dict d cts = Inl (e, c)" by (auto split: sum.splits prod.splits)
  from "6.IH" [OF this] show ?case by simp
next
  case (7 mo cts)
  from "7.prems" show ?case by (simp add: encode_model del: encode.simps)
next
  case (8 s cts)
  from "8.prems" show ?case by (simp add: ct_default_def django_default_def)
next
  case (9 s cts)
  from "9.prems" show ?case by (simp add: ct_default_def django_default_def)
next
  case (10 s cts)
  from "10.prems" show ?case by (simp add: ct_default_def django_default_def)
next
  case (12 x xs cts)
  show ?case
  proof (cases "encode x cts")
    case (Inl p)
    with "12.prems" have x: "encode x cts = Inl (e, c)" by (cases p) simp
    have "snd (encode_scan x)"
      using x encode_Inl_iff(1) [of x cts e] by (auto simp: snd_encode_scan)
    with "12.IH"(1) [OF x] show ?thesis by simp
  next
    case (Inr p)
    then obtain j1 c1 where x: "encode x cts = Inr (j1, c1)" by (cases p) auto
    with "12.prems" have r: "encode_list xs c1 = Inl (e, c)" by (auto split: sum.splits prod.splits)
    have n: "\<not> snd (encode_scan x)"
      using x encode_Inl_iff(1) [of x cts TypeError] by (auto simp: snd_encode_scan)
    from encode_Inr_scan(1) [OF x] "12.IH"(2) [OF x refl r] n show ?thesis by simp
  qed
next
  case (14 k x d cts)
  show ?case
  proof (cases "encode x cts")
    case (Inl p)
    with "14.prems" have x: "encode x cts = Inl (e, c)" by (cases p) simp
    have "snd (encode_scan x)"
      using x encode_Inl_iff(1) [of x cts e] by (auto simp: snd_encode_scan)
    with "14.IH"(1) [OF x] show ?thesis by simp
  next
    case (Inr p)
    then obtain j1 c1 where x: "encode x cts = Inr (j1, c1)" by (cases p) auto
    with "14.prems" have r: "encode_dict d c1 = Inl (e, c)" by (auto split: sum.splits prod.splits)
    have n: "\<not> snd (encode_scan x)"
      using x encode_Inl_iff(1) [of x cts TypeError] by (auto simp: snd_encode_scan)
    from encode_Inr_scan(1) [OF x] "14.IH"(2) [OF x refl r] n show ?thesis by simp
  qed
qed simp_all

text \<open>C15: The encoder raises an error exactly when the value contains an object that neither \<open>ContentTypeJSONEncoder.default\<close> nor \<open>DjangoJSONEncoder.default\<close> can serialise, and the error is then \<open>TypeError\<close>. The exception carries exactly the content-type table the encoder left: the starting table after \<open>get_for_model\<close> of every model met, in the encoder's order, before the first unserialisable object.\<close>

theorem encode_fails_iff:
  "encode v cts = Inl (e, c) \<longleftrightarrow>
   e = TypeError \<and> has_opaque v \<and> c = register_all (fst (encode_scan v)) cts"
proof
  assume l: "encode v cts = Inl (e, c)"
  with encode_Inl_iff(1) [of v cts e] encode_Inl_scan(1) [OF l] show "e = TypeError \<and> has_opaque v \<and> c = register_all (fst (encode_scan v)) cts"
    by blast
next
  assume r: "e = TypeError \<and> has_opaque v \<and> c = register_all (fst (encode_scan v)) cts"
  then obtain c' where l: "encode v cts = Inl (TypeError, c')" using encode_Inl_iff(1) [of v cts TypeError] by blast
  with encode_Inl_scan(1) [OF l] r show "encode v cts = Inl (e, c)" by simp
qed

text \<open>C16: A model instance is encoded as the reference with its model name, app label and id; the content-type table is unchanged when the model has a content type, and otherwise gains one with the next key.\<close>

theorem encode_model_registers:
  "encode (PModel mo) cts =
     Inr (JObj [(''__model__'', JStr (mo_model mo)), (''__app_label__'', JStr (mo_app_label mo)),
                (''id'', JInt (mo_id mo))],
          if \<exists>c\<in>set cts. ct_app_label c = mo_app_label mo \<and> ct_model c = mo_model mo then cts
          else cts @ [\<lparr>ct_id = orm_next_pk ct_id cts, ct_app_label = mo_app_label mo, ct_model = mo_model mo\<rparr>])"
proof (cases "\<exists>c\<in>set cts. ct_app_label c = mo_app_label mo \<and> ct_model c = mo_model mo")
  case True
  then show ?thesis by (simp add: encode_model ct_get_for_model_existing del: encode.simps)
next
  case False
  then have "find (\<lambda>c. ct_app_label c = mo_app_label mo \<and> ct_model c = mo_model mo) cts = None"
    by (auto simp: find_None_iff)
  with False show ?thesis
    by (simp add: encode_model ct_get_for_model_def orm_create_def Let_def del: encode.simps)
qed

text \<open>C14: Round trip of the JSON encoder and decoder: on a well-formed database, every value made of None, booleans, integers, strings, lists, dicts with distinct keys and no \<open>__model__\<close> key, and stored model objects is encoded without error and without adding a content type, and decoding the result gives the value back.\<close>

theorem decode_encode_roundtrip:
  "ct_db_wf db \<Longrightarrow> json_plain db v \<Longrightarrow>
   \<exists>j. encode v (ct_rows db) = Inr (j, ct_rows db) \<and> decode db j = v"
  by (rule decode_encode_plain)

lemma ct_objects_get_Inr:
  "ct_objects_get db a m = Inr c \<Longrightarrow>
   c \<in> set (ct_rows db) \<and> a = PStr (ct_app_label c) \<and> m = PStr (ct_model c)"
  by (auto simp: ct_objects_get_def split: pyval.splits dest: orm_get_Inr_member simp del: orm_get_Inr_iff)

lemma get_object_for_this_type_Inr:
  "get_object_for_this_type db c idv = Inr mo \<Longrightarrow>
   mo \<in> set (obj_rows db) \<and> mo_app_label mo = ct_app_label c \<and> mo_model mo = ct_model c \<and>
   pk_lookup_value idv = Inr (Some (mo_id mo))"
  by (auto simp: get_object_for_this_type_def split: option.splits dest: orm_get_Inr_member
           simp del: orm_get_Inr_iff)

lemma dict_to_object_PModel_iff:
  assumes wf: "ct_db_wf db"
  shows "dict_to_object db d = PModel mo \<longleftrightarrow>
           mo \<in> set (obj_rows db) \<and> dict_get d ''__model__'' = PStr (mo_model mo) \<and>
           dict_get d ''__app_label__'' = PStr (mo_app_label mo) \<and>
           pk_lookup_value (dict_get d ''id'') = Inr (Some (mo_id mo))"
    (is "?lhs \<longleftrightarrow> ?rhs")
proof
  assume ?lhs
  then obtain c where "ct_objects_get db (dict_get d ''__app_label__'') (dict_get d ''__model__'') = Inr c"
    "get_object_for_this_type db c (dict_get d ''id'') = Inr mo"
    by (auto simp: dict_to_object_def Let_def split: sum.splits)
  then show ?rhs by (auto dest!: ct_objects_get_Inr get_object_for_this_type_Inr)
next
  assume r: ?rhs
  from wf r obtain c where c: "c \<in> set (ct_rows db)" "ct_app_label c = mo_app_label mo" "ct_model c = mo_model mo"
    by (auto simp: ct_db_wf_def)
  have ct: "orm_get (\<lambda>x. ct_app_label x = mo_app_label mo \<and> ct_model x = mo_model mo) (ct_rows db) = Inr c"
    using wf c by (intro orm_get_unique_by [where key = "\<lambda>c. (ct_app_label c, ct_model c)"]) (auto simp: ct_db_wf_def)
  have ob: "orm_get (\<lambda>x. mo_app_label x = ct_app_label c \<and> mo_model x = ct_model c \<and> mo_id x = mo_id mo) (obj_rows db) = Inr mo"
    using wf r c by (intro orm_get_unique_by [where key = "\<lambda>mo. (mo_app_label mo, mo_model mo, mo_id mo)"])
                     (auto simp: ct_db_wf_def)
  show ?lhs
    using r ct ob by (simp add: dict_to_object_def ct_objects_get_def get_object_for_this_type_def
                               del: orm_get_Inr_iff)
qed

text \<open>C17: On a well-formed database, \<open>dict_to_object\<close> turns a dict into a model object exactly when its \<open>__model__\<close> and \<open>__app_label__\<close> entries are the strings naming a content type and its \<open>id\<close> entry, coerced as Django coerces a primary-key lookup, is the id of a stored object of that model; when no stored object matches, it returns the dict itself (the bare \<open>except\<close>).\<close>

theorem dict_to_object_model_iff:
  assumes wf: "ct_db_wf db"
  shows "(dict_to_object db d = PModel mo \<longleftrightarrow>
           mo \<in> set (obj_rows db) \<and> dict_get d ''__model__'' = PStr (mo_model mo) \<and>
           dict_get d ''__app_label__'' = PStr (mo_app_label mo) \<and>
           pk_lookup_value (dict_get d ''id'') = Inr (Some (mo_id mo))) \<and>
         ((\<exists>mo'. mo' \<in> set (obj_rows db) \<and> dict_get d ''__model__'' = PStr (mo_model mo') \<and>
                dict_get d ''__app_label__'' = PStr (mo_app_label mo') \<and>
                pk_lookup_value (dict_get d ''id'') = Inr (Some (mo_id mo'))) \<or>
          dict_to_object db d = PDict d)"
proof -
  have "dict_to_object db d = PDict d \<or> (\<exists>mo'. dict_to_object db d = PModel mo')"
    by (auto simp: dict_to_object_def Let_def split: sum.splits)
  with dict_to_object_PModel_iff [OF wf] show ?thesis by blast
qed

text \<open>C19: A reference to an object that is not in the database (deleted, say) is not reported: the decoder silently returns the reference as a plain dict.\<close>

theorem decode_missing_object_ref:
  assumes "\<not> list_ex (\<lambda>x. mo_app_label x = a \<and> mo_model x = m \<and> mo_id x = i) (obj_rows db)"
  shows "decode db (JObj [(''__model__'', JStr m), (''__app_label__'', JStr a), (''id'', JInt i)]) =
           PDict [(''__model__'', PStr m), (''__app_label__'', PStr a), (''id'', PInt i)]"
proof -
  let ?d = "[(''__model__'', PStr m), (''__app_label__'', PStr a), (''id'', PInt i)]"
  have "dict_to_object db ?d = PDict ?d"
  proof (cases "sbind (ct_objects_get db (PStr a) (PStr m)) (\<lambda>c. get_object_for_this_type db c (PInt i))")
    case (Inr mo)
    then obtain c where "ct_objects_get db (PStr a) (PStr m) = Inr c" "get_object_for_this_type db c (PInt i) = Inr mo"
      by auto
    with assms show ?thesis
      by (auto dest!: ct_objects_get_Inr get_object_for_this_type_Inr simp: pk_lookup_value_def list_ex_iff)
  qed (simp add: dict_to_object_def dict_get_def)
  then show ?thesis by (simp add: dict_of_def)
qed

text \<open>
  C18: The decoder cannot tell a plain dict from a model reference: on a well-formed
  database, any dict with distinct keys and plain values whose \<open>__model__\<close>,
  \<open>__app_label__\<close> and \<open>id\<close> entries name a stored object is encoded unchanged (no
  new content type) but decoded as that model object; its other keys are lost.
\<close>

theorem decode_user_dict_as_model:
  assumes wf: "ct_db_wf db" and mo: "mo \<in> set (obj_rows db)"
    and dk: "distinct (map fst d)" and vals: "list_all (\<lambda>kv. json_plain db (snd kv)) d"
    and m: "map_of d ''__model__'' = Some (PStr (mo_model mo))"
    and a: "map_of d ''__app_label__'' = Some (PStr (mo_app_label mo))"
    and k: "map_of d ''id'' = Some (PInt (mo_id mo))"
  shows "\<exists>j. encode (PDict d) (ct_rows db) = Inr (j, ct_rows db) \<and> decode db j = PModel mo"
proof -
  obtain ps where e: "encode_dict d (ct_rows db) = Inr (ps, ct_rows db)" and p: "decode_pairs db ps = d"
    using encode_dict_same [of d "ct_rows db" db] decode_encode_plain [OF wf] vals
    by (fastforce simp: list_all_iff)
  have "dict_to_object db d = PModel mo"
    using dict_to_object_PModel_iff [OF wf, of d mo] mo m a k
    by (simp add: dict_get_def pk_lookup_value_def)
  with e p dk show ?thesis by (simp add: dict_of_distinct)
qed

lemma encode_list_keep:
  "(\<And>x. x \<in> set xs \<Longrightarrow> \<exists>j. encode x cts = Inr (j, cts)) \<Longrightarrow> \<exists>js. encode_list xs cts = Inr (js, cts)"
  by (induction xs) force+

lemma encode_dict_keep:
  "(\<And>k x. (k, x) \<in> set d \<Longrightarrow> \<exists>j. encode x cts = Inr (j, cts)) \<Longrightarrow> \<exists>ps. encode_dict d cts = Inr (ps, cts)"
proof (induction d)
  case (Cons kx d)
  then show ?case by (cases kx) force
qed simp

lemma encode_native:
  "json_native v \<Longrightarrow> \<exists>j. encode v cts = Inr (j, cts)"
proof (induction v)
  case (PList xs)
  then obtain js where "encode_list xs cts = Inr (js, cts)"
    using encode_list_keep [of xs cts] by (auto simp: list_all_iff)
  then show ?case by simp
next
  case (PDict d)
  then obtain ps where "encode_dict d cts = Inr (ps, cts)"
    using encode_dict_keep [of d cts] by (fastforce simp: list_all_iff)
  then show ?case by simp
qed auto

text \<open>
  C31: The encoder's recursion through \<open>default\<close> is one level deep, so it stops:
  whatever \<open>ContentTypeJSONEncoder.default\<close> returns is written natively, without
  another call of \<open>default\<close>, without error and without a new content type.
\<close>

theorem ct_default_result_native:
  assumes "ct_default v cts = Inr (v', cts')"
  shows "json_native v' \<and> (\<exists>j. encode v' cts' = Inr (j, cts'))"
proof -
  have "json_native v'"
    using assms by (cases v) (auto simp: ct_default_def django_default_def split: prod.splits)
  then show ?thesis using encode_native by blast
qed

declare py_digits.simps [simp del]

subsection \<open>The content-type table\<close>

lemma ct_get_for_model_table:
  assumes wf: "ct_table_wf cts"
  shows "ct_table_wf (snd (ct_get_for_model a m cts)) \<and> (\<exists>new. snd (ct_get_for_model a m cts) = cts @ new) \<and>
         set (ct_labels (snd (ct_get_for_model a m cts))) = insert (a, m) (set (ct_labels cts))"
proof (cases "find (\<lambda>c. ct_app_label c = a \<and> ct_model c = m) cts")
  case None
  then have nin: "(a, m) \<notin> set (ct_labels cts)"
    by (auto simp: find_None_iff ct_labels_def)
  let ?c = "\<lparr>ct_id = orm_next_pk ct_id cts, ct_app_label = a, ct_model = m\<rparr>"
  have s: "snd (ct_get_for_model a m cts) = cts @ [?c]"
    using None by (simp add: ct_get_for_model_def orm_create_def Let_def)
  have "pk_distinct ct_id (cts @ [?c])"
    using wf orm_next_pk_not_used [of ct_id cts]
    by (auto simp: ct_table_wf_def pk_distinct_def list_ex_iff)
  with wf nin s show ?thesis by (simp add: ct_table_wf_def ct_labels_def)
next
  case (Some c)
  then have "(a, m) \<in> set (ct_labels cts)"
    by (force simp: find_Some_iff ct_labels_def in_set_conv_nth)
  with Some wf show ?thesis by (auto simp: ct_get_for_model_def)
qed

lemma encode_table:
  "ct_table_wf cts \<Longrightarrow> encode v cts = Inr (j, cts') \<Longrightarrow>
     ct_table_wf cts' \<and> (\<exists>new. cts' = cts @ new) \<and>
     set (ct_labels cts') = set (ct_labels cts) \<union> set (model_labels v)"
  "ct_table_wf cts \<Longrightarrow> encode_list xs cts = Inr (js, cts') \<Longrightarrow>
     ct_table_wf cts' \<and> (\<exists>new. cts' = cts @ new) \<and>
     set (ct_labels cts') = set (ct_labels cts) \<union> set (concat (map model_labels xs))"
  "ct_table_wf cts \<Longrightarrow> encode_dict d cts = Inr (ps, cts') \<Longrightarrow>
     ct_table_wf cts' \<and> (\<exists>new. cts' = cts @ new) \<and>
     set (ct_labels cts') = set (ct_labels cts) \<union> set (concat (map (\<lambda>kv. model_labels (snd kv)) d))"
proof (induction v cts and xs cts and d cts arbitrary: j cts' and js cts' and ps cts'
       rule: encode_encode_list_encode_dict.induct)
  case (5 xs cts)
  from "5.prems"(2) obtain js where "encode_list xs cts = Inr (js, cts')"
    by (auto split: sum.splits prod.splits)
  from "5.IH" [OF "5.prems"(1) this] show ?case by simp
next
  case (6 d cts)
  from "6.prems"(2) obtain ps where "encode_dict d cts = Inr (ps, cts')"
    by (auto split: sum.splits prod.splits)
  from "6.IH" [OF "6.prems"(1) this] show ?case by simp
next
  case (7 mo cts)
  from "7.prems"(2) have "cts' = snd (ct_get_for_model (mo_app_label mo) (mo_model mo) cts)"
    by (simp add: encode_model del: encode.simps)
  with ct_get_for_model_table [OF "7.prems"(1)] show ?case by simp
next
  case (8 s cts)
  from "8.prems" show ?case by (simp add: ct_default_def django_default_def)
next
  case (9 s cts)
  from "9.prems" show ?case by (simp add: ct_default_def django_default_def)
next
  case (10 s cts)
  from "10.prems" show ?case by (simp add: ct_default_def django_default_def)
next
  case (12 x xs cts)
  obtain j1 cts1 js1 where x: "encode x cts = Inr (j1, cts1)" and r: "encode_list xs cts1 = Inr (js1, cts')"
    using "12.prems"(2) by (auto split: sum.splits prod.splits)
  note a = "12.IH"(1) [OF "12.prems"(1) x]
  note b = "12.IH"(2) [OF x refl conjunct1 [OF a] r]
  from a b show ?case by auto
next
  case (14 k x d cts)
  obtain j1 cts1 ps1 where x: "encode x cts = Inr (j1, cts1)" and r: "encode_dict d cts1 = Inr (ps1, cts')"
    using "14.prems"(2) by (auto split: sum.splits prod.splits)
  note a = "14.IH"(1) [OF "14.prems"(1) x]
  note b = "14.IH"(2) [OF x refl conjunct1 [OF a] r]
  from a b show ?case by auto
qed simp_all

text \<open>
  A \<open>TypeError\<close> does not undo the content types registered before it: the table it
  leaves is still well formed and extends the one the encoder started from.
\<close>

lemma encode_json_indep:
  "encode v c1 = Inr (j1, d1) \<Longrightarrow> encode v c2 = Inr (j2, d2) \<Longrightarrow> j1 = j2"
  "encode_list xs c1 = Inr (js1, d1) \<Longrightarrow> encode_list xs c2 = Inr (js2, d2) \<Longrightarrow> js1 = js2"
  "encode_dict d c1 = Inr (ps1, d1) \<Longrightarrow> encode_dict d c2 = Inr (ps2, d2) \<Longrightarrow> ps1 = ps2"
proof (induction v c1 and xs c1 and d c1 arbitrary: j1 d1 c2 j2 d2 and js1 d1 c2 js2 d2 and ps1 d1 c2 ps2 d2
       rule: encode_encode_list_encode_dict.induct)
  case (5 xs cts)
  from "5.prems" obtain a b where "encode_list xs cts = Inr (a, d1)" "encode_list xs c2 = Inr (b, d2)"
    "j1 = JArr a" "j2 = JArr b" by (auto split: sum.splits prod.splits)
  with "5.IH" show ?case by blast
next
  case (6 d cts)
  from "6.prems" obtain a b where "encode_dict d cts = Inr (a, d1)" "encode_dict d c2 = Inr (b, d2)"
    "j1 = JObj a" "j2 = JObj b" by (auto split: sum.splits prod.splits)
  with "6.IH" show ?case by blast
next
  case (7 mo cts)
  from "7.prems" show ?case by (simp add: encode_model del: encode.simps)
next
  case (8 s cts)
  from "8.prems" show ?case by (simp add: ct_default_def django_default_def)
next
  case (9 s cts)
  from "9.prems" show ?case by (simp add: ct_default_def django_default_def)
next
  case (10 s cts)
  from "10.prems" show ?case by (simp add: ct_default_def django_default_def)
next
  case (12 x xs cts)
  obtain a e1 as where x1: "encode x cts = Inr (a, e1)" and r1: "encode_list xs e1 = Inr (as, d1)"
    and j1: "js1 = a # as"
    using "12.prems"(1) by (auto split: sum.splits prod.splits)
  obtain b e2 bs where x2: "encode x c2 = Inr (b, e2)" and r2: "encode_list xs e2 = Inr (bs, d2)"
    and j2: "js2 = b # bs"
    using "12.prems"(2) by (auto split: sum.splits prod.splits)
  have "a = b" using "12.IH"(1) [OF x1 x2] .
  moreover have "as = bs" using "12.IH"(2) [OF x1 refl r1 r2] .
  ultimately show ?case using j1 j2 by simp
next
  case (14 k x d cts)
  obtain a e1 as where x1: "encode x cts = Inr (a, e1)" and r1: "encode_dict d e1 = Inr (as, d1)"
    and j1: "ps1 = (k, a) # as"
    using "14.prems"(1) by (auto split: sum.splits prod.splits)
  obtain b e2 bs where x2: "encode x c2 = Inr (b, e2)" and r2: "encode_dict d e2 = Inr (bs, d2)"
    and j2: "ps2 = (k, b) # bs"
    using "14.prems"(2) by (auto split: sum.splits prod.splits)
  have "a = b" using "14.IH"(1) [OF x1 x2] .
  moreover have "as = bs" using "14.IH"(2) [OF x1 refl r1 r2] .
  ultimately show ?case using j1 j2 by simp
qed simp_all

lemma distinct_append_same_set:
  "distinct (xs @ ys) \<Longrightarrow> set (xs @ ys) = set xs \<Longrightarrow> ys = []"
  by (cases ys) auto

text \<open>
  C34: The content-type table the encoder threads stays well formed (one row per app label
  and model, distinct keys) and only grows at its end, by the content types of the model
  instances in the value. Encoding the same value again against the grown table gives the
  same JSON and adds nothing.
\<close>

theorem encode_ct_table_invariant:
  assumes wf: "ct_table_wf cts" and e: "encode v cts = Inr (j, cts')"
  shows "ct_table_wf cts' \<and> (\<exists>new. cts' = cts @ new) \<and>
         set (ct_labels cts') = set (ct_labels cts) \<union> set (model_labels v) \<and>
         encode v cts' = Inr (j, cts')"
proof -
  note t = encode_table(1) [OF wf e]
  have "\<not> has_opaque v" using e encode_Inl_iff(1) [of v cts TypeError] by auto
  then obtain j2 c2 where e2: "encode v cts' = Inr (j2, c2)"
    using encode_Inl_iff(1) [of v cts'] by (cases "encode v cts'") auto
  note t2 = encode_table(1) [OF conjunct1 [OF t] e2]
  then obtain new where c2: "c2 = cts' @ new" by blast
  have "set (ct_labels c2) = set (ct_labels cts')" using t t2 by auto
  moreover have "distinct (ct_labels cts' @ ct_labels new)"
    using t2 c2 by (simp add: ct_table_wf_def ct_labels_def)
  ultimately have "ct_labels new = []"
    using c2 distinct_append_same_set [of "ct_labels cts'" "ct_labels new"] by (simp add: ct_labels_def)
  then have "new = []" by (simp add: ct_labels_def)
  with c2 e2 encode_json_indep(1) [OF e e2] t show ?thesis by simp
qed

section \<open>Witnesses\<close>

theorem ct_default_result_native_witness:
  "ct_default (PModel (ex_obj 5)) [ex_ct] =
     Inr (PDict [(''__model__'', PStr ''user''), (''__app_label__'', PStr ''auth''), (''id'', PInt 5)], [ex_ct]) \<and>
   json_native (PDict [(''__model__'', PStr ''user''), (''__app_label__'', PStr ''auth''), (''id'', PInt 5)])"
proof -
  have d: "ct_default (PModel (ex_obj 5)) [ex_ct] =
     Inr (PDict [(''__model__'', PStr ''user''), (''__app_label__'', PStr ''auth''), (''id'', PInt 5)], [ex_ct])"
    by (simp add: ct_default_def ct_get_for_model_def json_eval)
  show ?thesis using d ct_default_result_native [OF d] by simp
qed


theorem decode_encode_roundtrip_witness:
  "ct_db_wf ex_db \<and> json_plain ex_db ex_value \<and>
   (\<exists>j. encode ex_value (ct_rows ex_db) = Inr (j, ct_rows ex_db) \<and> decode ex_db j = ex_value)"
proof -
  have h1: "ct_db_wf ex_db" by (simp add: json_eval)
  have h2: "json_plain ex_db ex_value" by (simp add: json_eval)
  show ?thesis using decode_encode_roundtrip [OF h1 h2] h1 h2 by blast
qed

theorem encode_model_registers_witness:
  "encode (PModel (ex_obj 5)) [ex_ct] =
     Inr (JObj [(''__model__'', JStr ''user''), (''__app_label__'', JStr ''auth''), (''id'', JInt 5)], [ex_ct]) \<and>
   encode (PModel (ex_obj 5)) [] =
     Inr (JObj [(''__model__'', JStr ''user''), (''__app_label__'', JStr ''auth''), (''id'', JInt 5)],
          [\<lparr>ct_id = 1, ct_app_label = ''auth'', ct_model = ''user''\<rparr>])"
  using encode_model_registers [of "ex_obj 5" "[ex_ct]"] encode_model_registers [of "ex_obj 5" "[]"]
  by (simp add: json_eval orm_next_pk_def del: encode.simps)

theorem dict_to_object_model_iff_witness:
  "ct_db_wf ex_db \<and>
   dict_to_object ex_db [(''__model__'', PStr ''user''), (''__app_label__'', PStr ''auth''), (''id'', PInt 7)] =
     PModel (ex_obj 7) \<and>
   dict_to_object ex_db [(''__model__'', PStr ''user''), (''__app_label__'', PStr ''auth''), (''id'', PInt 9)] =
     PDict [(''__model__'', PStr ''user''), (''__app_label__'', PStr ''auth''), (''id'', PInt 9)]"
proof -
  have h: "ct_db_wf ex_db" by (simp add: json_eval)
  show ?thesis
    using h dict_to_object_model_iff [OF h, of "[(''__model__'', PStr ''user''), (''__app_label__'', PStr ''auth''), (''id'', PInt 7)]" "ex_obj 7"]
      dict_to_object_model_iff [OF h, of "[(''__model__'', PStr ''user''), (''__app_label__'', PStr ''auth''), (''id'', PInt 9)]" "ex_obj 9"]
    by (auto simp: json_eval dict_get_def pk_lookup_value_def)
qed

theorem decode_missing_object_ref_witness:
  "\<not> list_ex (\<lambda>x. mo_app_label x = ''auth'' \<and> mo_model x = ''user'' \<and> mo_id x = 6) (obj_rows ex_db) \<and>
   decode ex_db (JObj [(''__model__'', JStr ''user''), (''__app_label__'', JStr ''auth''), (''id'', JInt 6)]) =
     PDict [(''__model__'', PStr ''user''), (''__app_label__'', PStr ''auth''), (''id'', PInt 6)]"
proof -
  have h: "\<not> list_ex (\<lambda>x. mo_app_label x = ''auth'' \<and> mo_model x = ''user'' \<and> mo_id x = 6) (obj_rows ex_db)"
    by (simp add: json_eval)
  show ?thesis using h decode_missing_object_ref [OF h] by simp
qed

theorem encode_ct_table_invariant_witness:
  "ct_table_wf [ex_ct] \<and>
   set (ct_labels [ex_ct]) = set (ct_labels []) \<union> set (model_labels ex_value) \<and>
   encode ex_value [ex_ct] =
     Inr (JArr [JObj [(''__model__'', JStr ''user''), (''__app_label__'', JStr ''auth''), (''id'', JInt 5)],
                JObj [(''a'', JInt 1), (''b'', JArr [JNull, JBool True])], JStr ''x''], [ex_ct])"
  using encode_ct_table_invariant [of "[]" ex_value
      "JArr [JObj [(''__model__'', JStr ''user''), (''__app_label__'', JStr ''auth''), (''id'', JInt 5)],
             JObj [(''a'', JInt 1), (''b'', JArr [JNull, JBool True])], JStr ''x'']" "[ex_ct]"]
  by (simp add: json_eval ct_table_wf_def ct_labels_def pk_distinct_def ct_default_def ct_get_for_model_def
                orm_create_def orm_next_pk_def)

theorem encode_fails_iff_witness:
  "encode (PList [PModel (ex_obj 5), POpaque ''f'']) [] = Inl (TypeError, [ex_ct]) \<and>
   has_opaque (PList [PModel (ex_obj 5), POpaque ''f''])"
  using encode_fails_iff [of "PList [PModel (ex_obj 5), POpaque ''f'']" "[]" TypeError "[ex_ct]"]
  by (simp add: json_eval register_all_def ct_get_for_model_def orm_create_def orm_next_pk_def Let_def)

theorem decode_user_dict_as_model_witness:
  "\<exists>j. encode ex_user_dict (ct_rows ex_db) = Inr (j, ct_rows ex_db) \<and> decode ex_db j = PModel (ex_obj 5)"
  using decode_user_dict_as_model [of ex_db "ex_obj 5"
      "[(''__model__'', PStr ''user''), (''__app_label__'', PStr ''auth''), (''id'', PInt 5), (''note'', PStr ''kept'')]"]
  by (simp add: json_eval)

end
