(* ===== verification/Views.thy ===== *)
theory Views
  imports Notices ContentJSON
begin

text \<open>
  The request layer of src/notification/views.py: the decorators (\<open>login_required\<close>,
  \<open>basic_auth_required\<close>), the feed view \<open>feed_for_user\<close>, the class-based view
  \<open>ManageNotifications\<close>, and a dispatcher \<open>handle\<close> that routes a request to the
  views of Notices.thy and Settings.thy over one state of the site (the Notice,
  ObservedItem and NoticeSetting tables). A step relation over that state and its
  reachable states carry the invariants that span the views.
\<close>

section \<open>Requests, responses and the site\<close>

record http_request =
  req_user :: "user option"
  req_basic_auth :: "user option"
  req_method :: http_method
  req_post :: query_dict
  req_path :: string

datatype route =
    RFeed
  | RNotices
  | RNoticeSettings
  | RSingle pk bool
  | RArchive "pk option" "string option"
  | RDelete "pk option" "string option"
  | RMarkAllSeen
  | RManage "(string \<times> string) list"

datatype response =
    NoticesResponse notices_response
  | SettingsResponse settings_response
  | LoginRedirect string
  | AuthRequired
  | ManagePage model_obj notification_form
  | ManageRedirect string

record site_config =
  cfg_defaults :: media_defaults
  cfg_media :: notice_media
  cfg_notice_types :: "notice_type list"
  cfg_cts :: ct_db

record site =
  st_notices :: "notice list"
  st_observed :: "observed_item list"
  st_settings :: settings_db

text \<open>
  The first positional argument a decorator's wrapper receives: the request for a view
  function, the view instance when the decorator is put on a method.
\<close>

datatype py_arg = ArgRequest http_request | ArgManageView

type_synonym view_result = "py_error \<times> site + response \<times> site"

section \<open>Decorators\<close>

text \<open>
  \<open>login_required\<close>: \<open>request.user.is_authenticated()\<close> decides; an anonymous user is
  redirected to \<open>settings.LOGIN_URL\<close> with the path as \<open>next\<close>. Reading \<open>.user\<close>
  of an argument that is not a request raises \<open>AttributeError\<close>.
\<close>

definition login_required :: "(user \<Rightarrow> site \<Rightarrow> view_result) \<Rightarrow> py_arg \<Rightarrow> site \<Rightarrow> view_result" where
  "login_required view arg st =
     (case arg of
        ArgRequest r \<Rightarrow>
          (case req_user r of
             Some usr \<Rightarrow> view usr st
           | None \<Rightarrow> Inr (LoginRedirect (''/accounts/login/?next='' @ req_path r), st))
      | ArgManageView \<Rightarrow> Inl (AttributeError ''user'', st))"

text \<open>
  \<open>basic_auth_required\<close> (notification/decorators.py): a logged-in user passes; otherwise
  the credentials of the \<open>Authorization\<close> header log a user in, or the answer is 401.
\<close>

definition basic_auth_required :: "(user \<Rightarrow> site \<Rightarrow> view_result) \<Rightarrow> http_request \<Rightarrow> site \<Rightarrow> view_result" where
  "basic_auth_required view r st =
     (case req_user r of
        Some usr \<Rightarrow> view usr st
      | None \<Rightarrow> (case req_basic_auth r of Some usr \<Rightarrow> view usr st | None \<Rightarrow> Inr (AuthRequired, st)))"

section \<open>feed_for_user\<close>

text \<open>The body calls \<open>feed\<close>, a name neither imported nor defined in views.py.\<close>

definition feed_for_user :: "user \<Rightarrow> site \<Rightarrow> view_result" where
  "feed_for_user usr st = (let url = ''feed/'' @ username usr in Inl (NameError ''feed'', st))"

section \<open>ManageNotifications\<close>

definition get_for_id :: "ct_db \<Rightarrow> string \<Rightarrow> py_error + content_type" where
  "get_for_id db s =
     sbind (pk_lookup_value (PStr s))
       (\<lambda>k. case k of
              None \<Rightarrow> Inl DoesNotExist
            | Some i \<Rightarrow> if i < 0 then Inl DoesNotExist else orm_get (\<lambda>c. ct_id c = nat i) (ct_rows db))"

text \<open>
  \<open>get_content_type\<close>: \<open>self.content_type\<close> is the class attribute \<open>None\<close> on the fresh
  instance \<open>as_view\<close> makes for each request, so the lookup \<open>get_for_id\<close> of the
  \<open>content_type\<close> URL argument always runs; a missing argument is a \<open>KeyError\<close>.
\<close>

definition get_content_type :: "site_config \<Rightarrow> (string \<times> string) list \<Rightarrow> py_error + content_type" where
  "get_content_type cfg kw =
     (case map_of kw ''content_type'' of None \<Rightarrow> Inl KeyError | Some s \<Rightarrow> get_for_id (cfg_cts cfg) s)"

definition get_object_id :: "(string \<times> string) list \<Rightarrow> py_error + string" where
  "get_object_id kw = (case map_of kw ''object_id'' of None \<Rightarrow> Inl KeyError | Some s \<Rightarrow> Inr s)"

definition get_object :: "site_config \<Rightarrow> content_type \<Rightarrow> string \<Rightarrow> py_error + model_obj" where
  "get_object cfg ct oid = get_object_for_this_type (cfg_cts cfg) ct (PStr oid)"

definition get_form :: "site_config \<Rightarrow> content_type \<Rightarrow> model_obj \<Rightarrow> user \<Rightarrow> site \<Rightarrow> notification_form" where
  "get_form cfg ct obj usr st =
     notification_form_init (ct_id ct) (nat (mo_id obj)) (user_id usr) (cfg_notice_types cfg) (st_observed st)"

definition get_success_url :: "http_request \<Rightarrow> string" where
  "get_success_url r = req_path r"

text \<open>
  The submitted \<open>notices\<close>, as \<open>ModelMultipleChoiceField.clean\<close> reads them: a value
  that \<open>int()\<close> rejects is \<open>invalid_pk_value\<close>, and a value that is not exactly
  \<open>force_unicode(pk)\<close> of a row is \<open>invalid_choice\<close>; so only the canonical decimal
  string of a non-negative key passes (not \<open>'02'\<close>, \<open>' 2'\<close> or \<open>'+2'\<close>). Membership in
  the form's queryset is checked next, by \<open>notices_clean\<close>.
\<close>

definition post_notice_ids :: "query_dict \<Rightarrow> py_error + pk list" where
  "post_notice_ids q =
     (let vs = map snd (filter (\<lambda>kv. fst kv = ''notices'') q)
      in if list_all (\<lambda>v. case py_int_of_string v of Some i \<Rightarrow> 0 \<le> i \<and> py_str_of_int i = v | None \<Rightarrow> False) vs
         then Inr (map (\<lambda>v. nat (the (py_int_of_string v))) vs) else Inl ValidationError)"

definition form_valid :: "notification_form \<Rightarrow> notice_type list \<Rightarrow> http_request \<Rightarrow> site \<Rightarrow> view_result" where
  "form_valid f now r st =
     (case notification_form_save f now (st_observed st) of
        Inl (e, items) \<Rightarrow> Inl (e, st\<lparr>st_observed := items\<rparr>)
      | Inr items \<Rightarrow> Inr (ManageRedirect (get_success_url r), st\<lparr>st_observed := items\<rparr>))"

definition manage_get :: "site_config \<Rightarrow> content_type \<Rightarrow> string \<Rightarrow> user \<Rightarrow> site \<Rightarrow> view_result" where
  "manage_get cfg ct oid usr st =
     sbind (raise_with st (get_object cfg ct oid)) (\<lambda>obj. Inr (ManagePage obj (get_form cfg ct obj usr st), st))"

definition manage_post :: "site_config \<Rightarrow> content_type \<Rightarrow> string \<Rightarrow> http_request \<Rightarrow> user \<Rightarrow> site \<Rightarrow> view_result" where
  "manage_post cfg ct oid r usr st =
     sbind (raise_with st (get_object cfg ct oid)) (\<lambda>obj.
       let f = get_form cfg ct obj usr st in
       case sbind (post_notice_ids (req_post r)) (notices_clean f) of
         Inr now \<Rightarrow> form_valid f now r st
       | Inl _ \<Rightarrow> Inr (ManagePage obj f, st))"

definition manage_dispatch :: "site_config \<Rightarrow> http_request \<Rightarrow> (string \<times> string) list \<Rightarrow> user \<Rightarrow> site \<Rightarrow> view_result" where
  "manage_dispatch cfg r kw usr st =
     sbind (raise_with st (get_content_type cfg kw)) (\<lambda>ct.
     sbind (raise_with st (get_object_id kw)) (\<lambda>oid.
       if req_method r = GET then manage_get cfg ct oid usr st else manage_post cfg ct oid r usr st))"

text \<open>
  \<open>@login_required\<close> decorates the method \<open>dispatch\<close>: \<open>as_view\<close> calls
  \<open>self.dispatch(request, ...)\<close>, so the wrapper's \<open>request\<close> parameter is the view
  instance.
\<close>

definition manage_notifications :: "site_config \<Rightarrow> http_request \<Rightarrow> (string \<times> string) list \<Rightarrow> site \<Rightarrow> view_result" where
  "manage_notifications cfg r kw st = login_required (manage_dispatch cfg r kw) ArgManageView st"

section \<open>Dispatch and steps\<close>

definition on_notices ::
  "(notice list \<Rightarrow> py_error + notices_response \<times> notice list) \<Rightarrow> site \<Rightarrow> view_result" where
  "on_notices v st =
     (case v (st_notices st) of
        Inl e \<Rightarrow> Inl (e, st)
      | Inr (resp, tbl) \<Rightarrow> Inr (NoticesResponse resp, st\<lparr>st_notices := tbl\<rparr>))"

definition on_settings :: "site_config \<Rightarrow> http_request \<Rightarrow> user \<Rightarrow> site \<Rightarrow> view_result" where
  "on_settings cfg r usr st =
     (case notice_settings (cfg_defaults cfg) (cfg_media cfg) usr (req_method r) (req_post r)
             (cfg_notice_types cfg) (st_settings st) of
        Inl (e, db) \<Rightarrow> Inl (e, st\<lparr>st_settings := db\<rparr>)
      | Inr (resp, db) \<Rightarrow> Inr (SettingsResponse resp, st\<lparr>st_settings := db\<rparr>))"

definition handle :: "site_config \<Rightarrow> http_request \<Rightarrow> route \<Rightarrow> site \<Rightarrow> view_result" where
  "handle cfg r rt st =
     (case rt of
        RFeed \<Rightarrow> basic_auth_required feed_for_user r st
      | RNotices \<Rightarrow>
          login_required (\<lambda>usr st. Inr (NoticesResponse (notices_view usr (st_notices st)), st)) (ArgRequest r) st
      | RNoticeSettings \<Rightarrow> login_required (on_settings cfg r) (ArgRequest r) st
      | RSingle nid ms \<Rightarrow> login_required (\<lambda>usr. on_notices (single usr nid ms)) (ArgRequest r) st
      | RArchive nid np \<Rightarrow> login_required (\<lambda>usr. on_notices (archive usr nid np)) (ArgRequest r) st
      | RDelete nid np \<Rightarrow> login_required (\<lambda>usr. on_notices (delete usr nid np)) (ArgRequest r) st
      | RMarkAllSeen \<Rightarrow> login_required (\<lambda>usr. on_notices (\<lambda>tbl. Inr (mark_all_seen usr tbl))) (ArgRequest r) st
      | RManage kw \<Rightarrow> manage_notifications cfg r kw st)"

text \<open>
  A request that raises leaves the tables as it left them: Django commits every
  \<open>save()\<close> and \<open>delete()\<close> at once, so an exception carries the state the view had
  written so far (\<open>view_result\<close> is \<open>py_error \<times> site + response \<times> site\<close>).
\<close>

inductive site_step :: "site_config \<Rightarrow> site \<Rightarrow> site \<Rightarrow> bool" where
  ok: "handle cfg r rt st = Inr (resp, st') \<Longrightarrow> site_step cfg st st'"
| error: "handle cfg r rt st = Inl (e, st') \<Longrightarrow> site_step cfg st st'"

inductive reachable :: "site_config \<Rightarrow> site \<Rightarrow> site \<Rightarrow> bool" for cfg st0 where
  init: "reachable cfg st0 st0"
| step: "reachable cfg st0 st \<Longrightarrow> site_step cfg st st' \<Longrightarrow> reachable cfg st0 st'"

section \<open>Invariants and abstract steps\<close>

definition config_wf :: "site_config \<Rightarrow> bool" where
  "config_wf cfg \<longleftrightarrow>
     list_all (\<lambda>(m, disp). cfg_defaults cfg m \<noteq> None) (cfg_media cfg) \<and>
     distinct (map fst (cfg_media cfg)) \<and> pk_distinct nt_id (cfg_notice_types cfg)"

definition site_wf :: "site \<Rightarrow> bool" where
  "site_wf st \<longleftrightarrow>
     pk_distinct n_id (st_notices st) \<and> observers_wf (st_observed st) \<and> settings_wf (st_settings st)"

text \<open>
  What a request of \<open>usr\<close> may do to one notice: nothing, archive it when \<open>usr\<close> is its
  recipient or a superuser, or mark it seen when \<open>usr\<close> is its recipient.
\<close>

definition notice_evolves :: "user \<Rightarrow> notice \<Rightarrow> notice \<Rightarrow> bool" where
  "notice_evolves usr n n' \<longleftrightarrow>
     n' = n \<or>
     (n' = n\<lparr>n_archived := True\<rparr> \<and> (n_recipient n = user_id usr \<or> is_superuser usr)) \<or>
     (n' = n\<lparr>n_unseen := False\<rparr> \<and> n_recipient n = user_id usr)"

text \<open>
  The abstract step of the Notice table for a request of \<open>usr\<close>: some rows, each of the
  recipient's own or any when \<open>usr\<close> is a superuser, are deleted, and every other row
  evolves as above, in place.
\<close>

definition notices_evolve :: "user \<Rightarrow> notice list \<Rightarrow> notice list \<Rightarrow> bool" where
  "notices_evolve usr tbl tbl' \<longleftrightarrow>
     (\<exists>P f. tbl' = map f (filter P tbl) \<and>
        (\<forall>n\<in>set tbl. notice_evolves usr n (f n)) \<and>
        (\<forall>n\<in>set tbl. \<not> P n \<longrightarrow> n_recipient n = user_id usr \<or> is_superuser usr))"

text \<open>
  A notice \<open>n'\<close> descends from \<open>n\<close>: the same notice, perhaps archived or marked
  seen since.
\<close>

definition notice_descends :: "notice \<Rightarrow> notice \<Rightarrow> bool" where
  "notice_descends n n' \<longleftrightarrow>
     n_id n' = n_id n \<and> n_recipient n' = n_recipient n \<and> n_sender n' = n_sender n \<and>
     n_message n' = n_message n \<and> n_notice_type n' = n_notice_type n \<and>
     (n_archived n \<longrightarrow> n_archived n') \<and> (\<not> n_unseen n \<longrightarrow> \<not> n_unseen n')"

section \<open>Example data\<close>

definition ex_post_ct :: content_type where
  "ex_post_ct = \<lparr>ct_id = 7, ct_app_label = ''blog'', ct_model = ''post''\<rparr>"

definition ex_post :: model_obj where
  "ex_post = \<lparr>mo_app_label = ''blog'', mo_model = ''post'', mo_id = 9, mo_fields = ''p''\<rparr>"

definition ex_cfg :: site_config where
  "ex_cfg = \<lparr>cfg_defaults = ex_defaults, cfg_media = ex_media, cfg_notice_types = ex_nts,
             cfg_cts = \<lparr>ct_rows = [ex_post_ct], obj_rows = [ex_post]\<rparr>\<rparr>"

definition ex_site :: site where
  "ex_site = \<lparr>st_notices = ex_notices, st_observed = [ex_oi 5 1 ''post_save''], st_settings = ex_settings_db\<rparr>"

definition ex_site1 :: site where
  "ex_site1 = ex_site\<lparr>st_notices := [ex_notice 1 3 True True, ex_notice 2 4 True False, ex_notice 3 3 True True]\<rparr>"

definition ex_manage_kw :: "(string \<times> string) list" where
  "ex_manage_kw = [(''content_type'', ''7''), (''object_id'', ''9'')]"

definition ex_request :: "user option \<Rightarrow> http_request" where
  "ex_request u = \<lparr>req_user = u, req_basic_auth = None, req_method = GET, req_post = [], req_path = ''/n/''\<rparr>"

section \<open>Lemmas\<close>

inductive_cases site_step_cases: "site_step cfg st st'"

lemma notices_evolve_refl: "notices_evolve usr tbl tbl"
  unfolding notices_evolve_def by (rule exI [of _ "\<lambda>_. True"], rule exI [of _ id]) (simp add: notice_evolves_def)

lemma notices_evolve_map:
  "\<forall>n\<in>set tbl. notice_evolves usr n (f n) \<Longrightarrow> notices_evolve usr tbl (map f tbl)"
  unfolding notices_evolve_def by (rule exI [of _ "\<lambda>_. True"], rule exI [of _ f]) simp

lemma notices_evolve_filter:
  "\<forall>n\<in>set tbl. \<not> P n \<longrightarrow> n_recipient n = user_id usr \<or> is_superuser usr \<Longrightarrow>
   notices_evolve usr tbl (filter P tbl)"
  unfolding notices_evolve_def by (rule exI [of _ P], rule exI [of _ id]) (simp add: notice_evolves_def)

lemma archive_evolve:
  assumes "pk_distinct n_id tbl" "archive usr nid np tbl = Inr (resp, tbl')"
  shows "notices_evolve usr tbl tbl'"
proof (cases nid)
  case None
  with assms(2) show ?thesis by (simp add: archive_def notices_evolve_refl)
next
  case (Some k)
  with assms archive_effect [OF assms(1), of usr k np] show ?thesis
    by (auto intro!: notices_evolve_map simp: notice_evolves_def)
qed

lemma delete_evolve:
  assumes "pk_distinct n_id tbl" "delete usr nid np tbl = Inr (resp, tbl')"
  shows "notices_evolve usr tbl tbl'"
proof (cases nid)
  case None
  with assms(2) show ?thesis by (simp add: delete_def notices_evolve_refl)
next
  case (Some k)
  with assms delete_effect [OF assms(1), of usr k np] show ?thesis
    by (auto intro!: notices_evolve_filter)
qed

lemma single_evolve:
  assumes pk: "pk_distinct n_id tbl" and r: "single usr nid ms tbl = Inr (resp, tbl')"
  shows "notices_evolve usr tbl tbl'"
proof (cases "find (\<lambda>x. n_id x = nid) tbl")
  case None
  with r single_effect [OF pk, of usr nid ms] show ?thesis by simp
next
  case (Some n)
  then have n: "n \<in> set tbl" "n_id n = nid" by (auto simp: find_Some_iff nth_mem)
  have uniq: "\<forall>x\<in>set tbl. n_id x = nid \<longrightarrow> x = n"
    using pk n by (auto simp: pk_distinct_def distinct_map dest: inj_onD)
  show ?thesis
  proof (cases "user_id usr = n_recipient n")
    case True
    with Some r single_effect [OF pk, of usr nid ms] have
      "tbl' = map (\<lambda>x. if n_id x = nid \<and> ms then x\<lparr>n_unseen := False\<rparr> else x) tbl" by simp
    with uniq True show ?thesis by (auto intro!: notices_evolve_map simp: notice_evolves_def)
  next
    case False
    with Some r single_effect [OF pk, of usr nid ms] show ?thesis by simp
  qed
qed

lemma mark_all_seen_evolve:
  assumes "pk_distinct n_id tbl" "mark_all_seen usr tbl = (resp, tbl')"
  shows "notices_evolve usr tbl tbl'"
  using assms mark_all_seen_effect [OF assms(1), of usr]
  by (auto intro!: notices_evolve_map simp: notice_evolves_def)

lemma notices_evolve_ids:
  assumes "notices_evolve usr tbl tbl'"
  shows "\<exists>P. map n_id tbl' = map n_id (filter P tbl)"
proof -
  from assms obtain P f where t: "tbl' = map f (filter P tbl)" and e: "\<forall>n\<in>set tbl. notice_evolves usr n (f n)"
    unfolding notices_evolve_def by blast
  have "\<forall>n\<in>set tbl. n_id (f n) = n_id n" using e by (auto simp: notice_evolves_def)
  then have "map n_id tbl' = map n_id (filter P tbl)" by (simp add: t map_eq_conv)
  then show ?thesis by blast
qed

lemma notices_evolve_pk_distinct:
  "notices_evolve usr tbl tbl' \<Longrightarrow> pk_distinct n_id tbl \<Longrightarrow> pk_distinct n_id tbl'"
  using notices_evolve_ids [of usr tbl tbl'] by (auto simp: pk_distinct_def distinct_map_filter)

lemma notice_settings_wf:
  assumes wf: "settings_wf db" and defs: "list_all (\<lambda>(m, disp). defs m \<noteq> None) media"
    and dm: "distinct (map fst media)" and dn: "distinct (map nt_id nts)"
    and r: "notice_settings defs media usr meth post nts db = Inr (resp, db')"
  shows "settings_wf db'"
proof (cases meth)
  case GET
  obtain db1 rows where t: "settings_table defs media (user_id usr) GET post nts db = Inr (rows, db1)"
    and wf1: "settings_wf db1"
    using settings_table_GET [OF wf defs, of "user_id usr" post nts] by blast
  from r GET t have "db' = db1" by (simp add: notice_settings_def)
  with wf1 show ?thesis by simp
next
  case POST
  with r notice_settings_post_run [OF wf defs dm dn, of usr post] show ?thesis by auto
qed

lemma on_notices_Inr:
  "on_notices v st = Inr (resp, st') \<Longrightarrow>
   \<exists>resp0 tbl. v (st_notices st) = Inr (resp0, tbl) \<and> st' = st\<lparr>st_notices := tbl\<rparr>"
  by (auto simp: on_notices_def split: sum.splits)

lemma on_settings_Inr:
  "on_settings cfg r usr st = Inr (resp, st') \<Longrightarrow>
   \<exists>resp0 db. notice_settings (cfg_defaults cfg) (cfg_media cfg) usr (req_method r) (req_post r)
                 (cfg_notice_types cfg) (st_settings st) = Inr (resp0, db) \<and> st' = st\<lparr>st_settings := db\<rparr>"
  by (auto simp: on_settings_def split: sum.splits)

lemma on_notices_Inl: "on_notices v st = Inl (e, st') \<Longrightarrow> st' = st"
  by (auto simp: on_notices_def split: sum.splits)

lemma on_settings_Inl:
  "on_settings cfg r usr st = Inl (e, st') \<Longrightarrow>
   \<exists>db. notice_settings (cfg_defaults cfg) (cfg_media cfg) usr (req_method r) (req_post r)
           (cfg_notice_types cfg) (st_settings st) = Inl (e, db) \<and> st' = st\<lparr>st_settings := db\<rparr>"
  by (auto simp: on_settings_def split: sum.splits)

lemmas handle_unfold = handle_def login_required_def basic_auth_required_def feed_for_user_def
  manage_notifications_def

text \<open>
  A request that raises keeps what it committed: only the settings view writes before it
  can raise, so the Notice and ObservedItem tables are as they were and the NoticeSetting
  table is the one the view left.
\<close>

lemma handle_error_step:
  assumes "handle cfg r rt st = Inl (e, st')"
  shows "st_notices st' = st_notices st \<and> st_observed st' = st_observed st \<and>
         (settings_wf (st_settings st) \<longrightarrow> settings_wf (st_settings st'))"
proof (cases "rt = RNoticeSettings \<and> req_user r \<noteq> None")
  case True
  then obtain usr where u: "req_user r = Some usr" and rt: "rt = RNoticeSettings" by auto
  with assms obtain db where
    n: "notice_settings (cfg_defaults cfg) (cfg_media cfg) usr (req_method r) (req_post r)
          (cfg_notice_types cfg) (st_settings st) = Inl (e, db)" and s: "st' = st\<lparr>st_settings := db\<rparr>"
    by (auto simp: handle_unfold dest!: on_settings_Inl)
  from s notice_settings_Inl_wf [of "st_settings st", OF _ n] show ?thesis by simp
next
  case False
  with assms have "st' = st"
    by (cases rt) (auto simp: handle_unfold split: option.splits dest!: on_notices_Inl)
  then show ?thesis by simp
qed

lemma handle_anonymous_step:
  "req_user r = None \<Longrightarrow> handle cfg r rt st = Inr (resp, st') \<Longrightarrow> st' = st"
  by (cases rt) (auto simp: handle_unfold split: option.splits)

lemma handle_observed_step:
  "handle cfg r rt st = Inr (resp, st') \<Longrightarrow> st_observed st' = st_observed st"
  by (cases rt) (auto simp: handle_unfold split: option.splits dest!: on_notices_Inr on_settings_Inr)

lemma handle_notices_step:
  assumes pk: "pk_distinct n_id (st_notices st)" and u: "req_user r = Some usr"
    and h: "handle cfg r rt st = Inr (resp, st')"
  shows "notices_evolve usr (st_notices st) (st_notices st')"
proof (cases rt)
  case (RSingle nid ms)
  with u h show ?thesis by (auto simp: handle_unfold dest!: on_notices_Inr intro: single_evolve [OF pk])
next
  case (RArchive nid np)
  with u h show ?thesis by (auto simp: handle_unfold dest!: on_notices_Inr intro: archive_evolve [OF pk])
next
  case (RDelete nid np)
  with u h show ?thesis by (auto simp: handle_unfold dest!: on_notices_Inr intro: delete_evolve [OF pk])
next
  case RMarkAllSeen
  with u h show ?thesis by (auto simp: handle_unfold dest!: on_notices_Inr intro: mark_all_seen_evolve [OF pk])
next
  case RNoticeSettings
  with u h show ?thesis by (auto simp: handle_unfold notices_evolve_refl dest!: on_settings_Inr)
qed (use u h in \<open>auto simp: handle_unfold notices_evolve_refl\<close>)

lemma handle_settings_step:
  assumes cfg: "config_wf cfg" and wf: "settings_wf (st_settings st)"
    and h: "handle cfg r rt st = Inr (resp, st')"
  shows "settings_wf (st_settings st')"
proof (cases "rt = RNoticeSettings")
  case True
  show ?thesis
  proof (cases "req_user r")
    case (Some usr)
    with True h obtain resp0 db where
      n: "notice_settings (cfg_defaults cfg) (cfg_media cfg) usr (req_method r) (req_post r)
            (cfg_notice_types cfg) (st_settings st) = Inr (resp0, db)" and s: "st' = st\<lparr>st_settings := db\<rparr>"
      by (auto simp: handle_unfold dest!: on_settings_Inr)
    have "settings_wf db"
      using cfg by (intro notice_settings_wf [OF wf _ _ _ n]) (auto simp: config_wf_def pk_distinct_def)
    with s show ?thesis by simp
  qed (use h handle_anonymous_step [of r cfg rt st resp st'] wf in simp)
next
  case False
  then have "st_settings st' = st_settings st"
    using h by (cases rt) (auto simp: handle_unfold split: option.splits dest!: on_notices_Inr)
  with wf show ?thesis by simp
qed

lemma notices_evolve_origin:
  "notices_evolve usr tbl tbl' \<Longrightarrow> n' \<in> set tbl' \<Longrightarrow> \<exists>m\<in>set tbl. notice_evolves usr m n'"
  unfolding notices_evolve_def by fastforce

lemma notice_evolves_descends: "notice_evolves usr m n' \<Longrightarrow> notice_descends m n'"
  by (auto simp: notice_evolves_def notice_descends_def)

lemma notice_descends_refl: "notice_descends n n"
  by (simp add: notice_descends_def)

lemma notice_descends_trans: "notice_descends a b \<Longrightarrow> notice_descends b c \<Longrightarrow> notice_descends a c"
  by (auto simp: notice_descends_def)

lemma reachable_pk_distinct:
  "reachable cfg st0 st \<Longrightarrow> pk_distinct n_id (st_notices st0) \<Longrightarrow> pk_distinct n_id (st_notices st)"
proof (induction rule: reachable.induct)
  case (step st st')
  then have pk: "pk_distinct n_id (st_notices st)" by simp
  from step.hyps(2) show ?case
  proof (cases rule: site_step.cases)
    case (ok r rt resp)
    show ?thesis
    proof (cases "req_user r")
      case None
      with ok pk show ?thesis by (auto dest: handle_anonymous_step)
    next
      case (Some usr)
      from handle_notices_step [OF pk Some ok] pk show ?thesis by (rule notices_evolve_pk_distinct)
    qed
  qed (use pk in \<open>auto dest: handle_error_step\<close>)
qed simp

text \<open>
  C22: On a well-formed configuration (every medium has a default, media and notice types
  are distinct), every state reachable from a well-formed state by any sequence of requests
  is well formed: notice keys distinct, the ObservedItem and NoticeSetting invariants hold.
\<close>

theorem reachable_site_wf:
  assumes "config_wf cfg" and "site_wf st0" and "reachable cfg st0 st"
  shows "site_wf st"
  using assms(3,2)
proof (induction rule: reachable.induct)
  case (step st st')
  then have wf: "site_wf st" by simp
  from step.hyps(2) show ?case
  proof (cases rule: site_step.cases)
    case (ok r rt resp)
    have "pk_distinct n_id (st_notices st')"
    proof (cases "req_user r")
      case None
      with ok wf show ?thesis by (auto dest: handle_anonymous_step simp: site_wf_def)
    next
      case (Some usr)
      from wf have "pk_distinct n_id (st_notices st)" by (simp add: site_wf_def)
      from handle_notices_step [OF this Some ok] this show ?thesis by (rule notices_evolve_pk_distinct)
    qed
    moreover have "settings_wf (st_settings st')"
      using handle_settings_step [OF assms(1) _ ok] wf by (simp add: site_wf_def)
    moreover have "observers_wf (st_observed st')"
      using handle_observed_step [OF ok] wf by (simp add: site_wf_def)
    ultimately show ?thesis by (simp add: site_wf_def)
  qed (use wf in \<open>auto simp: site_wf_def dest: handle_error_step\<close>)
qed

text \<open>
  C23: No sequence of requests changes the ObservedItem table: the only view that writes it,
  \<open>ManageNotifications\<close>, always raises before reaching the form.
\<close>

theorem reachable_observed_unchanged:
  "reachable cfg st0 st \<Longrightarrow> st_observed st = st_observed st0"
proof (induction rule: reachable.induct)
  case (step st st')
  from step.hyps(2) step.IH show ?case by (auto elim!: site_step_cases dest: handle_observed_step handle_error_step)
qed simp

text \<open>
  C24: Along any sequence of requests, every notice present descends from a notice of the
  start state with the same id, recipient, sender, message and type: views never create
  notices, an archived notice stays archived and a seen notice stays seen.
\<close>

theorem reachable_notices_descend:
  assumes "reachable cfg st0 st" and "pk_distinct n_id (st_notices st0)"
  shows "\<forall>n'\<in>set (st_notices st). \<exists>n\<in>set (st_notices st0). notice_descends n n'"
  using assms
proof (induction rule: reachable.induct)
  case init
  then show ?case by (auto intro: notice_descends_refl)
next
  case (step st st')
  have pk: "pk_distinct n_id (st_notices st)" using reachable_pk_distinct [OF step.hyps(1) step.prems] .
  have IH: "\<forall>n'\<in>set (st_notices st). \<exists>n\<in>set (st_notices st0). notice_descends n n'"
    using step.IH step.prems by simp
  from step.hyps(2) show ?case
  proof (cases rule: site_step.cases)
    case (ok r rt resp)
    show ?thesis
    proof (cases "req_user r")
      case None
      with ok IH show ?thesis by (auto dest: handle_anonymous_step)
    next
      case (Some usr)
      show ?thesis
      proof
        fix n' assume "n' \<in> set (st_notices st')"
        then obtain m where m: "m \<in> set (st_notices st)" "notice_evolves usr m n'"
          using notices_evolve_origin [OF handle_notices_step [OF pk Some ok]] by blast
        then obtain n where "n \<in> set (st_notices st0)" "notice_descends n m" using IH by blast
        with m show "\<exists>n\<in>set (st_notices st0). notice_descends n n'"
          by (blast intro: notice_descends_trans notice_evolves_descends)
      qed
    qed
  qed (use IH in \<open>auto dest: handle_error_step\<close>)
qed

lemma notices_evolve_others:
  assumes ev: "notices_evolve usr tbl tbl'" and su: "\<not> is_superuser usr"
  shows "{n \<in> set tbl'. n_recipient n \<noteq> user_id usr} = {n \<in> set tbl. n_recipient n \<noteq> user_id usr}"
proof -
  from ev obtain P f where t: "tbl' = map f (filter P tbl)" and e: "\<forall>n\<in>set tbl. notice_evolves usr n (f n)"
    and d: "\<forall>n\<in>set tbl. \<not> P n \<longrightarrow> n_recipient n = user_id usr \<or> is_superuser usr"
    unfolding notices_evolve_def by blast
  have same: "f n = n" if "n \<in> set tbl" "n_recipient n \<noteq> user_id usr" for n
    using e that su by (auto simp: notice_evolves_def)
  have rec: "n_recipient (f n) = n_recipient n" if "n \<in> set tbl" for n
    using e that by (auto simp: notice_evolves_def)
  show ?thesis
  proof (intro set_eqI iffI)
    fix x assume "x \<in> {n \<in> set tbl'. n_recipient n \<noteq> user_id usr}"
    then obtain m where "m \<in> set tbl" "P m" "x = f m" "n_recipient x \<noteq> user_id usr" by (auto simp: t)
    with rec same show "x \<in> {n \<in> set tbl. n_recipient n \<noteq> user_id usr}" by force
  next
    fix x assume x: "x \<in> {n \<in> set tbl. n_recipient n \<noteq> user_id usr}"
    with d su have "P x" by auto
    with x same show "x \<in> {n \<in> set tbl'. n_recipient n \<noteq> user_id usr}" by (force simp: t)
  qed
qed

text \<open>
  C20: Every successful request of a logged-in user refines the abstract step of the Notice
  table: rows are only deleted, archived or marked seen, deletion and archiving only of the
  user's own notices unless the user is a superuser, marking seen only of the user's own.
\<close>

theorem handle_refines_notices_evolve:
  assumes "pk_distinct n_id (st_notices st)" and "req_user r = Some usr"
    and "handle cfg r rt st = Inr (resp, st')"
  shows "notices_evolve usr (st_notices st) (st_notices st')"
  using assms by (rule handle_notices_step)

text \<open>
  C21: A request of an anonymous user changes nothing; the answer is the redirect to the
  login page, or the 401 of the feed.
\<close>

theorem handle_anonymous:
  assumes "req_user r = None" and "handle cfg r rt st = Inr (resp, st')"
  shows "st' = st \<and> (resp = LoginRedirect (''/accounts/login/?next='' @ req_path r) \<or> resp = AuthRequired)"
  using assms by (cases rt) (auto simp: handle_unfold split: option.splits)

text \<open>
  C25: \<open>ManageNotifications\<close> never runs: \<open>@login_required\<close> on the method \<open>dispatch\<close>
  reads \<open>.user\<close> of the view instance and raises \<open>AttributeError\<close>, whatever the request.
\<close>

theorem manage_notifications_raises: "handle cfg r (RManage kw) st = Inl (AttributeError ''user'', st)"
  by (simp add: handle_unfold)

text \<open>
  C26: The feed never answers with a feed: without credentials it asks for them (401);
  once a user is authenticated its body raises \<open>NameError\<close> on the undefined \<open>feed\<close>.
\<close>

theorem feed_for_user_raises:
  "handle cfg r RFeed st =
     (if req_user r = None \<and> req_basic_auth r = None then Inr (AuthRequired, st) else Inl (NameError ''feed'', st))"
  by (simp add: handle_unfold split: option.splits)

text \<open>
  C27: From any state with distinct notice keys, a logged-in user reaches in one step a state
  in which none of the user's unarchived notices is unseen: \<open>mark_all_seen\<close> succeeds.
\<close>

theorem mark_all_seen_clears:
  assumes "req_user r = Some usr" and "pk_distinct n_id (st_notices st)"
  shows "\<exists>st'. handle cfg r RMarkAllSeen st = Inr (NoticesResponse (NoticeRedirect (Some notices_url)), st') \<and>
           site_step cfg st st' \<and> notices_for (user_id usr) (Some True) None (st_notices st') = []"
proof -
  let ?tbl = "map (\<lambda>x. if n_recipient x = user_id usr \<and> \<not> n_archived x \<and> n_unseen x
                       then x\<lparr>n_unseen := False\<rparr> else x) (st_notices st)"
  have h: "handle cfg r RMarkAllSeen st =
             Inr (NoticesResponse (NoticeRedirect (Some notices_url)), st\<lparr>st_notices := ?tbl\<rparr>)"
    using assms mark_all_seen_effect [OF assms(2), of usr] by (simp add: handle_unfold on_notices_def)
  have "notices_for (user_id usr) (Some True) None ?tbl = []"
    by (auto simp: notices_for_def opt_match_def filter_empty_conv)
  with h show ?thesis by (auto intro: site_step.ok)
qed

text \<open>
  C28: A request of a user who is not a superuser leaves the notices of every other user
  exactly as they were: none is deleted, archived or marked seen.
\<close>

theorem handle_keeps_others_notices:
  assumes "pk_distinct n_id (st_notices st)" and "req_user r = Some usr" and "\<not> is_superuser usr"
    and "handle cfg r rt st = Inr (resp, st')"
  shows "{n \<in> set (st_notices st'). n_recipient n \<noteq> user_id usr} =
         {n \<in> set (st_notices st). n_recipient n \<noteq> user_id usr}"
  using notices_evolve_others [OF handle_notices_step [OF assms(1,2,4)] assms(3)] .

text \<open>
  C29: The body that \<open>@login_required\<close> keeps from running is right: a valid POST to
  \<open>ManageNotifications.dispatch\<close> (content type and object found, the submitted keys
  valid) saves the form, redirects to the request path, keeps the ObservedItem invariant,
  and leaves exactly the subscriptions the form's contract prescribes.
\<close>

theorem manage_dispatch_post_refines:
  assumes wf: "site_wf st" and cfg: "config_wf cfg" and m: "req_method r = POST"
    and ct: "get_content_type cfg kw = Inr ct" and oid: "get_object_id kw = Inr oid"
    and obj: "get_object cfg ct oid = Inr obj"
    and ids: "post_notice_ids (req_post r) = Inr vals"
    and clean: "notices_clean (get_form cfg ct obj usr st) vals = Inr now"
  shows "\<exists>items'. manage_dispatch cfg r kw usr st = Inr (ManageRedirect (req_path r), st\<lparr>st_observed := items'\<rparr>) \<and>
           observers_wf items' \<and>
           obs_keys items' =
             reconcile_spec (user_id usr) (nat (mo_id obj))
               (nt_id ` {n \<in> set (cfg_notice_types cfg). nt_content_type n = ct_id ct}) (set vals)
               (obs_keys (st_observed st))"
proof -
  have f: "get_form cfg ct obj usr st =
             notification_form_init (ct_id ct) (nat (mo_id obj)) (user_id usr) (cfg_notice_types cfg) (st_observed st)"
    by (simp add: get_form_def)
  have ow: "observers_wf (st_observed st)" using wf by (simp add: site_wf_def)
  have nd: "pk_distinct nt_id (cfg_notice_types cfg)" using cfg by (simp add: config_wf_def)
  obtain items' where s: "notification_form_save (get_form cfg ct obj usr st) now (st_observed st) = Inr items'"
    and w: "observers_wf items'"
    and k: "obs_keys items' =
             reconcile_spec (user_id usr) (nat (mo_id obj))
               (nt_id ` {n \<in> set (cfg_notice_types cfg). nt_content_type n = ct_id ct}) (set vals)
               (obs_keys (st_observed st))"
    using notification_form_save_effect [OF ow nd f clean] by blast
  have "manage_dispatch cfg r kw usr st = Inr (ManageRedirect (req_path r), st\<lparr>st_observed := items'\<rparr>)"
    using m ct oid obj ids clean s
    by (simp add: manage_dispatch_def manage_post_def form_valid_def get_success_url_def Let_def)
  with w k show ?thesis by blast
qed

section \<open>Witnesses\<close>

lemmas views_eval = ex_cfg_def ex_site_def ex_site1_def ex_request_def ex_post_ct_def ex_post_def ex_manage_kw_def
  ex_notices_def ex_notice_def ex_bob_def ex_admin_def ex_settings_db_def ex_nts_def ex_nt_def ex_oi_def
  ex_defaults_def ex_media_def

lemma ex_site_wf: "site_wf ex_site"
  by (simp add: views_eval site_wf_def pk_distinct_def observers_wf_def oi_key_def settings_wf_def setting_key_def)

lemma ex_config_wf: "config_wf ex_cfg"
  by (simp add: views_eval config_wf_def pk_distinct_def)

lemma ex_get_content_type: "get_content_type ex_cfg ex_manage_kw = Inr ex_post_ct"
  by (simp add: views_eval get_content_type_def get_for_id_def pk_lookup_value_def py_int_of_string_def
                orm_get_def)

theorem manage_dispatch_post_refines_witness:
  "\<exists>items'. manage_dispatch ex_cfg (ex_request (Some ex_bob)\<lparr>req_method := POST, req_post := [(''notices'', ''2'')]\<rparr>)
              ex_manage_kw ex_bob ex_site = Inr (ManageRedirect ''/n/'', ex_site\<lparr>st_observed := items'\<rparr>) \<and>
     observers_wf items' \<and> obs_keys items' = {(3, 2, 9)}"
proof -
  have obj: "get_object ex_cfg ex_post_ct ''9'' = Inr ex_post"
    by (simp add: views_eval get_object_def get_object_for_this_type_def pk_lookup_value_def
                  py_int_of_string_def orm_get_def)
  have oid: "get_object_id ex_manage_kw = Inr ''9''" by (simp add: get_object_id_def ex_manage_kw_def)
  have two: "py_str_of_int 2 = ''2''" by code_simp
  have ids: "post_notice_ids [(''notices'', ''2'')] = Inr [2]"
    by (simp add: post_notice_ids_def py_int_of_string_def two)
  have clean: "notices_clean (get_form ex_cfg ex_post_ct ex_post ex_bob ex_site) [2] = Inr [ex_nt 2 7]"
    by (simp add: views_eval get_form_def notices_clean_def notification_form_init_def form_get_content_type_def Let_def)
  have spec: "reconcile_spec 3 9 (nt_id ` {n \<in> set (cfg_notice_types ex_cfg). nt_content_type n = 7}) (set [2])
                (obs_keys (st_observed ex_site)) = {(3, 2, 9)}"
  proof -
    have q: "nt_id ` {n \<in> set (cfg_notice_types ex_cfg). nt_content_type n = 7} = {1, 2}"
      by (simp only: set_filter [symmetric]) (simp add: views_eval)
    show ?thesis by (simp only: q) (auto simp: views_eval reconcile_spec_def obs_keys_def oi_key_def)
  qed
  show ?thesis
    using manage_dispatch_post_refines [OF ex_site_wf ex_config_wf _ ex_get_content_type oid obj _ clean,
            of "ex_request (Some ex_bob)\<lparr>req_method := POST, req_post := [(''notices'', ''2'')]\<rparr>"] ids spec
    by (simp add: ex_request_def ex_bob_def ex_post_def ex_post_ct_def)
qed

lemma ex_archive_step:
  "handle ex_cfg (ex_request (Some ex_bob)) (RArchive (Some 1) (Some ''/'')) ex_site =
     Inr (NoticesResponse (NoticeRedirect (Some ''/'')), ex_site1)"
proof -
  have pk: "pk_distinct n_id ex_notices" by (simp add: views_eval pk_distinct_def)
  show ?thesis
    using archive_effect [OF pk, of ex_bob 1 "Some ''/''"]
    by (simp add: handle_unfold on_notices_def ex_request_def ex_site_def ex_site1_def)
       (simp add: views_eval)
qed

lemma ex_reachable1: "reachable ex_cfg ex_site ex_site1"
  by (rule reachable.step [OF reachable.init site_step.ok [OF ex_archive_step]])

lemma ex_site_pk: "pk_distinct n_id (st_notices ex_site)"
  by (simp add: views_eval pk_distinct_def)

theorem handle_refines_notices_evolve_witness:
  "pk_distinct n_id (st_notices ex_site) \<and> req_user (ex_request (Some ex_bob)) = Some ex_bob \<and>
   handle ex_cfg (ex_request (Some ex_bob)) (RArchive (Some 1) (Some ''/'')) ex_site =
     Inr (NoticesResponse (NoticeRedirect (Some ''/'')), ex_site1) \<and>
   (\<exists>P f. st_notices ex_site1 = map f (filter P (st_notices ex_site)))"
  using handle_refines_notices_evolve [OF ex_site_pk _ ex_archive_step] ex_site_pk ex_archive_step
  by (auto simp: ex_request_def notices_evolve_def)

theorem handle_anonymous_witness:
  "req_user (ex_request None) = None \<and>
   handle ex_cfg (ex_request None) RNotices ex_site = Inr (LoginRedirect ''/accounts/login/?next=/n/'', ex_site) \<and>
   (ex_site = ex_site \<and> (LoginRedirect ''/accounts/login/?next=/n/'' = LoginRedirect (''/accounts/login/?next='' @ req_path (ex_request None))
      \<or> LoginRedirect ''/accounts/login/?next=/n/'' = AuthRequired))"
proof -
  have h: "handle ex_cfg (ex_request None) RNotices ex_site = Inr (LoginRedirect ''/accounts/login/?next=/n/'', ex_site)"
    by (simp add: handle_unfold ex_request_def)
  show ?thesis using handle_anonymous [OF _ h] h by (simp add: ex_request_def)
qed

theorem reachable_site_wf_witness:
  "config_wf ex_cfg \<and> site_wf ex_site \<and> reachable ex_cfg ex_site ex_site1 \<and> site_wf ex_site1"
  using reachable_site_wf [OF ex_config_wf ex_site_wf ex_reachable1] ex_config_wf ex_site_wf ex_reachable1
  by blast

theorem reachable_observed_unchanged_witness:
  "reachable ex_cfg ex_site ex_site1 \<and> st_observed ex_site1 = st_observed ex_site"
  using reachable_observed_unchanged [OF ex_reachable1] ex_reachable1 by blast

theorem reachable_notices_descend_witness:
  "reachable ex_cfg ex_site ex_site1 \<and> pk_distinct n_id (st_notices ex_site) \<and>
   (\<exists>n. n \<in> set (st_notices ex_site) \<and> n_id n = 1 \<and> n_recipient n = 3 \<and> \<not> n_archived n)"
proof -
  have "ex_notice 1 3 True True \<in> set (st_notices ex_site1)" by (simp add: ex_site1_def)
  then obtain n where "n \<in> set (st_notices ex_site)" "notice_descends n (ex_notice 1 3 True True)"
    using reachable_notices_descend [OF ex_reachable1 ex_site_pk] by blast
  moreover have "n \<in> set (st_notices ex_site) \<Longrightarrow> \<not> n_archived n \<or> n_id n \<noteq> 1"
    by (auto simp: views_eval)
  ultimately show ?thesis using ex_reachable1 ex_site_pk
    by (auto simp: notice_descends_def ex_notice_def)
qed

theorem mark_all_seen_clears_witness:
  "req_user (ex_request (Some ex_bob)) = Some ex_bob \<and> pk_distinct n_id (st_notices ex_site) \<and>
   (\<exists>st'. handle ex_cfg (ex_request (Some ex_bob)) RMarkAllSeen ex_site =
            Inr (NoticesResponse (NoticeRedirect (Some notices_url)), st') \<and>
          site_step ex_cfg ex_site st' \<and> notices_for 3 (Some True) None (st_notices st') = [])"
  using mark_all_seen_clears [OF _ ex_site_pk, of "ex_request (Some ex_bob)" ex_bob ex_cfg] ex_site_pk
  by (simp add: ex_request_def ex_bob_def)

theorem handle_keeps_others_notices_witness:
  "pk_distinct n_id (st_notices ex_site) \<and> req_user (ex_request (Some ex_bob)) = Some ex_bob \<and>
   \<not> is_superuser ex_bob \<and>
   handle ex_cfg (ex_request (Some ex_bob)) (RArchive (Some 1) (Some ''/'')) ex_site =
     Inr (NoticesResponse (NoticeRedirect (Some ''/'')), ex_site1) \<and>
   {n \<in> set (st_notices ex_site1). n_recipient n \<noteq> 3} = {n \<in> set (st_notices ex_site). n_recipient n \<noteq> 3}"
  using handle_keeps_others_notices [OF ex_site_pk _ _ ex_archive_step, of ex_bob] ex_site_pk ex_archive_step
  by (simp add: ex_request_def ex_bob_def)

end
