(* ===== verification/Spec2Isabelle.thy ===== *)
theory Spec2Isabelle
  imports Views
begin

text \<open>
  \<^bold>\<open>django-notification: views, subscription form and content-type JSON.\<close>

  The sources (src/notification/) are four files. \<open>forms.py\<close> holds \<open>NotificationForm\<close>,
  the form with which a user subscribes ("observes") notice types on one content object.
  \<open>fields.py\<close> holds the field that renders those notice types. \<open>views.py\<close> holds the web
  views: the notice index, a single notice, archive, delete, mark all seen, the settings
  matrix (notice types \<open>\<times>\<close> delivery media), the Atom feed, and the class-based page
  \<open>ManageNotifications\<close> that drives the form. \<open>json.py\<close> holds an encoder and a decoder
  of model references. The views and the form act on three tables of models.py, which is
  not part of the sources: \<open>Notice\<close>, \<open>ObservedItem\<close> and \<open>NoticeSetting\<close>. Each view
  is reached through \<open>login_required\<close>, or \<open>basic_auth_required\<close> for the feed.

  \<^bold>\<open>Theories.\<close>
  \<^item> Prelude: users, query dicts (\<open>qd_get\<close>, last value wins), Python exceptions as the
    datatype \<open>py_error\<close> with results \<open>py_error + 'a\<close> and sequencing \<open>sbind\<close>, and
    generic lemmas on lists, folds and maps.
  \<^item> ORM: a table is a list of rows with a primary key. \<open>orm_get\<close> raises
    \<open>DoesNotExist\<close> or \<open>MultipleObjectsReturned\<close>. \<open>orm_save\<close> updates the row with the
    key or appends. \<open>orm_create\<close> takes the key \<open>1 + max\<close>, as an AutoField does on an
    empty sequence. \<open>orm_delete\<close> filters. \<open>table_map\<close> reads a table as a map. The
    lemmas are stated for any row type and are the interface the components use.
  \<^item> Observers (forms.py, fields.py):
    \<^item> \<open>notification_form_init\<close> is \<open>__init__\<close>: the queryset of the content type, and
      \<open>already_observed\<close> as the SQL join, duplicates included.
    \<^item> \<open>form_get_content_type\<close> is \<open>get_content_type\<close>, which \<open>__init__\<close> calls to filter
      the queryset.
    \<^item> \<open>notices_clean\<close> is the field's cleaning.
    \<^item> \<open>save_notice\<close>, \<open>save_loop\<close> and \<open>notification_form_save\<close> are \<open>save\<close>: the two
      \<open>if\<close>s of the loop body in order, the creation, and the \<open>get\<close>-then-\<open>delete\<close>.
    \<^item> Contract: \<open>reconcile_spec\<close> on the set \<open>obs_keys\<close> of (user, notice type, object)
      triples. Invariant: \<open>observers_wf\<close>.
  \<^item> Settings (the \<open>notice_settings\<close> view):
    \<^item> \<open>get_notification_setting\<close> (models.py, modelled as upstream writes it).
    \<^item> One cell \<open>settings_cell\<close>, whose POST branch is \<open>settings_cell_post\<close>.
    \<^item> The loops \<open>settings_row\<close> and \<open>settings_table\<close>, and the view \<open>notice_settings\<close>.
    \<^item> The table state \<open>settings_db\<close> records every \<open>save()\<close> call, so that redundant
      saves (each fires a \<open>post_save\<close> signal) are observable.
    \<^item> Contract: \<open>settings_post_spec\<close>, a fold of map updates over the cells. Invariant:
      \<open>settings_wf\<close>.
  \<^item> Notices (views \<open>notices\<close>, \<open>single\<close>, \<open>archive\<close>, \<open>delete\<close>, \<open>mark_all_seen\<close>):
    \<^item> Each view is a function of the user, its URL arguments and the Notice table, and
      returns the response and the new table.
    \<^item> \<open>Notice.archive\<close> and the manager method \<open>notices_for\<close> come from models.py. They
      are modelled as the views' docstrings describe them: the recipient's unarchived
      notices, filtered by \<open>unseen\<close> and \<open>on_site\<close> when given. models.py is not
      part of the sources, so this is the documented contract; what C13 says of
      "unarchived" rests on it.
  \<^item> ContentJSON (json.py):
    \<^item> Python values are \<open>pyval\<close> and JSON documents are \<open>json\<close>.
    \<^item> \<open>encode\<close> is the JSON encoder with \<open>ct_default\<close> (\<open>ContentTypeJSONEncoder.default\<close>)
      as its hook. It threads the ContentType table, which \<open>get_for_model\<close> may extend.
    \<^item> \<open>decode\<close> applies \<open>dict_to_object\<close> to every object, bottom-up.
  \<^item> Views (the request layer):
    \<^item> The decorators, \<open>feed_for_user\<close>, and \<open>ManageNotifications\<close> (\<open>manage_dispatch\<close>,
      \<open>manage_get\<close>, \<open>manage_post\<close>, \<open>form_valid\<close>, ...).
    \<^item> \<open>handle\<close> routes a request (\<open>route\<close>, \<open>http_request\<close>) to the views over one
      \<open>site\<close> state made of the three tables.
    \<^item> \<open>site_step\<close> is the step relation and \<open>reachable\<close> its closure from a start
      state.
    \<^item> \<open>notices_evolve\<close> is the abstract step that every view refines on the Notice
      table.

  \<^bold>\<open>What is proved.\<close>
  \<^item> Form (C1 to C4):
    \<^item> \<open>save\<close> refines \<open>reconcile_spec\<close> and keeps the invariant.
    \<^item> Saving the initial selection is a no-op.
    \<^item> \<open>save\<close> raises, with the table unchanged, when the row to delete is missing or
      duplicated.
  \<^item> Settings (C5 to C9):
    \<^item> A POST refines \<open>settings_post_spec\<close>: each cell ends up equal to its checkbox.
    \<^item> Only needed saves happen, and a re-post is a no-op.
    \<^item> A GET renders the stored values.
    \<^item> Field names identify their cells only under a side condition
      (\<open>form_label_collision\<close> shows a collision).
  \<^item> Notice views (C10 to C13): the effect of each view on the table, on every branch, with
    the authorization of archive and delete.
  \<^item> JSON (C14 to C19):
    \<^item> Round trip for plain values and stored model objects.
    \<^item> The encoder fails exactly on unserialisable values, with \<open>TypeError\<close> and exactly
      the content-type table it had built by then.
    \<^item> How the encoder registers content types.
    \<^item> A characterisation of \<open>dict_to_object\<close>, the dict fallback included.
    \<^item> Two behaviours the spec warns of: any plain dict whose reference keys name a stored
      object is decoded as the model, and a stale reference comes back as a dict.
  \<^item> Request layer (C20 to C29):
    \<^item> Refinement of \<open>notices_evolve\<close>; anonymous requests change nothing.
    \<^item> Invariants of the reachable states: well-formedness, the ObservedItem table never
      changes, notices only descend.
    \<^item> \<open>ManageNotifications\<close> and the feed always raise.
    \<^item> One request clears a user's unseen notices.
    \<^item> A non-superuser never touches other users' notices.
    \<^item> The body of \<open>ManageNotifications.dispatch\<close>, which the broken decorator never
      reaches, would refine the form's contract for every POST that Django's field
      cleaning accepts.
  \<^item> Bounds, termination and composition (C30 to C32):
    \<^item> The form adds at most one row per notice type that is checked and not already
      observed.
    \<^item> What \<open>default\<close> returns is written without another call of \<open>default\<close>, which
      is why the encoder's recursion stops.
    \<^item> After a POST to the settings view, a GET shows exactly the submitted checkboxes.
  \<^item> Error paths and the content-type table (C33, C34):
    \<^item> On a table with one setting per key, the settings view raises exactly when a cell
      has no stored setting and its medium no default (\<open>cell_fails\<close>), and then with
      \<open>KeyError\<close>; no other exception escapes it. The exception carries a well-formed
      table that keeps every stored key and holds a setting for every cell visited before
      the failing one.
    \<^item> The encoder keeps the content-type table well formed (\<open>ct_table_wf\<close>), appends
      only the content types of the encoded models (\<open>model_labels\<close>), and a second encoding
      against the grown table gives the same JSON and adds nothing.

  \<^bold>\<open>Modelling choices.\<close>
  \<^item> Loops over querysets are structural recursion over the list the queryset holds when
    the loop starts, so no fuel is needed. The encoder recurses on the value \<open>default\<close>
    returns; it terminates by a weight that \<open>default\<close> lowers (the \<open>termination\<close>
    proof of \<open>encode\<close>).
  \<^item> Exceptions keep what was committed. Django commits every \<open>save()\<close> and
    \<open>delete()\<close> at once (autocommit), so an exception does not undo the writes before
    it. Every fallible operation that writes returns its error together with its state:
    \<open>py_error \<times> settings_db\<close>, \<open>py_error \<times> observed_item list\<close>,
    \<open>py_error \<times> content_type list\<close> and \<open>py_error \<times> site\<close>. A read that raises
    inside such an operation is lifted by \<open>raise_with\<close> (Prelude). \<open>site_step.error\<close>
    moves to the state the failed request left. Only the settings view can write before it
    raises (\<open>handle_error_step\<close>): it saves the defaults of earlier cells, then raises
    \<open>KeyError\<close> at a medium without a default. Under \<open>config_wf\<close> this never happens.
    The encoder likewise keeps the content types it registered before a \<open>TypeError\<close>
    (\<open>encode_fails_iff\<close>).
  \<^item> Django's coercion of lookup values (\<open>int()\<close> of a string id) is modelled by
    \<open>py_int_of_string\<close>. \<open>ModelMultipleChoiceField.clean\<close> further requires each
    submitted key to be exactly the string of a primary key (\<open>post_notice_ids\<close> with
    \<open>py_str_of_int\<close>). Non-string values for the app label or model of a content-type
    lookup never match.

  \<^bold>\<open>Not modelled.\<close>
  \<^item> Template rendering: a response carries the context values instead.
  \<^item> The \<open>print\<close> statements of \<open>NotificationForm.save\<close> (console output).
  \<^item> The character level of JSON (simplejson's parser and printer).
  \<^item> The ordering of querysets (tables keep insertion order).
  \<^item> URL quoting of the \<open>next\<close> parameter.
  \<^item> Transactions: \<open>ATOMIC_REQUESTS\<close> or \<open>TransactionMiddleware\<close>, which would roll
    back a failed request. The model follows Django's default of committing each write.
  \<^item> The syndication classes the feed would use: the feed view never gets past its
    first call.
\<close>

end
